(* ===== verification/Prelude.thy ===== *)
theory Prelude
  imports Main "HOL-Library.Word"
begin

text \<open>
  Shared vocabulary of the development.

  \<^item> \<open>outcome\<close>: what a Rust expression of type \<open>Result<T, E>\<close> can do: return
    \<open>Ok\<close>, return \<open>Err\<close>, or panic. \<open>and_then\<close> is the \<open>?\<close> operator.
  \<^item> machine arithmetic with the two build profiles of Cargo: a \<open>Debug\<close> build panics on
    overflow, a \<open>Release\<close> build wraps around.
  \<^item> the parts of the Rust standard library the program uses on strings: decimal printing,
    \<open>from_str_radix\<close>, \<open>{:02x}\<close> formatting, ASCII classification and case.
  Strings are lists of bytes (\<open>char\<close> is an 8-bit character), so \<open>length\<close> is Rust's
  \<open>str::len\<close>.
\<close>

section \<open>Machine types\<close>

type_synonym u8 = "8 word"
type_synonym u16 = "16 word"
type_synonym u32 = "32 word"
type_synonym u64 = "64 word"
type_synonym u256 = "256 word"
type_synonym bytes = "u8 list"

section \<open>Outcomes\<close>

datatype ('a, 'e) outcome = Ok 'a | Err 'e | Panic string

named_theorems outcome_simps "equations of the outcome combinators"

fun and_then :: "('a, 'e) outcome \<Rightarrow> ('a \<Rightarrow> ('b, 'e) outcome) \<Rightarrow> ('b, 'e) outcome" where
  "and_then (Ok x) f = f x"
| "and_then (Err e) f = Err e"
| "and_then (Panic m) f = Panic m"

fun map_err :: "('e \<Rightarrow> 'f) \<Rightarrow> ('a, 'e) outcome \<Rightarrow> ('a, 'f) outcome" where
  "map_err g (Ok x) = Ok x"
| "map_err g (Err e) = Err (g e)"
| "map_err g (Panic m) = Panic m"

definition ok_or :: "'a option \<Rightarrow> 'e \<Rightarrow> ('a, 'e) outcome" where
  "ok_or v e = (case v of None \<Rightarrow> Err e | Some x \<Rightarrow> Ok x)"

text \<open>\<open>unwrap\<close> and \<open>expect\<close>: an error becomes a panic.\<close>

fun unwrap :: "string \<Rightarrow> ('a, 'e) outcome \<Rightarrow> ('a, 'f) outcome" where
  "unwrap msg (Ok x) = Ok x"
| "unwrap msg (Err e) = Panic msg"
| "unwrap msg (Panic m) = Panic m"

definition unwrap_option :: "string \<Rightarrow> 'a option \<Rightarrow> ('a, 'e) outcome" where
  "unwrap_option msg v = (case v of None \<Rightarrow> Panic msg | Some x \<Rightarrow> Ok x)"

fun is_ok :: "('a, 'e) outcome \<Rightarrow> bool" where
  "is_ok (Ok x) = True"
| "is_ok (Err e) = False"
| "is_ok (Panic m) = False"

fun is_panic :: "('a, 'e) outcome \<Rightarrow> bool" where
  "is_panic (Ok x) = False"
| "is_panic (Err e) = False"
| "is_panic (Panic m) = True"

text \<open>Running a fallible function over a list, left to right, as \<open>collect\<close> on results does.\<close>

fun traverse :: "('a \<Rightarrow> ('b, 'e) outcome) \<Rightarrow> 'a list \<Rightarrow> ('b list, 'e) outcome" where
  "traverse f [] = Ok []"
| "traverse f (x # xs) =
     and_then (f x) (\<lambda>y. and_then (traverse f xs) (\<lambda>ys. Ok (y # ys)))"

fun fold_outcome :: "('s \<Rightarrow> 'a \<Rightarrow> ('s, 'e) outcome) \<Rightarrow> 's \<Rightarrow> 'a list \<Rightarrow> ('s, 'e) outcome" where
  "fold_outcome f s [] = Ok s"
| "fold_outcome f s (x # xs) = and_then (f s x) (\<lambda>s'. fold_outcome f s' xs)"

lemma and_then_eq_Ok [outcome_simps]:
  "and_then m f = Ok y \<longleftrightarrow> (\<exists>x. m = Ok x \<and> f x = Ok y)"
  by (cases m) auto

lemma and_then_eq_Err [outcome_simps]:
  "and_then m f = Err e \<longleftrightarrow> m = Err e \<or> (\<exists>x. m = Ok x \<and> f x = Err e)"
  by (cases m) auto

lemma and_then_assoc: "and_then (and_then m f) g = and_then m (\<lambda>x. and_then (f x) g)"
  by (cases m) auto

lemma map_err_eq_Ok [outcome_simps]: "map_err g m = Ok x \<longleftrightarrow> m = Ok x"
  by (cases m) auto

lemma unwrap_eq_Ok [outcome_simps]: "unwrap msg m = Ok x \<longleftrightarrow> m = Ok x"
  by (cases m) auto

lemma unwrap_not_Err [outcome_simps]: "unwrap msg m \<noteq> Err e"
  by (cases m) auto

lemma ok_or_eq_Ok [outcome_simps]: "ok_or v e = Ok x \<longleftrightarrow> v = Some x"
  by (simp add: ok_or_def split: option.splits)

lemma ok_or_Some [simp]: "ok_or (Some x) e = Ok x"
  by (simp add: ok_or_def)

lemma ok_or_None [simp]: "ok_or None e = Err e"
  by (simp add: ok_or_def)

lemma unwrap_option_Some [simp]: "unwrap_option msg (Some x) = Ok x"
  by (simp add: unwrap_option_def)

lemma unwrap_option_None [simp]: "unwrap_option msg None = Panic msg"
  by (simp add: unwrap_option_def)

lemma traverse_Ok: "(\<And>x. x \<in> set xs \<Longrightarrow> f x = Ok (g x)) \<Longrightarrow> traverse f xs = Ok (map g xs)"
  by (induction xs) auto

lemma traverse_length: "traverse f xs = Ok ys \<Longrightarrow> length ys = length xs"
  by (induction xs arbitrary: ys) (auto simp: outcome_simps)

lemma fold_outcome_Ok: "(\<And>s x. f s x = Ok (g s x)) \<Longrightarrow> fold_outcome f s xs = Ok (foldl g s xs)"
  by (induction xs arbitrary: s) auto

section \<open>Lists\<close>

lemma map_filter_append: "List.map_filter f (xs @ ys) = List.map_filter f xs @ List.map_filter f ys"
  by (induction xs) (auto simp: List.map_filter_simps split: option.split)

lemma map_filter_none: "(\<And>x. x \<in> set xs \<Longrightarrow> f x = None) \<Longrightarrow> List.map_filter f xs = []"
  by (induction xs) (auto simp: List.map_filter_simps)

section \<open>Arithmetic of a build profile\<close>

datatype profile = Debug | Release

definition add_op :: "profile \<Rightarrow> 'w::len word \<Rightarrow> 'w word \<Rightarrow> ('w word, 'e) outcome" where
  "add_op b x y =
     (if b = Debug \<and> unat x + unat y \<ge> 2 ^ LENGTH('w)
      then Panic ''attempt to add with overflow'' else Ok (x + y))"

definition sub_op :: "profile \<Rightarrow> 'w::len word \<Rightarrow> 'w word \<Rightarrow> ('w word, 'e) outcome" where
  "sub_op b x y =
     (if b = Debug \<and> unat x < unat y
      then Panic ''attempt to subtract with overflow'' else Ok (x - y))"

definition mul_op :: "profile \<Rightarrow> 'w::len word \<Rightarrow> 'w word \<Rightarrow> ('w word, 'e) outcome" where
  "mul_op b x y =
     (if b = Debug \<and> unat x * unat y \<ge> 2 ^ LENGTH('w)
      then Panic ''attempt to multiply with overflow'' else Ok (x * y))"

definition checked_add :: "'w::len word \<Rightarrow> 'w word \<Rightarrow> 'w word option" where
  "checked_add x y = (if unat x + unat y < 2 ^ LENGTH('w) then Some (x + y) else None)"

lemma unat_add_no_overflow:
  "unat x + unat y < 2 ^ LENGTH('w) \<Longrightarrow> unat (x + y) = unat x + unat (y :: 'w::len word)"
  by (simp add: unat_word_ariths)

lemma add_op_fits:
  "unat x + unat y < 2 ^ LENGTH('w) \<Longrightarrow> add_op b x y = Ok (x + (y :: 'w::len word))"
  by (simp add: add_op_def)

lemma sub_op_fits: "unat y \<le> unat x \<Longrightarrow> sub_op b x y = Ok (x - y)"
  by (simp add: sub_op_def)

lemma mul_op_fits:
  "unat x * unat y < 2 ^ LENGTH('w) \<Longrightarrow> mul_op b x y = Ok (x * (y :: 'w::len word))"
  by (simp add: mul_op_def)

lemma checked_add_Some:
  "checked_add x y = Some z \<Longrightarrow> unat z = unat x + unat (y :: 'w::len word)"
  by (auto simp: checked_add_def unat_add_no_overflow split: if_splits)

section \<open>Strings of the standard library\<close>

definition string_bytes :: "string \<Rightarrow> bytes" where
  "string_bytes s = map (\<lambda>c. of_char c) s"

lemma length_string_bytes [simp]: "length (string_bytes s) = length s"
  by (simp add: string_bytes_def)

text \<open>\<open>str::starts_with\<close> and the slice \<open>&s[n..]\<close>, which panics past the end.\<close>

definition starts_with :: "string \<Rightarrow> string \<Rightarrow> bool" where
  "starts_with p s \<longleftrightarrow> take (length p) s = p"

definition slice_from :: "nat \<Rightarrow> 'a list \<Rightarrow> ('a list, 'e) outcome" where
  "slice_from n s = (if n \<le> length s then Ok (drop n s) else Panic ''slice index out of range'')"

definition slice :: "nat \<Rightarrow> nat \<Rightarrow> 'a list \<Rightarrow> ('a list, 'e) outcome" where
  "slice i j s =
     (if i \<le> j \<and> j \<le> length s then Ok (take (j - i) (drop i s))
      else Panic ''slice index out of range'')"

lemma slice_length: "slice i j s = Ok t \<Longrightarrow> length t = j - i"
  by (auto simp: slice_def split: if_splits)

text \<open>
  Slices of a \<open>str\<close>: both ends have to lie on character boundaries of the UTF-8 text, that
  is, not before a continuation byte.
\<close>

definition is_char_boundary :: "string \<Rightarrow> nat \<Rightarrow> bool" where
  "is_char_boundary s i \<longleftrightarrow>
     i = 0 \<or> i = length s \<or>
     (i < length s \<and> \<not> (128 \<le> (of_char (s ! i) :: nat) \<and> (of_char (s ! i) :: nat) < 192))"

definition str_slice :: "nat \<Rightarrow> nat \<Rightarrow> string \<Rightarrow> (string, 'e) outcome" where
  "str_slice i j s =
     (if i \<le> j \<and> is_char_boundary s i \<and> is_char_boundary s j then Ok (take (j - i) (drop i s))
      else Panic ''byte index is not a char boundary'')"

definition is_ascii :: "string \<Rightarrow> bool" where
  "is_ascii s \<longleftrightarrow> list_all (\<lambda>c. (of_char c :: nat) < 128) s"

lemma is_char_boundary_ascii:
  assumes "is_ascii s"
  shows "is_char_boundary s i \<longleftrightarrow> i \<le> length s"
proof -
  have "i < length s \<Longrightarrow> (of_char (s ! i) :: nat) < 128"
    using assms by (simp add: is_ascii_def list_all_length)
  then show ?thesis by (auto simp: is_char_boundary_def)
qed

lemma str_slice_ascii:
  "is_ascii s \<Longrightarrow> i \<le> j \<Longrightarrow> j \<le> length s \<Longrightarrow> str_slice i j s = Ok (take (j - i) (drop i s))"
  by (simp add: str_slice_def is_char_boundary_ascii)

text \<open>\<open>char::to_digit\<close> for a radix up to 36 (16 at most is used here).\<close>

definition to_digit :: "nat \<Rightarrow> char \<Rightarrow> nat option" where
  "to_digit radix c =
     (let n = of_char c :: nat;
          d = (if 48 \<le> n \<and> n \<le> 57 then n - 48
               else if 97 \<le> n \<and> n \<le> 122 then n - 87
               else if 65 \<le> n \<and> n \<le> 90 then n - 55
               else radix)
      in if d < radix then Some d else None)"

definition is_ascii_hexdigit :: "char \<Rightarrow> bool" where
  "is_ascii_hexdigit c \<longleftrightarrow>
     (let n = of_char c :: nat
      in (48 \<le> n \<and> n \<le> 57) \<or> (65 \<le> n \<and> n \<le> 70) \<or> (97 \<le> n \<and> n \<le> 102))"

lemma is_ascii_hexdigit_to_digit: "is_ascii_hexdigit c \<longleftrightarrow> to_digit 16 c \<noteq> None"
  by (auto simp: is_ascii_hexdigit_def to_digit_def Let_def)

text \<open>
  \<open>to_lowercase\<close> on bytes: only ASCII capitals change. The program lowers strings only
  to compare them with a lowered hexadecimal address, and no character outside ASCII lowers to
  one of \<open>0-9a-fx\<close>.
\<close>

definition ascii_lower :: "char \<Rightarrow> char" where
  "ascii_lower c =
     (let n = of_char c :: nat in if 65 \<le> n \<and> n \<le> 90 then char_of (n + 32) else c)"

definition to_lowercase :: "string \<Rightarrow> string" where
  "to_lowercase s = map ascii_lower s"

text \<open>Lower-case hexadecimal, as \<open>format!("{:02x}")\<close> prints one byte.\<close>

definition hex_digit :: "nat \<Rightarrow> char" where
  "hex_digit d = (if d < 10 then char_of (48 + d) else char_of (87 + d))"

definition hex_byte :: "u8 \<Rightarrow> string" where
  "hex_byte b = [hex_digit (unat b div 16), hex_digit (unat b mod 16)]"

definition hex_lower :: "bytes \<Rightarrow> string" where
  "hex_lower bs = concat (map hex_byte bs)"

lemma is_ascii_hexdigit_ascii: "is_ascii_hexdigit c \<Longrightarrow> (of_char c :: nat) < 128"
  by (auto simp: is_ascii_hexdigit_def Let_def)

lemma is_ascii_hexdigits: "list_all is_ascii_hexdigit s \<Longrightarrow> is_ascii s"
  by (auto simp: is_ascii_def list_all_iff is_ascii_hexdigit_ascii)

lemma to_digit_hex_digit [simp]: "d < 16 \<Longrightarrow> to_digit 16 (hex_digit d) = Some d"
  by (auto simp: to_digit_def hex_digit_def Let_def)

lemma hex_digit_is_hexdigit [simp]: "d < 16 \<Longrightarrow> is_ascii_hexdigit (hex_digit d)"
  by (simp add: is_ascii_hexdigit_to_digit)

lemma unat_u8_less [simp]: "unat (b :: u8) < 256"
  using unsigned_less [of b] by simp

lemma hex_lower_hexdigits [simp]: "list_all is_ascii_hexdigit (hex_lower bs)"
  by (induction bs) (simp_all add: hex_lower_def hex_byte_def less_mult_imp_div_less)

lemma length_hex_byte [simp]: "length (hex_byte b) = 2"
  by (simp add: hex_byte_def)

lemma length_hex_lower [simp]: "length (hex_lower bs) = 2 * length bs"
  by (induction bs) (simp_all add: hex_lower_def)

text \<open>Decimal printing of an unsigned number (\<open>to_string\<close>, \<open>{}\<close>).\<close>

fun nat_to_string :: "nat \<Rightarrow> string" where
  "nat_to_string n =
     (if n < 10 then [char_of (48 + n)]
      else nat_to_string (n div 10) @ [char_of (48 + n mod 10)])"

declare nat_to_string.simps [simp del]

lemma nat_to_string_nonempty [simp]: "nat_to_string n \<noteq> []"
  by (subst nat_to_string.simps) simp

section \<open>Parsing of unsigned integers\<close>

datatype parse_int_error = EmptyInt | InvalidDigit | PosOverflow

text \<open>
  The loop of \<open>from_str_radix\<close> for an unsigned type with largest value \<open>mx\<close>: for every
  character, the digit is read before the product is looked at, and both the product and the sum
  are checked.
\<close>

fun parse_digits :: "nat \<Rightarrow> nat \<Rightarrow> nat \<Rightarrow> string \<Rightarrow> (nat, parse_int_error) outcome" where
  "parse_digits mx radix acc [] = Ok acc"
| "parse_digits mx radix acc (c # cs) =
     (case to_digit radix c of
        None \<Rightarrow> Err InvalidDigit
      | Some d \<Rightarrow>
          if acc * radix > mx then Err PosOverflow
          else if acc * radix + d > mx then Err PosOverflow
          else parse_digits mx radix (acc * radix + d) cs)"

definition from_str_radix :: "nat \<Rightarrow> nat \<Rightarrow> string \<Rightarrow> (nat, parse_int_error) outcome" where
  "from_str_radix mx radix s =
     (if s = [] then Err EmptyInt
      else if s = ''+'' \<or> s = ''-'' then Err InvalidDigit
      else if hd s = CHR ''+'' then parse_digits mx radix 0 (tl s)
      else parse_digits mx radix 0 s)"

definition parse_u32 :: "string \<Rightarrow> (u32, parse_int_error) outcome" where
  "parse_u32 s = and_then (from_str_radix (2 ^ 32 - 1) 10 s) (\<lambda>n. Ok (of_nat n))"

definition parse_u8_hex :: "string \<Rightarrow> (u8, parse_int_error) outcome" where
  "parse_u8_hex s = and_then (from_str_radix 255 16 s) (\<lambda>n. Ok (of_nat n))"

text \<open>Printing in decimal and parsing back is the identity, for every value in range.\<close>

lemma of_char_digit: "d < 10 \<Longrightarrow> (of_char (char_of (48 + d :: nat) :: char) :: nat) = 48 + d"
  by simp

lemma to_digit_decimal [simp]: "d < 10 \<Longrightarrow> to_digit 10 (char_of (48 + d :: nat)) = Some d"
  by (simp add: to_digit_def Let_def)

lemma parse_digits_append:
  "parse_digits mx r acc (xs @ ys) =
     and_then (parse_digits mx r acc xs) (\<lambda>a. parse_digits mx r a ys)"
  by (induction xs arbitrary: acc) (auto split: option.splits)

lemma parse_digits_nat_to_string:
  "n \<le> mx \<Longrightarrow> parse_digits mx 10 0 (nat_to_string n) = Ok n"
proof (induction n rule: nat_to_string.induct)
  case (1 n)
  show ?case
  proof (cases "n < 10")
    case True
    then show ?thesis using 1 by (subst nat_to_string.simps) simp
  next
    case False
    then have "parse_digits mx 10 0 (nat_to_string (n div 10)) = Ok (n div 10)"
      using 1 by simp
    moreover have "n div 10 * 10 + n mod 10 = n" by simp
    ultimately show ?thesis
      using False "1.prems" by (subst nat_to_string.simps) (simp add: parse_digits_append)
  qed
qed

lemma hd_nat_to_string: "\<exists>d < 10. hd (nat_to_string n) = char_of (48 + d :: nat)"
proof (induction n rule: nat_to_string.induct)
  case (1 n)
  then show ?case
    by (cases "n < 10") (subst nat_to_string.simps, auto simp: hd_append)+
qed

lemma hd_nat_to_string_not_sign [simp]: "hd (nat_to_string n) \<noteq> CHR ''+''"
  "hd (nat_to_string n) \<noteq> CHR ''-''"
proof -
  obtain d :: nat where "d < 10" "hd (nat_to_string n) = char_of (48 + d)"
    using hd_nat_to_string by blast
  then have "(of_char (hd (nat_to_string n)) :: nat) = 48 + d" by simp
  then show "hd (nat_to_string n) \<noteq> CHR ''+''" "hd (nat_to_string n) \<noteq> CHR ''-''" by auto
qed

lemma nat_to_string_not_sign [simp]: "nat_to_string n \<noteq> ''+''" "nat_to_string n \<noteq> ''-''"
  using hd_nat_to_string_not_sign [of n] by (metis list.sel(1))+

lemma from_str_radix_nat_to_string:
  "n \<le> mx \<Longrightarrow> from_str_radix mx 10 (nat_to_string n) = Ok n"
  by (simp add: from_str_radix_def parse_digits_nat_to_string)

lemma parse_u32_to_string [simp]: "parse_u32 (nat_to_string (unat (x :: u32))) = Ok x"
proof -
  have "unat x < 2 ^ LENGTH(32)" by (rule unsigned_less)
  then have "unat x \<le> 2 ^ 32 - 1" by simp
  then show ?thesis by (simp add: parse_u32_def from_str_radix_nat_to_string)
qed

lemma nat_to_string_inject [simp]: "nat_to_string m = nat_to_string n \<longleftrightarrow> m = n"
proof
  assume "nat_to_string m = nat_to_string n"
  then have "parse_digits (max m n) 10 0 (nat_to_string m) = parse_digits (max m n) 10 0 (nat_to_string n)"
    by simp
  then show "m = n" by (simp add: parse_digits_nat_to_string)
qed simp

section \<open>Little-endian numbers\<close>

fun le_val :: "bytes \<Rightarrow> nat" where
  "le_val [] = 0"
| "le_val (b # bs) = unat b + 256 * le_val bs"

fun le_bytes :: "nat \<Rightarrow> nat \<Rightarrow> bytes" where
  "le_bytes 0 n = []"
| "le_bytes (Suc k) n = of_nat n # le_bytes k (n div 256)"

lemma length_le_bytes [simp]: "length (le_bytes k n) = k"
  by (induction k arbitrary: n) auto

lemma le_val_bound: "le_val bs < 256 ^ length bs"
proof (induction bs)
  case (Cons b bs)
  then have "256 * Suc (le_val bs) \<le> 256 ^ length (b # bs)" by simp
  moreover have "le_val (b # bs) < 256 * Suc (le_val bs)" using unat_u8_less [of b] by simp
  ultimately show ?case by linarith
qed simp

lemma u8_256: "(256 :: u8) = 0"
  by simp

lemma le_bytes_le_val [simp]: "le_bytes (length bs) (le_val bs) = bs"
  by (induction bs) (simp_all add: u8_256)

lemma le_val_le_bytes: "le_val (le_bytes k n) = n mod 256 ^ k"
  by (induction k arbitrary: n) (simp_all add: unat_of_nat mod_mult2_eq [of _ 256] add.commute)

lemma le_val_append: "le_val (xs @ ys) = le_val xs + 256 ^ length xs * le_val ys"
  by (induction xs) (simp_all add: algebra_simps)

lemma le_val_replicate_0 [simp]: "le_val (replicate n 0) = 0"
  by (induction n) auto

lemma le_bytes_inject:
  "m < 256 ^ k \<Longrightarrow> n < 256 ^ k \<Longrightarrow> le_bytes k m = le_bytes k n \<longleftrightarrow> m = n"
  by (metis le_val_le_bytes mod_less)

end
