(* ===== verification/Btree_Map.thy ===== *)
theory Btree_Map
  imports Prelude
begin

text \<open>
  \<open>std::collections::BTreeMap\<close> as an association list in increasing key order, which is what
  its iterators show: lookup, insertion, collection from an iterator of pairs, values.
  \<open>ordered\<close> is its invariant; two ordered lists with the same lookups are equal
  (\<open>ordered_ext\<close>), so the representation is canonical.
\<close>

type_synonym ('k, 'v) btree_map = "('k \<times> 'v) list"

definition btm_get :: "('k, 'v) btree_map \<Rightarrow> 'k \<Rightarrow> 'v option" where
  "btm_get m k = map_of m k"

fun btm_insert :: "'k::linorder \<Rightarrow> 'v \<Rightarrow> ('k, 'v) btree_map \<Rightarrow> ('k, 'v) btree_map" where
  "btm_insert k v [] = [(k, v)]"
| "btm_insert k v ((k', v') # m) =
     (if k < k' then (k, v) # (k', v') # m
      else if k = k' then (k, v) # m
      else (k', v') # btm_insert k v m)"

definition btm_collect :: "('k::linorder \<times> 'v) list \<Rightarrow> ('k, 'v) btree_map" where
  "btm_collect kvs = foldl (\<lambda>m (k, v). btm_insert k v m) [] kvs"

definition btm_keys :: "('k, 'v) btree_map \<Rightarrow> 'k list" where
  "btm_keys m = map fst m"

definition btm_values :: "('k, 'v) btree_map \<Rightarrow> 'v list" where
  "btm_values m = map snd m"

definition ordered :: "('k::linorder, 'v) btree_map \<Rightarrow> bool" where
  "ordered m \<longleftrightarrow> sorted_wrt (<) (map fst m)"

named_theorems btree_simps "lookups in the maps the operations build"

lemma ordered_Nil [simp]: "ordered []"
  by (simp add: ordered_def)

lemma ordered_Cons:
  "ordered ((k, v) # m) \<longleftrightarrow> (\<forall>k' \<in> fst ` set m. k < k') \<and> ordered m"
  by (auto simp: ordered_def)

lemma btm_get_Nil [simp]: "btm_get [] k = None"
  by (simp add: btm_get_def)

lemma btm_get_None: "btm_get m k = None \<longleftrightarrow> k \<notin> set (btm_keys m)"
  by (auto simp: btm_get_def btm_keys_def map_of_eq_None_iff)

lemma btm_get_insert [btree_simps]: "btm_get (btm_insert k v m) = (btm_get m)(k \<mapsto> v)"
  by (induction m rule: list.induct) (auto simp: btm_get_def fun_eq_iff)

lemma set_btm_insert: "fst ` set (btm_insert k v m) = insert k (fst ` set m)"
  by (induction k v m rule: btm_insert.induct) auto

lemma ordered_insert [intro]: "ordered m \<Longrightarrow> ordered (btm_insert k v m)"
  by (induction k v m rule: btm_insert.induct)
    (auto simp: ordered_Cons set_btm_insert intro: less_trans)

lemma ordered_foldl_insert:
  "ordered m \<Longrightarrow> ordered (foldl (\<lambda>m (k, v). btm_insert k v m) m kvs)"
  by (induction kvs arbitrary: m) auto

lemma ordered_collect [simp, intro]: "ordered (btm_collect kvs)"
  by (simp add: btm_collect_def ordered_foldl_insert)

lemma get_foldl_insert:
  "btm_get (foldl (\<lambda>m (k, v). btm_insert k v m) m kvs) = btm_get m ++ map_of (rev kvs)"
  by (induction kvs arbitrary: m) (auto simp: btree_simps fun_eq_iff map_add_def split: option.splits)

text \<open>Collecting keeps the last value of a repeated key.\<close>

lemma get_collect [btree_simps]: "btm_get (btm_collect kvs) = map_of (rev kvs)"
  by (simp add: btm_collect_def get_foldl_insert fun_eq_iff map_add_def split: option.splits)

lemma get_collect_fun [btree_simps]:
  "btm_get (btm_collect (map (\<lambda>k. (k, f k)) ks)) k = (if k \<in> set ks then Some (f k) else None)"
proof -
  have "map_of (rev (map (\<lambda>k. (k, f k)) ks)) = map_of (map (\<lambda>k. (k, f k)) (rev ks))"
    by (simp add: rev_map)
  then show ?thesis by (simp add: get_collect map_of_map_restrict restrict_map_def)
qed

text \<open>Canonicity: the contents determine the ordered list.\<close>

lemma ordered_distinct: "ordered m \<Longrightarrow> distinct (map fst m)"
  by (simp add: ordered_def strict_sorted_iff)

lemma ordered_member: "ordered m \<Longrightarrow> (k, v) \<in> set m \<longleftrightarrow> btm_get m k = Some v"
  by (simp add: btm_get_def ordered_distinct)

lemma ordered_ext:
  assumes "ordered m" "ordered m'" "btm_get m = btm_get m'"
  shows "m = m'"
proof (rule map_sorted_distinct_set_unique [of fst])
  show eq: "set m = set m'"
    using assms by (auto simp: ordered_member)
  show "sorted (map fst m)" "distinct (map fst m)" "sorted (map fst m')" "distinct (map fst m')"
    using assms by (auto simp: ordered_def strict_sorted_iff)
  then show "inj_on fst (set m \<union> set m')"
    using eq by (simp add: distinct_map)
qed

end
