(* ===== verification/Ordinary_Clock.thy ===== *)
theory Ordinary_Clock
  imports Btree_Map "HOL-Library.Option_ord"
begin

text \<open>
  The logical clocks of \<open>crates/common/src/ordinary_clock.rs\<close>: a vector clock is a
  \<open>BTreeMap\<close> from clock ids to 32-bit counters. Operations: \<open>new\<close>, \<open>is_genesis\<close>,
  \<open>merge\<close>, \<open>update\<close>, \<open>calculate_sha256\<close>, \<open>partial_cmp\<close>, \<open>dep_cmp\<close>,
  \<open>reduce\<close>.

  The specification is the pointwise order on \<open>level c\<close>, the function that reads an absent
  id as 0. The lemmas show that \<open>partial_cmp\<close> decides that order, that \<open>merge\<close> is its
  least upper bound, that \<open>update\<close> moves strictly above everything it has seen, and that
  \<open>reduce\<close> is a Lamport clock for it, all while the counters do not overflow.
\<close>

section \<open>Orderings\<close>

datatype ordering = Less | Equal | Greater

text \<open>\<open>std::cmp::Ordering\<close> is itself ordered \<open>Less < Equal < Greater\<close>.\<close>

fun ordering_rank :: "ordering \<Rightarrow> nat" where
  "ordering_rank Less = 0"
| "ordering_rank Equal = 1"
| "ordering_rank Greater = 2"

lemma ordering_rank_inject [simp]: "ordering_rank x = ordering_rank y \<longleftrightarrow> x = y"
  by (cases x; cases y) auto

instantiation ordering :: linorder
begin
definition less_eq_ordering :: "ordering \<Rightarrow> ordering \<Rightarrow> bool" where
  "less_eq_ordering x y \<longleftrightarrow> ordering_rank x \<le> ordering_rank y"
definition less_ordering :: "ordering \<Rightarrow> ordering \<Rightarrow> bool" where
  "less_ordering x y \<longleftrightarrow> ordering_rank x < ordering_rank y"
instance
  by standard (auto simp: less_eq_ordering_def less_ordering_def)
end

fun reverse_ordering :: "ordering \<Rightarrow> ordering" where
  "reverse_ordering Less = Greater"
| "reverse_ordering Equal = Equal"
| "reverse_ordering Greater = Less"

definition cmp :: "'a::linorder \<Rightarrow> 'a \<Rightarrow> ordering" where
  "cmp x y = (if x < y then Less else if x = y then Equal else Greater)"

section \<open>Clocks\<close>

type_synonym key_id = u64
type_synonym lamport_clock = u32

datatype ordinary_clock = OrdinaryClock (clock_map: "(key_id, u32) btree_map")

definition new_clock :: ordinary_clock where
  "new_clock = OrdinaryClock []"

definition is_genesis :: "ordinary_clock \<Rightarrow> bool" where
  "is_genesis c \<longleftrightarrow> list_all (\<lambda>n. n = 0) (btm_values (clock_map c))"

definition merge_entry ::
  "ordinary_clock \<Rightarrow> ordinary_clock \<Rightarrow> key_id \<Rightarrow> (key_id \<times> u32, 'e) outcome" where
  "merge_entry self other i =
     (case (btm_get (clock_map self) i, btm_get (clock_map other) i) of
        (Some n, Some other_n) \<Rightarrow> Ok (i, max n other_n)
      | (Some n, None) \<Rightarrow> Ok (i, n)
      | (None, Some n) \<Rightarrow> Ok (i, n)
      | (None, None) \<Rightarrow> Panic ''internal error: entered unreachable code'')"

definition merge :: "ordinary_clock \<Rightarrow> ordinary_clock \<Rightarrow> (ordinary_clock, 'e) outcome" where
  "merge self other =
     and_then (traverse (merge_entry self other)
                (btm_keys (clock_map self) @ btm_keys (clock_map other)))
       (\<lambda>merged. Ok (OrdinaryClock (btm_collect merged)))"

definition update ::
  "profile \<Rightarrow> ordinary_clock \<Rightarrow> ordinary_clock list \<Rightarrow> key_id \<Rightarrow> (ordinary_clock, 'e) outcome" where
  "update b self others i =
     and_then (fold_outcome merge self others) (\<lambda>updated.
       let n = (case btm_get (clock_map updated) i of None \<Rightarrow> 0 | Some n \<Rightarrow> n) in
       and_then (add_op b n 1) (\<lambda>n'. Ok (OrdinaryClock (btm_insert i n' (clock_map updated)))))"

text \<open>\<open>bincode\<close> and SHA-256 are the parameters \<open>serialize\<close> and \<open>sha256\<close>.\<close>

definition calculate_sha256 ::
  "((key_id, u32) btree_map \<Rightarrow> (bytes, 'd) outcome) \<Rightarrow> (bytes \<Rightarrow> bytes) \<Rightarrow>
   ordinary_clock \<Rightarrow> (bytes, 'e) outcome" where
  "calculate_sha256 serialize sha256 self =
     and_then (unwrap ''Failed to serialize data'' (serialize (clock_map self)))
       (\<lambda>data. Ok (sha256 data))"

fun clock_ge :: "ordinary_clock \<Rightarrow> (key_id, u32) btree_map \<Rightarrow> bool" where
  "clock_ge clock [] = True"
| "clock_ge clock ((other_id, other_n) # rest) =
     (if other_n = 0 then clock_ge clock rest
      else case btm_get (clock_map clock) other_id of
             None \<Rightarrow> False
           | Some n \<Rightarrow> if n < other_n then False else clock_ge clock rest)"

definition partial_cmp :: "ordinary_clock \<Rightarrow> ordinary_clock \<Rightarrow> ordering option" where
  "partial_cmp self other =
     (case (clock_ge self (clock_map other), clock_ge other (clock_map self)) of
        (True, True) \<Rightarrow> Some Equal
      | (True, False) \<Rightarrow> Some Greater
      | (False, True) \<Rightarrow> Some Less
      | (False, False) \<Rightarrow> None)"

definition dep_cmp :: "ordinary_clock \<Rightarrow> ordinary_clock \<Rightarrow> key_id \<Rightarrow> ordering" where
  "dep_cmp self other i =
     (case (btm_get (clock_map self) i, btm_get (clock_map other) i) of
        (None, Some _) \<Rightarrow> Less
      | (Some _, None) \<Rightarrow> Greater
      | (None, None) \<Rightarrow> Equal
      | (Some n, Some m) \<Rightarrow> cmp n m)"

definition reduce_lamport :: "lamport_clock \<Rightarrow> lamport_clock" where
  "reduce_lamport c = c"

definition reduce :: "profile \<Rightarrow> ordinary_clock \<Rightarrow> (lamport_clock, 'e) outcome" where
  "reduce b self = fold_outcome (add_op b) 0 (btm_values (clock_map self))"

section \<open>Specification: the pointwise order\<close>

definition wf_clock :: "ordinary_clock \<Rightarrow> bool" where
  "wf_clock c \<longleftrightarrow> ordered (clock_map c)"

definition level :: "ordinary_clock \<Rightarrow> key_id \<Rightarrow> nat" where
  "level c k = (case btm_get (clock_map c) k of None \<Rightarrow> 0 | Some n \<Rightarrow> unat n)"

instantiation ordinary_clock :: preorder
begin
definition less_eq_ordinary_clock :: "ordinary_clock \<Rightarrow> ordinary_clock \<Rightarrow> bool" where
  "less_eq_ordinary_clock a b \<longleftrightarrow> (\<forall>k. level a k \<le> level b k)"
definition less_ordinary_clock :: "ordinary_clock \<Rightarrow> ordinary_clock \<Rightarrow> bool" where
  "less_ordinary_clock a b \<longleftrightarrow> (\<forall>k. level a k \<le> level b k) \<and> (\<exists>k. level a k < level b k)"
instance
  by standard
    (auto simp: less_eq_ordinary_clock_def less_ordinary_clock_def not_le not_less
      intro: order_trans leD)
end

lemma clock_leI: "(\<And>k. level a k \<le> level b k) \<Longrightarrow> a \<le> b"
  by (simp add: less_eq_ordinary_clock_def)

lemma clock_leD: "a \<le> b \<Longrightarrow> level a k \<le> level b k"
  by (simp add: less_eq_ordinary_clock_def)

lemma wf_new_clock [simp]: "wf_clock new_clock"
  by (simp add: wf_clock_def new_clock_def)

lemma level_bound: "level c k < 2 ^ 32"
proof -
  have "unat (n :: u32) < 2 ^ 32" for n using unsigned_less [of n] by simp
  then show ?thesis by (simp add: level_def split: option.splits)
qed

section \<open>Comparison\<close>

lemma clock_ge_entries:
  "clock_ge c es \<longleftrightarrow> (\<forall>(k, n) \<in> set es. unat n \<le> level c k)"
proof (induction c es rule: clock_ge.induct)
  case (2 c i n es)
  then show ?case
    by (auto simp: level_def word_less_nat_alt word_le_nat_alt unat_eq_0 not_less split: option.splits)
qed simp

lemma clock_ge_spec: "wf_clock d \<Longrightarrow> clock_ge c (clock_map d) \<longleftrightarrow> d \<le> c"
proof -
  assume "wf_clock d"
  then have "clock_ge c (clock_map d) \<longleftrightarrow>
      (\<forall>k n. btm_get (clock_map d) k = Some n \<longrightarrow> unat n \<le> level c k)"
    by (auto simp: clock_ge_entries wf_clock_def ordered_member)
  also have "\<dots> \<longleftrightarrow> d \<le> c"
    by (auto simp: less_eq_ordinary_clock_def level_def [of d] split: option.splits)
  finally show ?thesis .
qed

lemma partial_cmp_cases:
  assumes "wf_clock a" "wf_clock b"
  shows "partial_cmp a b =
    (if a \<le> b \<and> b \<le> a then Some Equal else if b \<le> a then Some Greater
     else if a \<le> b then Some Less else None)"
  using assms by (simp add: partial_cmp_def clock_ge_spec)

lemma partial_cmp_LessI:
  "wf_clock a \<Longrightarrow> wf_clock b \<Longrightarrow> a \<le> b \<Longrightarrow> level a k < level b k \<Longrightarrow> partial_cmp a b = Some Less"
  using clock_leD [of b a k] by (auto simp: partial_cmp_cases)

lemma is_genesis_level: "wf_clock c \<Longrightarrow> is_genesis c \<longleftrightarrow> (\<forall>k. level c k = 0)"
proof -
  assume "wf_clock c"
  then have "is_genesis c \<longleftrightarrow> (\<forall>k n. btm_get (clock_map c) k = Some n \<longrightarrow> n = 0)"
    by (force simp: is_genesis_def btm_values_def list_all_iff wf_clock_def
        simp flip: ordered_member)
  then show ?thesis by (auto simp: level_def unat_eq_0 split: option.splits)
qed

section \<open>Merging is the least upper bound\<close>

text \<open>The clock that \<open>merge\<close> returns.\<close>

definition join_entry :: "ordinary_clock \<Rightarrow> ordinary_clock \<Rightarrow> key_id \<Rightarrow> u32" where
  "join_entry a b i =
     (case (btm_get (clock_map a) i, btm_get (clock_map b) i) of
        (Some n, Some m) \<Rightarrow> max n m | (Some n, None) \<Rightarrow> n | (None, Some m) \<Rightarrow> m | _ \<Rightarrow> 0)"

definition join_clock :: "ordinary_clock \<Rightarrow> ordinary_clock \<Rightarrow> ordinary_clock" where
  "join_clock a b =
     OrdinaryClock (btm_collect (map (\<lambda>i. (i, join_entry a b i))
       (btm_keys (clock_map a) @ btm_keys (clock_map b))))"

lemma merge_entry_join:
  "i \<in> set (btm_keys (clock_map a) @ btm_keys (clock_map b)) \<Longrightarrow>
   merge_entry a b i = Ok (i, join_entry a b i)"
  using btm_get_None [of "clock_map a" i] btm_get_None [of "clock_map b" i]
  by (auto simp: merge_entry_def join_entry_def split: option.splits)

lemma traverse_merge_entry:
  "traverse (merge_entry a b) (btm_keys (clock_map a) @ btm_keys (clock_map b)) =
   Ok (map (\<lambda>i. (i, join_entry a b i)) (btm_keys (clock_map a) @ btm_keys (clock_map b)))"
  by (rule traverse_Ok) (rule merge_entry_join)

lemma merge_join: "merge a b = Ok (join_clock a b)"
  by (simp only: merge_def join_clock_def traverse_merge_entry and_then.simps)

lemma wf_join_clock [simp]: "wf_clock (join_clock a b)"
  by (simp add: wf_clock_def join_clock_def)

lemma get_join_clock:
  "btm_get (clock_map (join_clock a b)) k =
     (if btm_get (clock_map a) k = None \<and> btm_get (clock_map b) k = None then None
      else Some (join_entry a b k))"
  unfolding join_clock_def ordinary_clock.sel get_collect_fun
  by (auto simp: btm_get_None)

lemma level_join_clock: "level (join_clock a b) k = max (level a k) (level b k)"
  by (auto simp: level_def get_join_clock join_entry_def max_def word_le_nat_alt
      split: option.splits)

lemma join_clock_commute: "join_clock a b = join_clock b a"
proof -
  have "join_entry a b k = join_entry b a k" for k
    by (auto simp: join_entry_def max.commute split: option.splits)
  then have "clock_map (join_clock a b) = clock_map (join_clock b a)"
    by (intro ordered_ext) (auto simp: wf_clock_def [symmetric] get_join_clock fun_eq_iff)
  then show ?thesis by (metis ordinary_clock.expand)
qed

text \<open>
  The interface a causal clock offers to whoever folds many clocks into one: a preorder with
  binary upper bounds that are least. Folding then gives the least upper bound of the list.
\<close>

locale join_preorder =
  fixes le :: "'a \<Rightarrow> 'a \<Rightarrow> bool"
    and join :: "'a \<Rightarrow> 'a \<Rightarrow> 'a"
  assumes le_refl: "le x x"
    and le_trans: "le x y \<Longrightarrow> le y z \<Longrightarrow> le x z"
    and upper_left: "le x (join x y)"
    and upper_right: "le y (join x y)"
    and least: "le x z \<Longrightarrow> le y z \<Longrightarrow> le (join x y) z"
begin

lemma fold_upper_start: "le x (foldl join x ys)"
proof (induction ys arbitrary: x)
  case Nil
  show ?case by (simp add: le_refl)
next
  case (Cons y ys)
  show ?case using le_trans [OF upper_left Cons.IH] by simp
qed

lemma fold_upper: "y \<in> set ys \<Longrightarrow> le y (foldl join x ys)"
proof (induction ys arbitrary: x)
  case (Cons z ys)
  then show ?case using le_trans [OF upper_right fold_upper_start] by auto
qed simp

lemma fold_least: "le x z \<Longrightarrow> (\<And>y. y \<in> set ys \<Longrightarrow> le y z) \<Longrightarrow> le (foldl join x ys) z"
  by (induction ys arbitrary: x) (auto intro: least)

lemma fold_set_le: "set ys \<subseteq> set zs \<Longrightarrow> le (foldl join x ys) (foldl join x zs)"
  by (rule fold_least) (auto intro: fold_upper_start fold_upper)

end

interpretation clock_join: join_preorder "(\<le>) :: ordinary_clock \<Rightarrow> _" join_clock
  by unfold_locales
    (auto simp: less_eq_ordinary_clock_def level_join_clock intro: order_trans)

section \<open>Updating\<close>

lemma fold_merge: "fold_outcome merge c others = Ok (foldl join_clock c others)"
  by (rule fold_outcome_Ok) (rule merge_join)

lemma wf_fold_join: "wf_clock c \<Longrightarrow> wf_clock (foldl join_clock c others)"
  by (induction others arbitrary: c) auto

lemma level_insert:
  "level (OrdinaryClock (btm_insert i n (clock_map c))) = (level c)(i := unat n)"
  by (auto simp: level_def btree_simps fun_eq_iff)

lemma wf_insert: "wf_clock c \<Longrightarrow> wf_clock (OrdinaryClock (btm_insert i n (clock_map c)))"
  by (auto simp: wf_clock_def)

lemma update_cases:
  "update b c others i =
     (let u = foldl join_clock c others in
      and_then (add_op b (of_nat (level u i)) 1)
        (\<lambda>n. Ok (OrdinaryClock (btm_insert i n (clock_map u)))))"
  by (auto simp: update_def fold_merge Let_def level_def split: option.splits)

lemma unat_of_nat_level: "unat (of_nat (level c i) :: u32) = level c i"
  using level_bound [of c i] by (simp add: unat_of_nat)

definition bump :: "ordinary_clock \<Rightarrow> key_id \<Rightarrow> ordinary_clock" where
  "bump u i = OrdinaryClock (btm_insert i (of_nat (level u i) + 1) (clock_map u))"

lemma wf_bump: "wf_clock u \<Longrightarrow> wf_clock (bump u i)"
  by (simp add: bump_def wf_insert)

lemma level_bump:
  "level u i + 1 < 2 ^ 32 \<Longrightarrow> level (bump u i) = (level u)(i := level u i + 1)"
  using unat_add_no_overflow [of "of_nat (level u i) :: u32" 1]
  by (simp add: bump_def level_insert unat_of_nat_level)

lemma update_in_range:
  "level (foldl join_clock c others) i + 1 < 2 ^ 32 \<Longrightarrow>
   update b c others i = Ok (bump (foldl join_clock c others) i)"
  by (simp add: update_cases Let_def add_op_fits unat_of_nat_level bump_def)

section \<open>Reduction to a Lamport clock\<close>

lemma fold_add_op:
  "unat s + (\<Sum>n\<leftarrow>ns. unat n) < 2 ^ 32 \<Longrightarrow>
   fold_outcome (add_op b) s ns = Ok (s + of_nat (\<Sum>n\<leftarrow>ns. unat n) :: u32)"
proof (induction ns arbitrary: s)
  case (Cons n ns)
  have "unat (s + n) = unat s + unat n"
    using Cons.prems by (intro unat_add_no_overflow) simp
  then show ?case
    using Cons.prems Cons.IH [of "s + n"] by (simp add: add_op_fits add.assoc of_nat_unat)
qed simp

definition weight :: "ordinary_clock \<Rightarrow> nat" where
  "weight c = (\<Sum>n\<leftarrow>btm_values (clock_map c). unat n)"

lemma reduce_weight: "weight c < 2 ^ 32 \<Longrightarrow> reduce b c = Ok (of_nat (weight c))"
  by (simp add: reduce_def weight_def fold_add_op)

lemma reduce_weight_less:
  "weight a < weight c \<Longrightarrow> weight c < 2 ^ 32 \<Longrightarrow> (of_nat (weight a) :: u32) < of_nat (weight c)"
  by (simp add: word_less_nat_alt unat_of_nat)

lemma weight_sum: "wf_clock c \<Longrightarrow> finite K \<Longrightarrow> set (btm_keys (clock_map c)) \<subseteq> K \<Longrightarrow>
  weight c = (\<Sum>k\<in>K. level c k)"
proof -
  assume wf: "wf_clock c" and K: "finite K" "set (btm_keys (clock_map c)) \<subseteq> K"
  let ?m = "clock_map c"
  have d: "distinct (map fst ?m)" using wf by (simp add: wf_clock_def ordered_distinct)
  have "weight c = (\<Sum>(k, n)\<leftarrow>?m. unat n)"
    by (simp add: weight_def btm_values_def comp_def case_prod_unfold)
  also have "\<dots> = (\<Sum>(k, n)\<leftarrow>?m. level c k)"
    using wf by (intro arg_cong [where f = sum_list] map_cong)
      (auto simp: level_def wf_clock_def ordered_member)
  also have "\<dots> = (\<Sum>k\<leftarrow>btm_keys ?m. level c k)"
    by (simp add: btm_keys_def comp_def case_prod_unfold)
  also have "\<dots> = (\<Sum>k\<in>set (btm_keys ?m). level c k)"
    by (rule sum_list_distinct_conv_sum_set) (use d in \<open>simp add: btm_keys_def\<close>)
  also have "\<dots> = (\<Sum>k\<in>K. level c k)"
    using K by (intro sum.mono_neutral_left)
      (auto simp: level_def btm_get_None [symmetric] split: option.splits)
  finally show ?thesis .
qed

lemma weight_less:
  assumes "wf_clock a" "wf_clock b" "a < b"
  shows "weight a < weight b"
proof -
  let ?K = "set (btm_keys (clock_map a)) \<union> set (btm_keys (clock_map b))"
  obtain k where k: "level a k < level b k" and le: "\<forall>k. level a k \<le> level b k"
    using assms(3) by (auto simp: less_ordinary_clock_def)
  have "k \<in> ?K"
    using k btm_get_None [of "clock_map b" k] by (auto simp: level_def split: option.splits)
  then have "(\<Sum>k\<in>?K. level a k) < (\<Sum>k\<in>?K. level b k)"
    using k le by (intro sum_strict_mono_ex1) auto
  then show ?thesis using assms by (simp add: weight_sum [where K = ?K])
qed

section \<open>The contents of a folded merge\<close>

lemma get_join_max:
  "btm_get (clock_map (join_clock a b)) k =
     max (btm_get (clock_map a) k) (btm_get (clock_map b) k)"
  by (auto simp: get_join_clock join_entry_def max_def split: option.splits)

lemma get_fold_join:
  "btm_get (clock_map (foldl join_clock c others)) k =
     Max (insert (btm_get (clock_map c) k) ((\<lambda>d. btm_get (clock_map d) k) ` set others))"
proof -
  have "btm_get (clock_map (foldl join_clock c others)) k =
      fold max (map (\<lambda>d. btm_get (clock_map d) k) others) (btm_get (clock_map c) k)"
    by (induction others arbitrary: c) (simp_all add: get_join_max max.commute)
  then show ?thesis by (simp flip: Max.set_eq_fold)
qed

lemma level_fold_join:
  "level (foldl join_clock c others) k = Max ((\<lambda>d. level d k) ` set (c # others))"
proof -
  have "level (foldl join_clock c others) k =
      fold max (map (\<lambda>d. level d k) others) (level c k)"
    by (induction others arbitrary: c) (simp_all add: level_join_clock max.commute)
  then show ?thesis by (simp flip: Max.set_eq_fold)
qed

section \<open>Properties\<close>

text \<open>C25. \<open>partial_cmp\<close> decides the pointwise order of the counters, an absent id counting
  as 0: each of its four answers is returned exactly when it is the right one.\<close>

theorem partial_cmp_pointwise:
  assumes "wf_clock a" "wf_clock b"
  shows "(partial_cmp a b = Some Equal \<longleftrightarrow> (\<forall>k. level a k = level b k))
    \<and> (partial_cmp a b = Some Less \<longleftrightarrow>
         (\<forall>k. level a k \<le> level b k) \<and> (\<exists>k. level a k < level b k))
    \<and> (partial_cmp a b = Some Greater \<longleftrightarrow>
         (\<forall>k. level b k \<le> level a k) \<and> (\<exists>k. level b k < level a k))
    \<and> (partial_cmp a b = None \<longleftrightarrow>
         (\<exists>k. level a k < level b k) \<and> (\<exists>k. level b k < level a k))"
proof -
  have "(\<forall>k. level a k = level b k) \<longleftrightarrow> a \<le> b \<and> b \<le> a"
    "(\<exists>k. level a k < level b k) \<longleftrightarrow> \<not> b \<le> a" "(\<exists>k. level b k < level a k) \<longleftrightarrow> \<not> a \<le> b"
    by (auto simp: less_eq_ordinary_clock_def not_le intro: order_antisym)
  then show ?thesis
    by (simp add: partial_cmp_cases [OF assms] flip: less_eq_ordinary_clock_def)
qed

theorem partial_cmp_pointwise_witness:
  "partial_cmp (OrdinaryClock [(1, 2), (3, 0)]) (OrdinaryClock [(1, 2), (2, 5)]) = Some Less
   \<and> (\<exists>k. level (OrdinaryClock [(1, 2), (3, 0)]) k < level (OrdinaryClock [(1, 2), (2, 5)]) k)"
proof -
  have wf: "wf_clock (OrdinaryClock [(1, 2), (3, 0)])" "wf_clock (OrdinaryClock [(1, 2), (2, 5)])"
    by (simp_all add: wf_clock_def ordered_def)
  have "partial_cmp (OrdinaryClock [(1, 2), (3, 0)]) (OrdinaryClock [(1, 2), (2, 5)]) = Some Less"
    by (simp add: partial_cmp_def btm_get_def)
  with partial_cmp_pointwise [OF wf] show ?thesis by blast
qed

text \<open>C26. \<open>merge\<close> never reaches its \<open>unreachable!()\<close> branch, gives the same clock
  whichever side it is called on, and its result is an ordered map whose counters are the
  pointwise maximum, that is, the least upper bound of the two clocks.\<close>

theorem merge_is_join:
  "\<exists>c. merge a b = Ok c \<and> merge b a = Ok c \<and> wf_clock c
     \<and> (\<forall>k. level c k = max (level a k) (level b k))"
  by (simp add: merge_join join_clock_commute [of b a] level_join_clock)

text \<open>C27. While the counter of \<open>id\<close> is below its limit, \<open>update\<close> succeeds in either
  build profile, the new clock is strictly after the old one and after every clock merged, the
  counter of \<open>id\<close> is one more than the largest seen and every other counter is the largest
  seen.\<close>

theorem update_advances:
  assumes wf: "\<forall>d\<in>set (self # others). wf_clock d"
    and room: "\<forall>d\<in>set (self # others). level d i + 1 < 2 ^ 32"
  shows "\<exists>c. update b self others i = Ok c \<and> wf_clock c
    \<and> (\<forall>d\<in>set (self # others). partial_cmp d c = Some Less)
    \<and> level c i = Max ((\<lambda>d. level d i) ` set (self # others)) + 1
    \<and> (\<forall>k. k \<noteq> i \<longrightarrow> level c k = Max ((\<lambda>d. level d k) ` set (self # others)))"
proof -
  let ?u = "foldl join_clock self others"
  have "level ?u i \<in> (\<lambda>d. level d i) ` set (self # others)"
    unfolding level_fold_join by (rule Max_in) auto
  then have fits: "level ?u i + 1 < 2 ^ 32" using room by auto
  let ?c = "bump ?u i"
  have lv: "level ?c = (level ?u)(i := level ?u i + 1)" using fits by (rule level_bump)
  have wfc: "wf_clock ?c" using wf by (simp add: wf_bump wf_fold_join)
  have "partial_cmp d ?c = Some Less" if d: "d \<in> set (self # others)" for d
  proof -
    have "level d k \<le> level ?u k" for k
      unfolding level_fold_join using d by (intro Max_ge) auto
    note le = this
    have "d \<le> ?c"
      using le by (intro clock_leI) (auto simp: lv le_SucI)
    moreover have "level d i < level ?c i"
      using le [of i] by (simp add: lv)
    ultimately show ?thesis
      using wf d wfc by (auto intro: partial_cmp_LessI)
  qed
  then show ?thesis
    using wfc by (simp add: update_in_range [OF fits] lv level_fold_join)
qed

theorem update_advances_witness:
  "\<exists>c. update Release (OrdinaryClock [(1, 4)]) [OrdinaryClock [(1, 6), (2, 1)]] 1 = Ok c
     \<and> partial_cmp (OrdinaryClock [(1, 6), (2, 1)]) c = Some Less"
proof -
  have "\<forall>d\<in>set [OrdinaryClock [(1, 4)], OrdinaryClock [(1, 6), (2, 1)]]. wf_clock d"
    by (simp add: wf_clock_def ordered_def)
  moreover have "\<forall>d\<in>set [OrdinaryClock [(1, 4)], OrdinaryClock [(1, 6), (2, 1)]]. level d 1 + 1 < 2 ^ 32"
    by (simp add: level_def btm_get_def)
  ultimately show ?thesis using update_advances [of _ _ 1 Release] by fastforce
qed

text \<open>The clock that \<open>update\<close> returns, and with it the SHA-256 digest of its
  serialisation, does not depend on the order or the repetitions of the clocks merged: the
  \<open>BTreeMap\<close> keeps one canonical entry list.\<close>

theorem update_order_irrelevant:
  assumes "wf_clock self" and "set others = set others'"
  shows "update b self others i = update b self others' i"
proof -
  have "clock_map (foldl join_clock self others) = clock_map (foldl join_clock self others')"
    using assms wf_fold_join [of self]
    by (intro ordered_ext) (simp_all add: wf_clock_def get_fold_join fun_eq_iff)
  then have "foldl join_clock self others = foldl join_clock self others'"
    by (metis ordinary_clock.expand)
  then show ?thesis by (simp add: update_def fold_merge)
qed

theorem update_order_irrelevant_witness:
  "update Debug new_clock [OrdinaryClock [(2, 1)], OrdinaryClock [(1, 3)]] 1 =
   update Debug new_clock [OrdinaryClock [(1, 3)], OrdinaryClock [(2, 1)], OrdinaryClock [(1, 3)]] 1"
  by (rule update_order_irrelevant) auto

text \<open>C28. \<open>reduce\<close> is a Lamport clock for the causal order: when one clock is before
  another and the later clock's counters sum to less than \<open>2^32\<close>, both reductions succeed in
  either build profile and are ordered the same way.\<close>

theorem reduce_respects_order:
  assumes "wf_clock a" "wf_clock c" "partial_cmp a c = Some Less" "weight c < 2 ^ 32"
  shows "\<exists>m n. reduce b a = Ok m \<and> reduce b c = Ok n \<and> m < n"
proof -
  have "a < c"
    using partial_cmp_pointwise [OF assms(1,2)] assms(3) by (auto simp: less_ordinary_clock_def)
  then have "weight a < weight c" using assms by (intro weight_less)
  then show ?thesis using assms(4) by (simp add: reduce_weight reduce_weight_less)
qed

theorem reduce_respects_order_witness:
  "\<exists>m n. reduce Debug (OrdinaryClock [(1, 4)]) = Ok m
     \<and> reduce Debug (OrdinaryClock [(1, 4), (2, 3)]) = Ok n \<and> m < n"
  by (rule reduce_respects_order)
    (simp_all add: wf_clock_def ordered_def partial_cmp_def btm_get_def weight_def btm_values_def)

text \<open>\<open>partial_cmp\<close> and the derived equality disagree: recording a zero counter for an
  id that a clock does not mention gives a clock that compares \<open>Equal\<close> but is not equal.\<close>

theorem partial_cmp_equal_not_eq:
  assumes "wf_clock c" "btm_get (clock_map c) i = None"
  shows "let d = OrdinaryClock (btm_insert i 0 (clock_map c))
    in wf_clock d \<and> partial_cmp c d = Some Equal \<and> c \<noteq> d"
proof -
  let ?d = "OrdinaryClock (btm_insert i 0 (clock_map c))"
  have "wf_clock ?d" using assms(1) by (rule wf_insert)
  moreover have "level ?d = level c"
    using assms(2) by (simp add: level_insert fun_eq_iff level_def)
  moreover have "c \<noteq> ?d"
    using assms(2) by (metis btm_get_insert fun_upd_same option.distinct(1) ordinary_clock.sel)
  ultimately show ?thesis
    using assms(1) by (auto simp: partial_cmp_cases less_eq_ordinary_clock_def)
qed

theorem partial_cmp_equal_not_eq_witness:
  "partial_cmp new_clock (OrdinaryClock [(7, 0)]) = Some Equal \<and> new_clock \<noteq> OrdinaryClock [(7, 0)]"
  using partial_cmp_equal_not_eq [of new_clock 7] by (simp add: new_clock_def wf_clock_def)

end
