(* ===== verification/Registry.thy ===== *)
theory Registry
  imports Main
begin

text \<open>
  The interface of the tables in which the program keeps one waiting party per request id: the
  callback map of the websocket and the two channel maps of the hub. A table has a lookup, an
  insertion that replaces and a removal; the lemmas are about tables in which no two ids share a
  party, which is what makes an answer reach one request only.
\<close>

locale registry =
  fixes find_entry :: "'m \<Rightarrow> 'id \<Rightarrow> 'a option"
    and put_entry :: "'m \<Rightarrow> 'id \<Rightarrow> 'a \<Rightarrow> 'm"
    and del_entry :: "'m \<Rightarrow> 'id \<Rightarrow> 'm"
  assumes find_put: "find_entry (put_entry m i a) j = (if j = i then Some a else find_entry m j)"
    and find_del: "find_entry (del_entry m i) j = (if j = i then None else find_entry m j)"
begin

definition parties :: "'m \<Rightarrow> 'a set" where
  "parties m = {a. \<exists>i. find_entry m i = Some a}"

definition one_to_one :: "'m \<Rightarrow> bool" where
  "one_to_one m \<longleftrightarrow> (\<forall>i j a. find_entry m i = Some a \<and> find_entry m j = Some a \<longrightarrow> i = j)"

lemma parties_put: "parties (put_entry m i a) \<subseteq> insert a (parties m)"
  by (auto simp: parties_def find_put split: if_splits)

lemma parties_del: "parties (del_entry m i) \<subseteq> parties m"
  by (auto simp: parties_def find_del split: if_splits)

lemma one_to_one_put: "one_to_one m \<Longrightarrow> a \<notin> parties m \<Longrightarrow> one_to_one (put_entry m i a)"
  unfolding one_to_one_def parties_def by (auto simp: find_put)

lemma one_to_one_del: "one_to_one m \<Longrightarrow> one_to_one (del_entry m i)"
  unfolding one_to_one_def by (auto simp: find_del)

lemma del_party: "one_to_one m \<Longrightarrow> find_entry m i = Some a \<Longrightarrow> a \<notin> parties (del_entry m i)"
  unfolding one_to_one_def parties_def by (auto simp: find_del)

lemma find_party: "find_entry m i = Some a \<Longrightarrow> a \<in> parties m"
  by (auto simp: parties_def)

lemma find_del_put: "find_entry (del_entry (put_entry m i a) i) j = find_entry (del_entry m i) j"
  by (simp add: find_put find_del)

end

end
