(* ===== verification/Msg_Signer.thy ===== *)
theory Msg_Signer
  imports Prelude
begin

text \<open>
  Signing and checking of messages: \<open>crates/signer/src/msg_signer.rs\<close>. The serialiser of
  \<open>serde_json\<close> for the message type, Keccak-256, the two ECDSA packages and \<open>hex\<close> are
  parameters, collected in the records \<open>signer_lib\<close> and \<open>secp_lib\<close>. The record
  \<open>wire_message\<close> is both \<open>WsMethodMsg\<close> of this crate and \<open>WireMessage\<close> of the
  websocket crate, which have the same fields; \<open>'v\<close> stands for a JSON value.
\<close>

section \<open>Messages\<close>

record 'v wire_message =
  wm_id :: string
  wm_method :: "string option"
  wm_params :: "'v option"
  wm_result :: "'v option"
  wm_address :: string
  wm_hash :: string
  wm_signature :: string

section \<open>Packages\<close>

text \<open>Of \<open>alloy\<close>: a key's address as it is displayed, signing, and recovery of the address
  from a signature; of \<open>serde_json\<close>: \<open>to_vec\<close>.\<close>

record ('m, 'k, 's) signer_lib =
  json_to_vec :: "'m \<Rightarrow> (bytes, string) outcome"
  keccak256 :: "bytes \<Rightarrow> bytes"
  hex_encode :: "bytes \<Rightarrow> string"
  hex_decode :: "string \<Rightarrow> bytes option"
  key_address :: "'k \<Rightarrow> string"
  sign_message_sync :: "'k \<Rightarrow> bytes \<Rightarrow> 's option"
  signature_as_bytes :: "'s \<Rightarrow> bytes"
  signature_from_str :: "string \<Rightarrow> 's option"
  recover_address_from_msg :: "'s \<Rightarrow> bytes \<Rightarrow> string option"

record ('sk, 'pk, 'sg) secp_lib =
  sign_ecdsa :: "bytes \<Rightarrow> 'sk \<Rightarrow> 'sg"
  serialize_compact :: "'sg \<Rightarrow> bytes"
  signature_from_compact :: "bytes \<Rightarrow> 'sg option"
  verify_ecdsa :: "bytes \<Rightarrow> 'sg \<Rightarrow> 'pk \<Rightarrow> bool"

datatype signer_error = SignerJsonError string

section \<open>\<open>Keccak256Secp256k1\<close>\<close>

definition generate_hash ::
  "('m, 'k, 's) signer_lib \<Rightarrow> 'm \<Rightarrow> (bytes, signer_error) outcome" where
  "generate_hash L message =
     and_then (unwrap ''Failed to serialize message'' (json_to_vec L message)) (\<lambda>v.
       Ok (keccak256 L v))"

definition generate_hash_str ::
  "('m, 'k, 's) signer_lib \<Rightarrow> 'm \<Rightarrow> (string, signer_error) outcome" where
  "generate_hash_str L message =
     and_then (unwrap ''Failed to serialize message'' (json_to_vec L message)) (\<lambda>v.
       Ok (hex_encode L (keccak256 L v)))"

text \<open>\<open>Message::from_slice(&hash).expect(..)\<close> of \<open>secp256k1\<close> takes 32 bytes.\<close>

definition message_from_slice :: "bytes \<Rightarrow> (bytes, 'e) outcome" where
  "message_from_slice h = (if length h = 32 then Ok h else Panic ''hash need 32 bytes'')"

definition secp_sign_message ::
  "('m, 'k, 's) signer_lib \<Rightarrow> ('sk, 'pk, 'sg) secp_lib \<Rightarrow> 'sk \<Rightarrow> 'm \<Rightarrow> (string, string) outcome"
  where
  "secp_sign_message L E privkey message =
     and_then (unwrap ''called Result::unwrap on an Err value'' (generate_hash L message)) (\<lambda>hash.
     and_then (message_from_slice hash) (\<lambda>msg.
       Ok (hex_encode L (serialize_compact E (sign_ecdsa E msg privkey)))))"

definition secp_verify_signature ::
  "('m, 'k, 's) signer_lib \<Rightarrow> ('sk, 'pk, 'sg) secp_lib \<Rightarrow> 'pk \<Rightarrow> 'm \<Rightarrow> string \<Rightarrow>
   (bool, string) outcome" where
  "secp_verify_signature L E pubkey message signature =
     and_then (unwrap ''called Result::unwrap on an Err value'' (generate_hash L message)) (\<lambda>hash.
     and_then (message_from_slice hash) (\<lambda>msg.
     and_then (unwrap_option ''Invalid signature'' (hex_decode L signature)) (\<lambda>bs.
     and_then (unwrap_option ''Invalid format'' (signature_from_compact E bs)) (\<lambda>sig.
       Ok (verify_ecdsa E msg sig pubkey)))))"

section \<open>\<open>MessageVerify\<close>\<close>

definition get_address :: "('m, 'k, 's) signer_lib \<Rightarrow> 'k \<Rightarrow> string" where
  "get_address L key = key_address L key"

definition sign_message ::
  "('m, 'k, 's) signer_lib \<Rightarrow> 'k \<Rightarrow> 'm \<Rightarrow> (string, string) outcome" where
  "sign_message L key message =
     and_then (unwrap ''called Result::unwrap on an Err value'' (json_to_vec L message)) (\<lambda>msg.
     and_then (unwrap_option ''called Result::unwrap on an Err value'' (sign_message_sync L key msg))
       (\<lambda>signature. Ok (hex_encode L (signature_as_bytes L signature))))"

definition verify_signature ::
  "('m, 'k, 's) signer_lib \<Rightarrow> string \<Rightarrow> 'm \<Rightarrow> string \<Rightarrow> (bool, string) outcome" where
  "verify_signature L pubkey message signature =
     and_then (unwrap_option ''called Result::unwrap on an Err value'' (signature_from_str L signature))
       (\<lambda>sig.
     and_then (unwrap ''called Result::unwrap on an Err value'' (json_to_vec L message)) (\<lambda>msg.
     and_then (unwrap_option ''called Result::unwrap on an Err value''
                 (recover_address_from_msg L sig msg)) (\<lambda>recover.
       Ok (to_lowercase recover = to_lowercase pubkey))))"

definition verify_message ::
  "('v wire_message, 'k, 's) signer_lib \<Rightarrow> 'v wire_message \<Rightarrow> (bool, string) outcome" where
  "verify_message L message =
     and_then (unwrap_option ''called Result::unwrap on an Err value''
                 (signature_from_str L (wm_signature message))) (\<lambda>signature.
     let origin_message = message \<lparr>wm_signature := []\<rparr> in
     and_then (unwrap ''called Result::unwrap on an Err value'' (json_to_vec L origin_message))
       (\<lambda>msg.
     and_then (unwrap_option ''called Result::unwrap on an Err value''
                 (recover_address_from_msg L signature msg)) (\<lambda>origin.
       Ok (to_lowercase origin = to_lowercase (wm_address message)))))"

section \<open>What the packages document\<close>

definition signer_laws :: "('m, 'k, 's) signer_lib \<Rightarrow> bool" where
  "signer_laws L \<longleftrightarrow>
     (\<forall>s. signature_from_str L (hex_encode L (signature_as_bytes L s)) = Some s) \<and>
     (\<forall>k m. \<exists>s. sign_message_sync L k m = Some s \<and>
        recover_address_from_msg L s m = Some (key_address L k))"

definition secp_laws :: "('m, 'k, 's) signer_lib \<Rightarrow> ('sk, 'pk, 'sg) secp_lib \<Rightarrow> ('sk \<Rightarrow> 'pk) \<Rightarrow> bool"
  where
  "secp_laws L E public_key \<longleftrightarrow>
     (\<forall>bs. length (keccak256 L bs) = 32) \<and>
     (\<forall>bs. hex_decode L (hex_encode L bs) = Some bs) \<and>
     (\<forall>s. signature_from_compact E (serialize_compact E s) = Some s) \<and>
     (\<forall>m k. verify_ecdsa E m (sign_ecdsa E m k) (public_key k))"

section \<open>Lemmas\<close>

lemma sign_message_recovers:
  assumes "signer_laws L" "json_to_vec L message = Ok v"
  shows "\<exists>s sig. sign_message L key message = Ok s \<and> signature_from_str L s = Some sig \<and>
    recover_address_from_msg L sig v = Some (key_address L key)"
proof -
  obtain sig where "sign_message_sync L key v = Some sig"
      "recover_address_from_msg L sig v = Some (key_address L key)"
    using assms(1) unfolding signer_laws_def by blast
  then show ?thesis
    using assms by (simp add: signer_laws_def sign_message_def)
qed

lemma verify_signature_recovers:
  assumes "signature_from_str L s = Some sig" "json_to_vec L message = Ok v"
    "recover_address_from_msg L sig v = Some a"
  shows "verify_signature L pubkey message s = Ok (to_lowercase a = to_lowercase pubkey)"
  using assms by (simp add: verify_signature_def)

text \<open>Packages that satisfy the laws: a signature is the address of its key in clear.\<close>

definition sample_signer :: "('m, string, string) signer_lib" where
  "sample_signer =
     \<lparr>json_to_vec = (\<lambda>m. Ok [1, 2]), keccak256 = (\<lambda>bs. take 32 (bs @ replicate 32 0)),
      hex_encode = map (\<lambda>b. char_of (unat b)), hex_decode = (\<lambda>t. Some (string_bytes t)),
      key_address = (\<lambda>k. k), sign_message_sync = (\<lambda>k m. Some k),
      signature_as_bytes = string_bytes, signature_from_str = Some,
      recover_address_from_msg = (\<lambda>s m. Some s)\<rparr>"

lemma u8_of_char: "(of_char c :: u8) = of_nat (of_char c)"
  by (simp only: of_nat_of_char)

lemma char_of_byte [simp]: "char_of (unat (of_char c :: u8)) = c"
proof -
  have "unat (of_char c :: u8) = of_char c mod 256"
    unfolding u8_of_char by (simp only: unat_of_nat) simp
  then show ?thesis by (simp del: of_nat_of_char)
qed

lemma byte_of_char [simp]: "(of_char (char_of (unat b)) :: u8) = b"
proof -
  have "(of_char (char_of (unat b) :: char) :: nat) = unat b"
    using unat_u8_less [of b] by (simp only: of_char_of) simp
  then show ?thesis unfolding u8_of_char by (simp only: of_nat_unat) simp
qed

lemma sample_signer_laws: "signer_laws sample_signer"
  by (simp add: signer_laws_def sample_signer_def string_bytes_def comp_def)

definition sample_secp :: "(bytes, bytes, bytes) secp_lib" where
  "sample_secp =
     \<lparr>sign_ecdsa = (\<lambda>m k. k), serialize_compact = (\<lambda>s. s), signature_from_compact = Some,
      verify_ecdsa = (\<lambda>m s pk. s = pk)\<rparr>"

lemma sample_secp_laws: "secp_laws sample_signer sample_secp (\<lambda>k. k)"
  by (auto simp: secp_laws_def sample_signer_def sample_secp_def string_bytes_def comp_def min_def)

section \<open>Properties\<close>

text \<open>A signature made by \<open>MessageVerify\<close> checks against an address exactly when this is
  the address of the signing key, without regard to upper and lower case, for every message that
  serialises.\<close>

theorem sign_then_verify:
  assumes "signer_laws L" "json_to_vec L message = Ok v"
  shows "\<exists>s. sign_message L key message = Ok s \<and>
    verify_signature L address message s = Ok (to_lowercase (get_address L key) = to_lowercase address)"
  using sign_message_recovers [OF assms] verify_signature_recovers assms(2)
  unfolding get_address_def by metis

theorem sign_then_verify_witness:
  "\<exists>s. sign_message sample_signer ''0xAb'' () = Ok s \<and>
    verify_signature sample_signer ''0xaB'' () s = Ok True"
proof -
  have "to_lowercase ''0xAb'' = to_lowercase ''0xaB''" by code_simp
  moreover have "json_to_vec sample_signer () = Ok [1, 2]"
    "get_address (sample_signer :: (unit, string, string) signer_lib) ''0xAb'' = ''0xAb''"
    by (simp_all add: sample_signer_def get_address_def)
  ultimately show ?thesis
    using sign_then_verify [OF sample_signer_laws, of "()" "[1, 2]" "''0xAb''" "''0xaB''"] by simp
qed

text \<open>The same for \<open>Keccak256Secp256k1\<close>: what is signed with a secret key verifies with its
  public key.\<close>

theorem secp_sign_then_verify:
  assumes "secp_laws L E public_key" "json_to_vec L message = Ok v"
  shows "\<exists>s. secp_sign_message L E k message = Ok s \<and>
    secp_verify_signature L E (public_key k) message s = Ok True"
  using assms
  by (simp add: secp_laws_def secp_sign_message_def secp_verify_signature_def generate_hash_def
      message_from_slice_def)

theorem secp_sign_then_verify_witness:
  "\<exists>s. secp_sign_message sample_signer sample_secp [9] () = Ok s \<and>
    secp_verify_signature sample_signer sample_secp [9] () s = Ok True"
  using secp_sign_then_verify [OF sample_secp_laws, of "()" "[1, 2]" "[9]"]
  by (simp add: sample_signer_def)

end
