(* ===== verification/Errors.thy ===== *)
theory Errors
  imports Prelude
begin

text \<open>
  The error types that cross component boundaries: \<open>WsError\<close> of \<open>crates/websocket/src/lib.rs\<close>,
  \<open>VerifyHubError\<close> of \<open>operator/verify_hub/src/error.rs\<close>, and \<open>OperatorError\<close> with its numeric
  codes from \<open>operator/runer/src/error.rs\<close>. The errors of packages they wrap are texts, except
  \<open>ParseIntError\<close> of the standard library. A \<open>#[from]\<close> attribute is the constructor itself,
  used with \<open>map_err\<close> where the source writes \<open>?\<close>.
\<close>

datatype ws_error =
    WsJsonError string
  | TungsteniteError string
  | ElapsedError
  | WsIOError string
  | ChannelRecvError
  | WebsocketClosed
  | ReceiverClosed
  | ReceivedCloseFrame string
  | UnexpectedRawFrame
  | ConnectionClosed

datatype verify_hub_error =
    SendOpmlRequestError string
  | ChannelClosedError
  | RequestTimeoutError

datatype operator_error =
    CustomError string
  | OPSetupRegister string
  | OPConnectTEEError string
  | OPSendPromptError string
  | OPDecodeSignerKeyError string
  | OPNewVrfRangeContractError string
  | OPGetVrfRangeContractError string
  | OPVrfMaterialError string
  | OPChannelError
  | OPUnsupportedTagError string
  | OPIoError string
  | OPVerifyHubError verify_hub_error
  | OPTimeoutError string
  | JsonError string
  | OPWsError ws_error
  | OPParseIntError parse_int_error
  | OPFromHexError string

text \<open>The code printed in the message of an error; the last four messages have none.\<close>

fun operator_error_code :: "operator_error \<Rightarrow> nat option" where
  "operator_error_code (CustomError d) = Some 3001"
| "operator_error_code (OPSetupRegister e) = Some 3002"
| "operator_error_code (OPConnectTEEError d) = Some 3003"
| "operator_error_code (OPSendPromptError d) = Some 3004"
| "operator_error_code (OPDecodeSignerKeyError e) = Some 3005"
| "operator_error_code (OPNewVrfRangeContractError e) = Some 3006"
| "operator_error_code (OPGetVrfRangeContractError d) = Some 3007"
| "operator_error_code (OPVrfMaterialError e) = Some 3008"
| "operator_error_code OPChannelError = Some 3009"
| "operator_error_code (OPUnsupportedTagError d) = Some 3010"
| "operator_error_code (OPIoError e) = Some 3011"
| "operator_error_code (OPVerifyHubError e) = Some 3012"
| "operator_error_code (OPTimeoutError d) = Some 3013"
| "operator_error_code (JsonError e) = None"
| "operator_error_code (OPWsError e) = None"
| "operator_error_code (OPParseIntError e) = None"
| "operator_error_code (OPFromHexError e) = None"

end
