(* ===== verification/Websocket.thy ===== *)
theory Websocket
  imports Registry Msg_Signer Errors
begin

text \<open>
  The websocket connection of \<open>crates/websocket/src/lib.rs\<close>: building of requests and
  responses, the callback map, the shared core that every operation enters through \<open>exec\<close>, the
  three phases of \<open>request_timeout\<close>, \<open>respond\<close>, and \<open>recv_inner\<close>. The TCP stream and the
  framing are outside: what arrives is a list of stream items, what the sink answers to a send is an
  argument. A \<open>oneshot\<close> channel is a number; \<open>ws_oneshots\<close> holds the value sent through it.
\<close>

section \<open>Packages\<close>

record 'v ws_json =
  json_from_slice :: "bytes \<Rightarrow> ('v wire_message, string) outcome"
  json_to_string :: "'v wire_message \<Rightarrow> (string, string) outcome"

datatype ws_frame =
    TextFrame string
  | BinaryFrame bytes
  | PingFrame bytes
  | PongFrame bytes
  | CloseFrame string
  | RawFrame

datatype stream_item = EndOfStream | StreamError string | Item ws_frame

section \<open>Messages on the wire\<close>

definition wire_address :: string where
  "wire_address = ''0x02a5592a6dE1568F6eFdC536DA3EF887f98414cb''"

definition try_from_bytes :: "'v ws_json \<Rightarrow> bytes \<Rightarrow> ('v wire_message, ws_error) outcome" where
  "try_from_bytes J b = map_err WsJsonError (json_from_slice J b)"

text \<open>
  Hash and signature of a message whose two fields are empty, put into these fields, and the text
  of the result. \<open>sign_message\<close> has no error value, so \<open>map_err\<close> only changes its type.
\<close>

definition seal_message ::
  "('v wire_message, 'k, 's) signer_lib \<Rightarrow> 'v ws_json \<Rightarrow> 'k \<Rightarrow> 'v wire_message \<Rightarrow>
   (string, ws_error) outcome" where
  "seal_message L J key s1 =
     and_then (unwrap ''called Result::unwrap on an Err value'' (generate_hash_str L s1)) (\<lambda>hash.
     and_then (map_err WsJsonError (sign_message L key s1)) (\<lambda>sig.
       map_err WsJsonError (json_to_string J (s1\<lparr>wm_hash := hash, wm_signature := sig\<rparr>))))"

definition request_body :: "u64 \<Rightarrow> string \<Rightarrow> 'v \<Rightarrow> 'v wire_message" where
  "request_body counter f s =
     \<lparr>wm_id = nat_to_string (unat counter), wm_method = Some f, wm_params = Some s,
      wm_result = None, wm_address = wire_address, wm_hash = [], wm_signature = []\<rparr>"

definition wire_request ::
  "('v wire_message, 'k, 's) signer_lib \<Rightarrow> 'v ws_json \<Rightarrow> u64 \<Rightarrow> string \<Rightarrow> 'v \<Rightarrow> 'k \<Rightarrow>
   (ws_frame \<times> string, ws_error) outcome" where
  "wire_request L J counter f s key =
     and_then (seal_message L J key (request_body counter f s)) (\<lambda>s2.
       Ok (TextFrame s2, nat_to_string (unat counter)))"

definition response_body :: "string \<Rightarrow> 'v \<Rightarrow> 'v wire_message" where
  "response_body rid s =
     \<lparr>wm_id = rid, wm_method = None, wm_params = None, wm_result = Some s,
      wm_address = wire_address, wm_hash = [], wm_signature = []\<rparr>"

definition wire_response ::
  "('v wire_message, 'k, 's) signer_lib \<Rightarrow> 'v ws_json \<Rightarrow> string \<Rightarrow> 'v \<Rightarrow> 'k \<Rightarrow>
   (ws_frame, ws_error) outcome" where
  "wire_response L J rid s key =
     and_then (seal_message L J key (response_body rid s)) (\<lambda>s2. Ok (TextFrame s2))"

section \<open>Callback map\<close>

type_synonym callback_map = "string \<Rightarrow> nat option"

definition cb_insert :: "callback_map \<Rightarrow> string \<Rightarrow> nat \<Rightarrow> callback_map" where
  "cb_insert m rid sender = m(rid \<mapsto> sender)"

definition cb_remove :: "callback_map \<Rightarrow> string \<Rightarrow> callback_map \<times> nat option" where
  "cb_remove m rid = (m(rid := None), m rid)"

interpretation cb: registry "\<lambda>m. m" cb_insert "\<lambda>m i. fst (cb_remove m i)"
  by unfold_locales (simp_all add: cb_insert_def cb_remove_def)

section \<open>The core\<close>

record ('v, 'k) ws_state =
  ws_open :: bool
  ws_sink_closed :: bool
  ws_signer :: 'k
  ws_callbacks :: callback_map
  ws_oneshots :: "nat \<Rightarrow> ('v, ws_error) outcome option"
  ws_sent :: "ws_frame list"
  ws_counter :: u64
  ws_next_oneshot :: nat

text \<open>\<open>CallbackMap::close\<close>: every registered sender gets \<open>ConnectionClosed\<close>.\<close>

definition cb_close ::
  "callback_map \<Rightarrow> (nat \<Rightarrow> ('v, ws_error) outcome option) \<Rightarrow> (nat \<Rightarrow> ('v, ws_error) outcome option)" where
  "cb_close m oneshots =
     (\<lambda>t. if t \<in> ran m then Some (Err ConnectionClosed) else oneshots t)"

definition ws_close :: "('v, 'k) ws_state \<Rightarrow> ('v, 'k) ws_state" where
  "ws_close st =
     (if ws_open st
      then st\<lparr>ws_open := False, ws_sink_closed := True, ws_callbacks := Map.empty,
              ws_oneshots := cb_close (ws_callbacks st) (ws_oneshots st)\<rparr>
      else st)"

fun close_if_err ::
  "('v, 'k) ws_state \<times> ('r, ws_error) outcome \<Rightarrow> ('v, 'k) ws_state \<times> ('r, ws_error) outcome" where
  "close_if_err (st, Err e) = (ws_close st, Err e)"
| "close_if_err (st, Ok r) = (st, Ok r)"
| "close_if_err (st, Panic m) = (st, Panic m)"

definition exec ::
  "('v, 'k) ws_state \<Rightarrow>
   (('v, 'k) ws_state \<Rightarrow> ('v, 'k) ws_state \<times> ('r, ws_error) outcome) \<Rightarrow>
   ('v, 'k) ws_state \<times> ('r, ws_error) outcome" where
  "exec st c = (if ws_open st then close_if_err (c st) else (st, Err WebsocketClosed))"

definition signer :: "('v, 'k) ws_state \<Rightarrow> ('k, ws_error) outcome" where
  "signer st = (if ws_open st then Ok (ws_signer st) else Err WebsocketClosed)"

section \<open>Requests\<close>

text \<open>
  First phase of \<open>request_timeout\<close>: the signer, the message with a fresh number, and the
  callback under its id. \<open>counter\<close> is the static \<open>ID\<close>, taken with \<open>fetch_add\<close>.
\<close>

definition request_register ::
  "('v wire_message, 'k, 's) signer_lib \<Rightarrow> 'v ws_json \<Rightarrow> ('v, 'k) ws_state \<Rightarrow> string \<Rightarrow> 'v \<Rightarrow>
   ('v, 'k) ws_state \<times> (ws_frame \<times> string \<times> nat, ws_error) outcome" where
  "request_register L J st f s =
     (case signer st of
        Err e \<Rightarrow> (st, Err e)
      | Panic m \<Rightarrow> (st, Panic m)
      | Ok key \<Rightarrow>
          let st1 = st\<lparr>ws_counter := ws_counter st + 1\<rparr> in
          case wire_request L J (ws_counter st) f s key of
            Err e \<Rightarrow> (st1, Err e)
          | Panic m \<Rightarrow> (st1, Panic m)
          | Ok (msg, rid) \<Rightarrow>
              let tok = ws_next_oneshot st1;
                  st2 = st1\<lparr>ws_next_oneshot := tok + 1\<rparr>
              in exec st2 (\<lambda>core.
                   (core\<lparr>ws_callbacks := cb_insert (ws_callbacks core) rid tok\<rparr>,
                    Ok (msg, rid, tok))))"

text \<open>The drop helper \<open>D\<close>.\<close>

definition drop_callback :: "('v, 'k) ws_state \<Rightarrow> string \<Rightarrow> ('v, 'k) ws_state" where
  "drop_callback st rid = st\<lparr>ws_callbacks := fst (cb_remove (ws_callbacks st) rid)\<rparr>"

text \<open>
  Second phase: the send, which the sink answers with \<open>res\<close> (\<open>Err ElapsedError\<close> is the
  timeout). On an error the helper is dropped and the core closed.
\<close>

definition request_sent ::
  "('v, 'k) ws_state \<Rightarrow> ws_frame \<Rightarrow> string \<Rightarrow> (unit, ws_error) outcome \<Rightarrow>
   ('v, 'k) ws_state \<times> (unit, ws_error) outcome" where
  "request_sent st msg rid res =
     (case res of
        Ok u \<Rightarrow> (st\<lparr>ws_sent := ws_sent st @ [msg]\<rparr>, Ok ())
      | Err e \<Rightarrow> close_if_err (drop_callback st rid, Err e)
      | Panic m \<Rightarrow> (drop_callback st rid, Panic m))"

text \<open>
  Third phase: what the waiting task gets, \<open>None\<close> while there is nothing. A sender that has
  left the map without sending is dropped, which the receiver sees as an error.
\<close>

definition request_poll ::
  "('v, 'k) ws_state \<Rightarrow> nat \<Rightarrow> bool \<Rightarrow> ('v, ws_error) outcome option" where
  "request_poll st tok timed_out =
     (case ws_oneshots st tok of
        Some r \<Rightarrow> Some r
      | None \<Rightarrow>
          if tok \<notin> ran (ws_callbacks st) then Some (Err ChannelRecvError)
          else if timed_out then Some (Err ElapsedError)
          else None)"

definition request_finish ::
  "('v, 'k) ws_state \<Rightarrow> string \<Rightarrow> nat \<Rightarrow> bool \<Rightarrow>
   ('v, 'k) ws_state \<times> ('v, ws_error) outcome option" where
  "request_finish st rid tok timed_out =
     (case request_poll st tok timed_out of
        None \<Rightarrow> (st, None)
      | Some r \<Rightarrow> (drop_callback st rid, Some r))"

definition respond ::
  "('v wire_message, 'k, 's) signer_lib \<Rightarrow> 'v ws_json \<Rightarrow> ('v, 'k) ws_state \<Rightarrow> string \<Rightarrow> 'v \<Rightarrow>
   (unit, ws_error) outcome \<Rightarrow> ('v, 'k) ws_state \<times> (unit, ws_error) outcome" where
  "respond L J st rid s res =
     exec st (\<lambda>core.
       case and_then (unwrap ''called Result::unwrap on an Err value'' (signer core))
              (wire_response L J rid s) of
         Err e \<Rightarrow> (core, Err e)
       | Panic m \<Rightarrow> (core, Panic m)
       | Ok msg \<Rightarrow>
           (case res of
              Ok u \<Rightarrow> (core\<lparr>ws_sent := ws_sent core @ [msg]\<rparr>, Ok ())
            | Err e \<Rightarrow> (core, Err e)
            | Panic m \<Rightarrow> (core, Panic m)))"

section \<open>Receiving\<close>

datatype 'v receive_message = Signal bytes | Request string string 'v

text \<open>A message with a method: the result of the signature check is computed and not used.\<close>

definition receive_request ::
  "('v wire_message, 'k, 's) signer_lib \<Rightarrow> 'v wire_message \<Rightarrow> string \<Rightarrow>
   ('v receive_message option, ws_error) outcome" where
  "receive_request L recvd meth =
     (let recvd_clone = recvd\<lparr>wm_hash := [], wm_signature := []\<rparr> in
      and_then (map_err WsJsonError
                  (verify_signature L (wm_address recvd_clone) recvd_clone (wm_signature recvd)))
        (\<lambda>is_valid.
      and_then (unwrap ''called Result::unwrap on an Err value'' (generate_hash_str L recvd_clone))
        (\<lambda>hashstr.
      and_then (unwrap_option ''called Option::unwrap on a None value'' (wm_params recvd))
        (\<lambda>params. Ok (Some (Request (wm_id recvd) meth params))))))"

definition receive_response ::
  "('v, 'k) ws_state \<Rightarrow> 'v wire_message \<Rightarrow> ('v, 'k) ws_state" where
  "receive_response core recvd =
     (case cb_remove (ws_callbacks core) (wm_id recvd) of
        (callbacks', None) \<Rightarrow> core
      | (callbacks', Some sender) \<Rightarrow>
          core\<lparr>ws_callbacks := callbacks',
               ws_oneshots := (case wm_result recvd of
                                 Some data \<Rightarrow> (ws_oneshots core)(sender \<mapsto> Ok data)
                               | None \<Rightarrow> ws_oneshots core)\<rparr>)"

definition receive_text ::
  "('v wire_message, 'k, 's) signer_lib \<Rightarrow> 'v ws_json \<Rightarrow> ('v, 'k) ws_state \<Rightarrow> bytes \<Rightarrow>
   ('v, 'k) ws_state \<times> ('v receive_message option, ws_error) outcome" where
  "receive_text L J core msg =
     (case try_from_bytes J msg of
        Err e \<Rightarrow> (core, Err e)
      | Panic m \<Rightarrow> (core, Panic m)
      | Ok recvd \<Rightarrow>
          (case wm_method recvd of
             Some meth \<Rightarrow> (core, receive_request L recvd meth)
           | None \<Rightarrow> (receive_response core recvd, Ok None)))"

text \<open>One round of \<open>recv_inner\<close>; \<open>pong\<close> is the sink's answer to the reply to a ping.\<close>

definition receive_frame ::
  "('v wire_message, 'k, 's) signer_lib \<Rightarrow> 'v ws_json \<Rightarrow> (unit, ws_error) outcome \<Rightarrow>
   ('v, 'k) ws_state \<Rightarrow> stream_item \<Rightarrow>
   ('v, 'k) ws_state \<times> ('v receive_message option, ws_error) outcome" where
  "receive_frame L J pong core it =
     (case it of
        EndOfStream \<Rightarrow> (core, Err ReceiverClosed)
      | StreamError e \<Rightarrow> (core, Err (TungsteniteError e))
      | Item (TextFrame s) \<Rightarrow> receive_text L J core (string_bytes s)
      | Item (BinaryFrame b) \<Rightarrow> receive_text L J core b
      | Item (PingFrame b) \<Rightarrow>
          (case pong of
             Ok u \<Rightarrow> (core\<lparr>ws_sent := ws_sent core @ [PongFrame b]\<rparr>, Ok None)
           | Err e \<Rightarrow> (core, Err e)
           | Panic m \<Rightarrow> (core, Panic m))
      | Item (PongFrame b) \<Rightarrow> (core, Ok None)
      | Item (CloseFrame f) \<Rightarrow> (core, Err (ReceivedCloseFrame f))
      | Item RawFrame \<Rightarrow> (core, Err UnexpectedRawFrame))"

definition receive_item ::
  "('v wire_message, 'k, 's) signer_lib \<Rightarrow> 'v ws_json \<Rightarrow> (unit, ws_error) outcome \<Rightarrow>
   ('v, 'k) ws_state \<Rightarrow> stream_item \<Rightarrow>
   ('v, 'k) ws_state \<times> ('v receive_message option, ws_error) outcome" where
  "receive_item L J pong st it = exec st (\<lambda>core. receive_frame L J pong core it)"

text \<open>The loop over what the stream yields; \<open>None\<close> when it has to wait for more.\<close>

fun recv_inner ::
  "('v wire_message, 'k, 's) signer_lib \<Rightarrow> 'v ws_json \<Rightarrow> (unit, ws_error) outcome \<Rightarrow>
   ('v, 'k) ws_state \<Rightarrow> stream_item list \<Rightarrow>
   ('v, 'k) ws_state \<times> ('v receive_message, ws_error) outcome option \<times> stream_item list" where
  "recv_inner L J pong st [] = (st, None, [])"
| "recv_inner L J pong st (it # items) =
     (case receive_item L J pong st it of
        (st', Ok (Some result)) \<Rightarrow> (st', Some (Ok result), items)
      | (st', Ok None) \<Rightarrow> recv_inner L J pong st' items
      | (st', Err e) \<Rightarrow> (st', Some (Err e), items)
      | (st', Panic m) \<Rightarrow> (st', Some (Panic m), items))"

section \<open>Configuration\<close>

record websocket_config =
  default_request_timeout :: nat
  max_message_size :: u64
  max_frame_size :: u64

definition DEFAULT_CONFIG :: websocket_config where
  "DEFAULT_CONFIG =
     \<lparr>default_request_timeout = 60, max_message_size = push_bit 20 64,
      max_frame_size = push_bit 20 16\<rparr>"

definition to_tungstenite :: "websocket_config \<Rightarrow> u64 option \<times> u64 option" where
  "to_tungstenite c = (Some (max_message_size c), Some (max_frame_size c))"

text \<open>\<open>split\<close>: the state of a fresh connection.\<close>

definition ws_split :: "'k \<Rightarrow> u64 \<Rightarrow> ('v, 'k) ws_state" where
  "ws_split key counter =
     \<lparr>ws_open = True, ws_sink_closed = False, ws_signer = key, ws_callbacks = Map.empty,
      ws_oneshots = Map.empty, ws_sent = [], ws_counter = counter, ws_next_oneshot = 0\<rparr>"

section \<open>Steps of a connection\<close>

inductive ws_step ::
  "('v wire_message, 'k, 's) signer_lib \<Rightarrow> 'v ws_json \<Rightarrow> ('v, 'k) ws_state \<Rightarrow> ('v, 'k) ws_state \<Rightarrow> bool"
  for L J where
  step_register: "ws_step L J st (fst (request_register L J st f s))"
| step_sent: "ws_step L J st (fst (request_sent st msg rid res))"
| step_finish: "ws_step L J st (fst (request_finish st rid tok timed_out))"
| step_respond: "ws_step L J st (fst (respond L J st rid s res))"
| step_receive: "ws_step L J st (fst (receive_item L J pong st it))"
| step_close: "ws_step L J st (ws_close st)"

inductive ws_reachable ::
  "('v wire_message, 'k, 's) signer_lib \<Rightarrow> 'v ws_json \<Rightarrow> ('v, 'k) ws_state \<Rightarrow> bool"
  for L J where
  reach_split: "ws_reachable L J (ws_split key counter)"
| reach_step: "ws_reachable L J st \<Longrightarrow> ws_step L J st st' \<Longrightarrow> ws_reachable L J st'"

text \<open>
  Every registered channel is registered once, was handed out and is empty; a closed connection has
  no registered channel.
\<close>

definition ws_inv :: "('v, 'k) ws_state \<Rightarrow> bool" where
  "ws_inv st \<longleftrightarrow>
     cb.one_to_one (ws_callbacks st) \<and>
     (\<forall>t \<in> ran (ws_callbacks st). t < ws_next_oneshot st \<and> ws_oneshots st t = None) \<and>
     (\<forall>t. ws_oneshots st t \<noteq> None \<longrightarrow> t < ws_next_oneshot st) \<and>
     (\<not> ws_open st \<longrightarrow> ws_callbacks st = Map.empty)"

text \<open>No value that was sent is lost or replaced.\<close>

definition keeps_answers :: "('v, 'k) ws_state \<Rightarrow> ('v, 'k) ws_state \<Rightarrow> bool" where
  "keeps_answers st st' \<longleftrightarrow> (\<forall>t r. ws_oneshots st t = Some r \<longrightarrow> ws_oneshots st' t = Some r)"

definition good_step :: "('v, 'k) ws_state \<Rightarrow> ('v, 'k) ws_state \<Rightarrow> bool" where
  "good_step st st' \<longleftrightarrow> ws_inv st' \<and> keeps_answers st st'"

lemma good_refl: "ws_inv st \<Longrightarrow> good_step st st"
  by (simp add: good_step_def keeps_answers_def)

lemma good_trans: "good_step st st' \<Longrightarrow> good_step st' st'' \<Longrightarrow> good_step st st''"
  by (simp add: good_step_def keeps_answers_def)

lemma cb_parties: "cb.parties m = ran m"
  by (auto simp: ran_def cb.parties_def)

lemma good_same_core:
  assumes "ws_inv st" "ws_open st' = ws_open st" "ws_callbacks st' = ws_callbacks st"
    "ws_oneshots st' = ws_oneshots st" "ws_next_oneshot st \<le> ws_next_oneshot st'"
  shows "good_step st st'"
  using assms unfolding good_step_def ws_inv_def keeps_answers_def by fastforce

lemma good_close:
  assumes "ws_inv st"
  shows "good_step st (ws_close st)"
proof (cases "ws_open st")
  case True
  have "ws_oneshots st t = None" if "t \<in> ran (ws_callbacks st)" for t
    using assms that by (simp add: ws_inv_def)
  then have "keeps_answers st (ws_close st)"
    using True by (auto simp: keeps_answers_def ws_close_def cb_close_def)
  moreover have "t < ws_next_oneshot st" if "ws_oneshots (ws_close st) t \<noteq> None" for t
    using assms that True by (cases "t \<in> ran (ws_callbacks st)")
      (auto simp: ws_inv_def ws_close_def cb_close_def)
  ultimately show ?thesis
    using True by (simp add: good_step_def ws_inv_def ws_close_def cb.one_to_one_def)
next
  case False
  then show ?thesis using assms by (simp add: ws_close_def good_refl)
qed

lemma good_drop:
  assumes "ws_inv st"
  shows "good_step st (drop_callback st rid)"
proof -
  have "ran (fst (cb_remove (ws_callbacks st) rid)) \<subseteq> ran (ws_callbacks st)"
    using cb.parties_del by (simp only: cb_parties)
  moreover have "cb.one_to_one (fst (cb_remove (ws_callbacks st) rid))"
    using assms by (intro cb.one_to_one_del) (simp add: ws_inv_def)
  moreover have "\<not> ws_open st \<longrightarrow> fst (cb_remove (ws_callbacks st) rid) = Map.empty"
    using assms by (simp add: ws_inv_def cb_remove_def)
  ultimately show ?thesis
    using assms unfolding good_step_def ws_inv_def keeps_answers_def drop_callback_def by auto
qed

lemma good_close_if_err:
  assumes "good_step st (fst p)"
  shows "good_step st (fst (close_if_err p))"
proof (cases p rule: close_if_err.cases)
  case (1 st' e)
  then have "good_step st st'" "ws_inv st'" using assms by (simp_all add: good_step_def)
  then show ?thesis using 1 good_trans good_close by fastforce
qed (use assms in simp_all)

lemma good_exec:
  "ws_inv st \<Longrightarrow> (ws_open st \<Longrightarrow> good_step st (fst (c st))) \<Longrightarrow> good_step st (fst (exec st c))"
  by (auto simp: exec_def intro: good_refl good_close_if_err)

lemma good_insert:
  assumes "ws_inv st" "ws_open st" "ws_next_oneshot st = t"
  shows "good_step st (st\<lparr>ws_next_oneshot := t + 1,
    ws_callbacks := cb_insert (ws_callbacks st) rid t\<rparr>)"
proof -
  have fresh: "t \<notin> ran (ws_callbacks st)" "ws_oneshots st t = None"
    using assms by (fastforce simp: ws_inv_def)+
  have "ran (cb_insert (ws_callbacks st) rid t) \<subseteq> insert t (ran (ws_callbacks st))"
    using cb.parties_put by (simp only: cb_parties)
  moreover have "cb.one_to_one (cb_insert (ws_callbacks st) rid t)"
    using assms(1) fresh(1) by (intro cb.one_to_one_put) (simp_all add: ws_inv_def cb_parties)
  moreover have "u < t + 1 \<and> ws_oneshots st u = None" if "u \<in> insert t (ran (ws_callbacks st))" for u
    using that assms fresh by (auto simp: ws_inv_def less_SucI)
  moreover have "u < t + 1" if "ws_oneshots st u \<noteq> None" for u
    using that assms by (fastforce simp: ws_inv_def)
  ultimately show ?thesis
    using assms(2) unfolding good_step_def ws_inv_def keeps_answers_def by (simp add: subset_iff)
qed

lemma good_register:
  assumes "ws_inv st"
  shows "good_step st (fst (request_register L J st f s))"
proof (cases "ws_open st")
  case True
  let ?st1 = "st\<lparr>ws_counter := ws_counter st + 1\<rparr>"
  have 1: "good_step st ?st1" by (rule good_same_core) (simp_all add: assms)
  then have "ws_inv ?st1" by (simp add: good_step_def)
  from good_insert [OF this, of "ws_next_oneshot st"] 1 show ?thesis
    using True
    by (auto simp: request_register_def signer_def Let_def exec_def intro: good_trans
        split: outcome.splits)
next
  case False
  then show ?thesis using assms by (simp add: request_register_def signer_def good_refl)
qed

lemma good_sent:
  assumes "ws_inv st"
  shows "good_step st (fst (request_sent st msg rid res))"
proof (cases res)
  case (Err e)
  then show ?thesis
    using good_close_if_err [of st "(drop_callback st rid, Err e :: (unit, ws_error) outcome)"]
      good_drop [OF assms, of rid]
    by (simp add: request_sent_def)
qed (simp_all add: request_sent_def good_drop assms good_same_core)

lemma good_finish: "ws_inv st \<Longrightarrow> good_step st (fst (request_finish st rid tok timed_out))"
  by (auto simp: request_finish_def good_drop good_refl split: option.splits)

lemma good_respond: "ws_inv st \<Longrightarrow> good_step st (fst (respond L J st rid s res))"
  unfolding respond_def
  by (rule good_exec)
    (auto intro: good_refl good_same_core split: outcome.splits)

lemma good_response:
  assumes "ws_inv st"
  shows "good_step st (receive_response st recvd)"
proof (cases "ws_callbacks st (wm_id recvd)")
  case None
  then show ?thesis using assms by (simp add: receive_response_def cb_remove_def good_refl)
next
  case (Some t)
  let ?m = "fst (cb_remove (ws_callbacks st) (wm_id recvd))"
  have oto: "cb.one_to_one (ws_callbacks st)" and "t \<in> ran (ws_callbacks st)"
    using assms Some by (auto simp: ws_inv_def ran_def)
  then have t: "ws_oneshots st t = None" "t < ws_next_oneshot st"
    using assms by (auto simp: ws_inv_def)
  have "t \<notin> ran ?m" using cb.del_party [OF oto Some] unfolding cb_parties .
  moreover have "ran ?m \<subseteq> ran (ws_callbacks st)" using cb.parties_del by (simp only: cb_parties)
  moreover have "cb.one_to_one ?m" by (rule cb.one_to_one_del [OF oto])
  moreover have "receive_response st recvd = st\<lparr>ws_callbacks := ?m,
      ws_oneshots := (case wm_result recvd of Some d \<Rightarrow> (ws_oneshots st)(t \<mapsto> Ok d)
        | None \<Rightarrow> ws_oneshots st)\<rparr>"
    using Some by (simp add: receive_response_def cb_remove_def)
  moreover have "\<not> ws_open st \<longrightarrow> ?m = Map.empty"
    using assms by (simp add: ws_inv_def cb_remove_def)
  ultimately show ?thesis
    using assms t unfolding good_step_def ws_inv_def keeps_answers_def
    by (auto split: option.splits)
qed

lemma good_receive: "ws_inv st \<Longrightarrow> good_step st (fst (receive_item L J pong st it))"
  unfolding receive_item_def
  by (rule good_exec)
    (auto simp: receive_frame_def receive_text_def good_refl good_response intro: good_same_core
      split: stream_item.splits ws_frame.splits outcome.splits option.splits)

lemma good_ws_step: "ws_step L J st st' \<Longrightarrow> ws_inv st \<Longrightarrow> good_step st st'"
  by (induction rule: ws_step.induct)
    (simp_all add: good_register good_sent good_finish good_respond good_receive good_close)

lemma ws_reachable_inv: "ws_reachable L J st \<Longrightarrow> ws_inv st"
  by (induction rule: ws_reachable.induct)
    (auto simp: ws_inv_def ws_split_def cb.one_to_one_def dest: good_ws_step simp: good_step_def)

lemma close_if_err_Err: "close_if_err (a, r) = (b, Err e) \<longleftrightarrow> r = Err e \<and> b = ws_close a"
  by (cases r) auto

lemma receive_frame_Err: "receive_frame L J pong core it = (a, Err e) \<Longrightarrow> a = core"
  by (auto simp: receive_frame_def receive_text_def
      split: stream_item.splits ws_frame.splits outcome.splits option.splits)

lemma receive_error_closes:
  assumes "ws_open st" "receive_item L J pong st it = (st', Err e)"
  shows "st' = ws_close st"
proof (cases "receive_frame L J pong st it")
  case (Pair a r)
  then have "r = Err e" "st' = ws_close a"
    using assms by (simp_all add: receive_item_def exec_def close_if_err_Err)
  then show ?thesis using Pair receive_frame_Err by metis
qed

section \<open>Sample packages\<close>

definition sample_message :: "nat wire_message" where
  "sample_message =
     \<lparr>wm_id = ''1'', wm_method = None, wm_params = None, wm_result = Some 5, wm_address = [],
      wm_hash = [], wm_signature = []\<rparr>"

definition sample_json :: "'v wire_message \<Rightarrow> 'v ws_json" where
  "sample_json w =
     \<lparr>json_from_slice = (\<lambda>b. if b = [] then Err ''eof'' else Ok w),
      json_to_string = (\<lambda>m. if m = w then Ok ''text'' else Err ''other'')\<rparr>"

definition sample_connection :: "(nat, string) ws_state" where
  "sample_connection =
     (ws_split ''key'' 1)\<lparr>ws_next_oneshot := 1, ws_callbacks := [''1'' \<mapsto> 0], ws_counter := 2\<rparr>"

definition lenient_json :: "nat ws_json" where
  "lenient_json =
     \<lparr>json_from_slice = (\<lambda>b. if b = [] then Err ''eof'' else Ok sample_message),
      json_to_string = (\<lambda>m. Ok ''text'')\<rparr>"

lemma nat_to_string_1: "nat_to_string (Suc 0) = ''1''"
  by code_simp

lemma sample_register:
  "fst (request_register sample_signer lenient_json (ws_split ''key'' 1) ''f'' 7) = sample_connection"
  by (simp add: request_register_def signer_def ws_split_def wire_request_def seal_message_def
      generate_hash_str_def sign_message_def sample_signer_def lenient_json_def exec_def
      sample_connection_def cb_insert_def nat_to_string_1)

lemma sample_reachable: "ws_reachable sample_signer lenient_json sample_connection"
  unfolding sample_register [symmetric] by (rule reach_step [OF reach_split step_register])

definition sample_answered :: "(nat, string) ws_state" where
  "sample_answered =
     fst (receive_item sample_signer lenient_json (Ok ()) sample_connection (Item (TextFrame ''text'')))"

lemma sample_answered_reachable: "ws_reachable sample_signer lenient_json sample_answered"
  unfolding sample_answered_def by (rule reach_step [OF sample_reachable step_receive])

lemma sample_answered_eq:
  "sample_answered = sample_connection\<lparr>ws_callbacks := Map.empty, ws_oneshots := [0 \<mapsto> Ok 5]\<rparr>"
  by (simp add: sample_answered_def receive_item_def receive_frame_def receive_text_def exec_def
      try_from_bytes_def lenient_json_def string_bytes_def sample_message_def receive_response_def
      cb_remove_def sample_connection_def ws_split_def)

section \<open>Properties\<close>

text \<open>C20. In every reachable state of a connection no two request ids wait on the same channel, and
  no step loses or replaces an answer that was sent through a channel: a request is answered at
  most once.\<close>

theorem ws_answered_once:
  assumes "ws_reachable L J st" "ws_step L J st st'"
  shows "(ws_callbacks st i = Some t \<and> ws_callbacks st j = Some t \<longrightarrow> i = j) \<and>
    (ws_oneshots st t = Some r \<longrightarrow> ws_oneshots st' t = Some r)"
  using good_ws_step [OF assms(2) ws_reachable_inv [OF assms(1)]] ws_reachable_inv [OF assms(1)]
  unfolding good_step_def keeps_answers_def ws_inv_def cb.one_to_one_def by blast

theorem ws_answered_once_witness:
  "ws_oneshots sample_answered 0 = Some (Ok 5) \<and>
   ws_oneshots (ws_close sample_answered) 0 = Some (Ok 5)"
proof -
  have "ws_oneshots sample_answered 0 = Some (Ok 5)"
    by (simp add: sample_answered_eq)
  then show ?thesis
    using ws_answered_once [OF sample_answered_reachable step_close, of i 0 j "Ok 5" for i j] by blast
qed

text \<open>A response with the id of a waiting request delivers its result to that request, ends its
  registration and leaves every other waiting request as it was.\<close>

theorem ws_response_delivered:
  assumes "ws_reachable L J st" "ws_open st"
    and "try_from_bytes J (string_bytes s) = Ok w" "wm_method w = None" "wm_result w = Some v"
    and "ws_callbacks st (wm_id w) = Some tok"
    and "receive_item L J pong st (Item (TextFrame s)) = (st', r)"
  shows "r = Ok None \<and> request_poll st' tok timed_out = Some (Ok v) \<and>
    ws_callbacks st' (wm_id w) = None \<and>
    (\<forall>rid tok'. rid \<noteq> wm_id w \<and> ws_callbacks st rid = Some tok' \<longrightarrow>
       ws_callbacks st' rid = Some tok' \<and> request_poll st' tok' False = None)"
proof -
  have inv: "ws_inv st" using assms(1) by (rule ws_reachable_inv)
  have st': "r = Ok None" "st' = st\<lparr>ws_callbacks := (ws_callbacks st)(wm_id w := None),
      ws_oneshots := (ws_oneshots st)(tok \<mapsto> Ok v)\<rparr>"
    using assms(2-7)
    by (simp_all add: receive_item_def receive_frame_def exec_def receive_text_def
        receive_response_def cb_remove_def)
  have "tok' \<noteq> tok \<and> ws_oneshots st tok' = None \<and> tok' \<in> ran ((ws_callbacks st)(wm_id w := None))"
    if "rid \<noteq> wm_id w" "ws_callbacks st rid = Some tok'" for rid tok'
    using that inv assms(6) by (auto simp: ws_inv_def cb.one_to_one_def ran_def)
  then show ?thesis unfolding st' by (auto simp: request_poll_def st'(1))
qed

theorem ws_response_delivered_witness:
  "request_poll (fst (receive_item sample_signer lenient_json (Ok ()) sample_connection
     (Item (TextFrame ''text'')))) 0 False = Some (Ok 5)"
proof -
  have "try_from_bytes lenient_json (string_bytes ''text'') = Ok sample_message"
    by (simp add: try_from_bytes_def lenient_json_def string_bytes_def)
  from ws_response_delivered [OF sample_reachable _ this _ _ _ surjective_pairing]
  show ?thesis by (simp add: sample_connection_def sample_message_def ws_split_def)
qed

text \<open>C21. When receiving ends with an error, every request that was waiting is answered with
  \<open>ConnectionClosed\<close>, and from then on requests, responses and receiving all fail with
  \<open>WebsocketClosed\<close>.\<close>

theorem ws_error_closes:
  assumes "ws_open st" "receive_item L J pong st it = (st', Err e)"
  shows "(\<forall>rid tok. ws_callbacks st rid = Some tok \<longrightarrow>
      request_poll st' tok timed_out = Some (Err ConnectionClosed)) \<and>
    request_register L J st' f s = (st', Err WebsocketClosed) \<and>
    respond L J st' rid' s res = (st', Err WebsocketClosed) \<and>
    receive_item L J pong' st' it' = (st', Err WebsocketClosed)"
proof -
  have "st' = ws_close st" using assms by (rule receive_error_closes)
  then show ?thesis
    using assms(1)
    by (auto simp: ws_close_def request_poll_def cb_close_def ran_def request_register_def
        signer_def respond_def receive_item_def exec_def)
qed

theorem ws_error_closes_witness:
  "request_poll (fst (receive_item sample_signer lenient_json (Ok ()) sample_connection EndOfStream))
     0 False = Some (Err ConnectionClosed)"
proof -
  have "receive_item sample_signer lenient_json (Ok ()) sample_connection EndOfStream =
      (ws_close sample_connection, Err ReceiverClosed)"
    by (simp add: receive_item_def receive_frame_def exec_def sample_connection_def ws_split_def)
  from ws_error_closes [OF _ this, of False] this show ?thesis
    by (simp add: sample_connection_def ws_split_def)
qed

text \<open>C33. What an incoming message with a method leads to: if its signature text can be read and some
  address recovered, and it has parameters, it is handed on as a request whatever this address is;
  otherwise the receiving task panics. The result of the signature check plays no part.\<close>

theorem ws_signature_not_enforced:
  assumes "ws_open st" "try_from_bytes J (string_bytes s) = Ok w" "wm_method w = Some m"
    and "json_to_vec L (w\<lparr>wm_hash := [], wm_signature := []\<rparr>) = Ok v"
  shows "receive_item L J pong st (Item (TextFrame s)) = (st,
     (case signature_from_str L (wm_signature w) of
        None \<Rightarrow> Panic ''called Result::unwrap on an Err value''
      | Some sig \<Rightarrow>
          (case recover_address_from_msg L sig v of
             None \<Rightarrow> Panic ''called Result::unwrap on an Err value''
           | Some a \<Rightarrow>
               (case wm_params w of
                  None \<Rightarrow> Panic ''called Option::unwrap on a None value''
                | Some p \<Rightarrow> Ok (Some (Request (wm_id w) m p))))))"
  using assms
  by (simp add: receive_item_def receive_frame_def exec_def receive_text_def receive_request_def
      verify_signature_def generate_hash_str_def split: option.splits)

text \<open>A request signed by nobody: the recovered address is not the one it names.\<close>

definition forged_message :: "nat wire_message" where
  "forged_message =
     \<lparr>wm_id = ''7'', wm_method = Some ''dispatch_job'', wm_params = Some 3, wm_result = None,
      wm_address = ''0xAA'', wm_hash = [], wm_signature = ''0xBB''\<rparr>"

theorem ws_signature_not_enforced_witness:
  "receive_item sample_signer (sample_json forged_message) (Ok ()) (ws_split ''key'' 1)
     (Item (TextFrame ''text'')) =
   (ws_split ''key'' 1, Ok (Some (Request ''7'' ''dispatch_job'' 3)))"
proof -
  have "ws_open (ws_split ''key'' 1)" by (simp add: ws_split_def)
  moreover have "try_from_bytes (sample_json forged_message) (string_bytes ''text'') = Ok forged_message"
    by (simp add: try_from_bytes_def sample_json_def string_bytes_def)
  moreover have "json_to_vec sample_signer (forged_message\<lparr>wm_hash := [], wm_signature := []\<rparr>) = Ok [1, 2]"
    by (simp add: sample_signer_def)
  moreover have "wm_method forged_message = Some ''dispatch_job''" by (simp add: forged_message_def)
  ultimately show ?thesis
    using ws_signature_not_enforced [of "ws_split ''key'' 1" "sample_json forged_message" "''text''"
        forged_message "''dispatch_job''" sample_signer "[1, 2]" "Ok ()"]
    by (simp add: forged_message_def sample_signer_def)
qed

text \<open>A request built by \<open>WireMessage::request\<close> carries a fixed address, so after its trip over
  the wire the signature check accepts it exactly when the signing key is the key of that address.\<close>

theorem wire_request_checks:
  assumes "signer_laws L" "wire_request L J counter f p key = Ok (TextFrame s, rid)"
    and "\<And>m. json_to_string J m = Ok s \<Longrightarrow> json_from_slice J (string_bytes s) = Ok m"
    and "json_to_vec L (request_body counter f p) = Ok v"
  shows "\<exists>w. try_from_bytes J (string_bytes s) = Ok w \<and> wm_id w = rid \<and>
    verify_signature L (wm_address w) (w\<lparr>wm_hash := [], wm_signature := []\<rparr>) (wm_signature w)
      = Ok (to_lowercase (key_address L key) = to_lowercase wire_address)"
proof -
  obtain t sig where sig: "sign_message L key (request_body counter f p) = Ok t"
      "signature_from_str L t = Some sig" "recover_address_from_msg L sig v = Some (key_address L key)"
    using sign_message_recovers [OF assms(1,4)] by blast
  let ?w = "(request_body counter f p)\<lparr>wm_hash := hex_encode L (keccak256 L v), wm_signature := t\<rparr>"
  have rid: "rid = nat_to_string (unat counter)" and js: "json_to_string J ?w = Ok s"
    using assms(2,4) sig(1)
    by (auto simp: wire_request_def seal_message_def generate_hash_str_def outcome_simps)
  have "try_from_bytes J (string_bytes s) = Ok ?w"
    using assms(3) [OF js] by (simp add: try_from_bytes_def)
  moreover have "?w\<lparr>wm_hash := [], wm_signature := []\<rparr> = request_body counter f p"
    by (simp add: request_body_def)
  ultimately show ?thesis
    using verify_signature_recovers [OF sig(2) assms(4) sig(3)] rid
    by (simp add: request_body_def)
qed

definition sealed_sample :: "nat wire_message" where
  "sealed_sample = (request_body 1 ''connect'' 3)
     \<lparr>wm_hash := hex_encode (sample_signer :: (nat, string, string) signer_lib)
         (keccak256 (sample_signer :: (nat, string, string) signer_lib) [1, 2]),
      wm_signature := ''0xCC''\<rparr>"

lemma sealed_sample_request:
  "wire_request sample_signer (sample_json sealed_sample) 1 ''connect'' 3 ''0xCC'' =
     Ok (TextFrame ''text'', ''1'')"
  by (simp add: wire_request_def seal_message_def generate_hash_str_def sign_message_def
      sample_signer_def sample_json_def sealed_sample_def nat_to_string_1 string_bytes_def comp_def)

theorem wire_request_checks_witness:
  "\<exists>w. try_from_bytes (sample_json sealed_sample) (string_bytes ''text'') = Ok w \<and>
    verify_signature sample_signer (wm_address w) (w\<lparr>wm_hash := [], wm_signature := []\<rparr>) (wm_signature w)
      = Ok False"
proof -
  have "json_from_slice (sample_json sealed_sample) (string_bytes ''text'') = Ok m"
    if "json_to_string (sample_json sealed_sample) m = Ok ''text''" for m
    using that by (auto simp: sample_json_def string_bytes_def split: if_splits)
  moreover have "to_lowercase ''0xCC'' \<noteq> to_lowercase wire_address"
    by (simp add: wire_address_def to_lowercase_def)
  ultimately show ?thesis
    using wire_request_checks [OF sample_signer_laws sealed_sample_request, of "[1, 2]"]
    by (auto simp: sample_signer_def)
qed

end
