(* ===== verification/Rpc_Link.thy ===== *)
theory Rpc_Link
  imports Websocket "HOL-Library.Multiset"
begin

text \<open>
  Two ends of one websocket (\<open>crates/websocket/src/lib.rs\<close>): the dispatcher and the operator run
  the same library, each with its own core, and the TCP stream between them delivers the frames
  that one end has sent to the other, in order and each once. Both ends make requests with
  \<open>request_timeout\<close> and hand incoming requests to their application, which answers through the
  \<open>WebsocketRespond\<close> it got with each of them. The steps are those of \<open>Websocket\<close>; what is
  added are the tasks in between: a request that is registered and not yet sent, and a request that
  was handed on and not yet answered.
\<close>

section \<open>What a frame says\<close>

fun frame_bytes :: "ws_frame \<Rightarrow> bytes option" where
  "frame_bytes (TextFrame s) = Some (string_bytes s)"
| "frame_bytes (BinaryFrame b) = Some b"
| "frame_bytes (PingFrame b) = None"
| "frame_bytes (PongFrame b) = None"
| "frame_bytes (CloseFrame s) = None"
| "frame_bytes RawFrame = None"

definition frame_message :: "'v ws_json \<Rightarrow> ws_frame \<Rightarrow> 'v wire_message option" where
  "frame_message J fr =
     (case frame_bytes fr of
        None \<Rightarrow> None
      | Some b \<Rightarrow> (case try_from_bytes J b of Ok w \<Rightarrow> Some w | _ \<Rightarrow> None))"

definition request_of :: "'v ws_json \<Rightarrow> ws_frame \<Rightarrow> (string \<times> string \<times> 'v) option" where
  "request_of J fr =
     (case frame_message J fr of
        None \<Rightarrow> None
      | Some w \<Rightarrow>
          (case (wm_method w, wm_params w) of
             (Some m, Some p) \<Rightarrow> Some (wm_id w, m, p)
           | _ \<Rightarrow> None))"

definition response_of :: "'v ws_json \<Rightarrow> ws_frame \<Rightarrow> (string \<times> 'v) option" where
  "response_of J fr =
     (case frame_message J fr of
        None \<Rightarrow> None
      | Some w \<Rightarrow>
          (case (wm_method w, wm_result w) of
             (None, Some v) \<Rightarrow> Some (wm_id w, v)
           | _ \<Rightarrow> None))"

text \<open>What \<open>serde_json\<close> documents: reading gives back what was written.\<close>

definition json_laws :: "'v ws_json \<Rightarrow> bool" where
  "json_laws J \<longleftrightarrow> (\<forall>m s. json_to_string J m = Ok s \<longrightarrow> json_from_slice J (string_bytes s) = Ok m)"

section \<open>One end\<close>

text \<open>
  \<open>ep_outgoing\<close> are the tasks between registration and send, \<open>ep_issued\<close> all requests with the
  channel their caller waits on, \<open>ep_drawn\<close> how often the static \<open>ID\<close> was increased, \<open>ep_taken\<close> how
  many frames of the other end were received; \<open>ep_pending\<close> are the requests the application
  holds, \<open>ep_answered\<close> those it has answered, with the value.
\<close>

record ('v, 'k) endpoint =
  ep_core :: "('v, 'k) ws_state"
  ep_outgoing :: "(ws_frame \<times> string \<times> nat) list"
  ep_issued :: "(string \<times> string \<times> 'v \<times> nat) list"
  ep_drawn :: nat
  ep_taken :: nat
  ep_pending :: "(string \<times> string \<times> 'v) list"
  ep_answered :: "(string \<times> string \<times> 'v \<times> 'v) list"

definition endpoint_init :: "'k \<Rightarrow> u64 \<Rightarrow> ('v, 'k) endpoint" where
  "endpoint_init key counter =
     \<lparr>ep_core = ws_split key counter, ep_outgoing = [], ep_issued = [], ep_drawn = 0, ep_taken = 0,
      ep_pending = [], ep_answered = []\<rparr>"

definition ep_sent :: "('v, 'k) endpoint \<Rightarrow> ws_frame list" where
  "ep_sent e = ws_sent (ep_core e)"

text \<open>\<open>request_timeout\<close>, up to the registration, and the send.\<close>

definition ep_request ::
  "('v wire_message, 'k, 's) signer_lib \<Rightarrow> 'v ws_json \<Rightarrow> string \<Rightarrow> 'v \<Rightarrow> ('v, 'k) endpoint \<Rightarrow>
   ('v, 'k) endpoint" where
  "ep_request L J f p e =
     (let e1 = e\<lparr>ep_drawn := ep_drawn e + (if ws_open (ep_core e) then 1 else 0)\<rparr>
      in case request_register L J (ep_core e) f p of
           (core, Ok (msg, rid, tok)) \<Rightarrow>
             e1\<lparr>ep_core := core, ep_outgoing := ep_outgoing e @ [(msg, rid, tok)],
                ep_issued := ep_issued e @ [(rid, f, p, tok)]\<rparr>
         | (core, _) \<Rightarrow> e1\<lparr>ep_core := core\<rparr>)"

definition ep_send :: "nat \<Rightarrow> (unit, ws_error) outcome \<Rightarrow> ('v, 'k) endpoint \<Rightarrow> ('v, 'k) endpoint" where
  "ep_send i res e =
     (case ep_outgoing e ! i of (msg, rid, tok) \<Rightarrow>
        e\<lparr>ep_core := fst (request_sent (ep_core e) msg rid res),
          ep_outgoing := take i (ep_outgoing e) @ drop (Suc i) (ep_outgoing e)\<rparr>)"

text \<open>The caller looks for its answer, which ends the registration when there is one.\<close>

definition ep_finish :: "string \<Rightarrow> nat \<Rightarrow> bool \<Rightarrow> ('v, 'k) endpoint \<Rightarrow> ('v, 'k) endpoint" where
  "ep_finish rid tok timed_out e =
     e\<lparr>ep_core := fst (request_finish (ep_core e) rid tok timed_out)\<rparr>"

text \<open>\<open>recv\<close> with the next frame of the other end; the application gets the request in it.\<close>

definition ep_receive ::
  "('v wire_message, 'k, 's) signer_lib \<Rightarrow> 'v ws_json \<Rightarrow> (unit, ws_error) outcome \<Rightarrow> ws_frame \<Rightarrow>
   ('v, 'k) endpoint \<Rightarrow> ('v, 'k) endpoint" where
  "ep_receive L J pong fr e =
     (case receive_item L J pong (ep_core e) (Item fr) of
        (core, Ok (Some (Request rid m p))) \<Rightarrow>
          e\<lparr>ep_core := core, ep_taken := ep_taken e + 1, ep_pending := ep_pending e @ [(rid, m, p)]\<rparr>
      | (core, _) \<Rightarrow> e\<lparr>ep_core := core, ep_taken := ep_taken e + 1\<rparr>)"

text \<open>The stream fails or ends.\<close>

definition ep_lost ::
  "('v wire_message, 'k, 's) signer_lib \<Rightarrow> 'v ws_json \<Rightarrow> stream_item \<Rightarrow> ('v, 'k) endpoint \<Rightarrow>
   ('v, 'k) endpoint" where
  "ep_lost L J it e = e\<lparr>ep_core := fst (receive_item L J (Ok ()) (ep_core e) it)\<rparr>"

text \<open>\<open>respond\<close> consumes the \<open>WebsocketRespond\<close>, whether the send succeeds or not.\<close>

definition ep_respond ::
  "('v wire_message, 'k, 's) signer_lib \<Rightarrow> 'v ws_json \<Rightarrow> nat \<Rightarrow> 'v \<Rightarrow> (unit, ws_error) outcome \<Rightarrow>
   ('v, 'k) endpoint \<Rightarrow> ('v, 'k) endpoint" where
  "ep_respond L J i v res e =
     (case ep_pending e ! i of (rid, m, p) \<Rightarrow>
        let e1 = e\<lparr>ep_pending := take i (ep_pending e) @ drop (Suc i) (ep_pending e)\<rparr>
        in case respond L J (ep_core e) rid v res of
             (core, Ok u) \<Rightarrow> e1\<lparr>ep_core := core, ep_answered := ep_answered e @ [(rid, m, p, v)]\<rparr>
           | (core, _) \<Rightarrow> e1\<lparr>ep_core := core\<rparr>)"

text \<open>The counter is a \<open>static\<close> of the process: its other connections draw from it too.\<close>

definition ep_elsewhere :: "('v, 'k) endpoint \<Rightarrow> ('v, 'k) endpoint" where
  "ep_elsewhere e =
     e\<lparr>ep_drawn := ep_drawn e + 1, ep_core := (ep_core e)\<lparr>ws_counter := ws_counter (ep_core e) + 1\<rparr>\<rparr>"

definition ep_close :: "('v, 'k) endpoint \<Rightarrow> ('v, 'k) endpoint" where
  "ep_close e = e\<lparr>ep_core := ws_close (ep_core e)\<rparr>"

text \<open>The steps of one end, given the frames the other end has sent.\<close>

inductive ep_step ::
  "('v wire_message, 'k, 's) signer_lib \<Rightarrow> 'v ws_json \<Rightarrow> ws_frame list \<Rightarrow> ('v, 'k) endpoint \<Rightarrow>
   ('v, 'k) endpoint \<Rightarrow> bool"
  for L J inbox where
  step_request: "ep_step L J inbox e (ep_request L J f p e)"
| step_send: "i < length (ep_outgoing e) \<Longrightarrow> ep_step L J inbox e (ep_send i res e)"
| step_done: "(rid, f, p, tok) \<in> set (ep_issued e) \<Longrightarrow>
    ep_step L J inbox e (ep_finish rid tok timed_out e)"
| step_frame: "ws_open (ep_core e) \<Longrightarrow> ep_taken e < length inbox \<Longrightarrow>
    ep_step L J inbox e (ep_receive L J pong (inbox ! ep_taken e) e)"
| step_lost: "it = EndOfStream \<or> (\<exists>err. it = StreamError err) \<Longrightarrow> ep_step L J inbox e (ep_lost L J it e)"
| step_answer: "i < length (ep_pending e) \<Longrightarrow> ep_step L J inbox e (ep_respond L J i v res e)"
| step_elsewhere: "ep_step L J inbox e (ep_elsewhere e)"
| step_shut: "ep_step L J inbox e (ep_close e)"

section \<open>Both ends\<close>

inductive link_reachable ::
  "('v wire_message, 'k, 's) signer_lib \<Rightarrow> 'v ws_json \<Rightarrow> ('v, 'k) endpoint \<Rightarrow> ('v, 'k) endpoint \<Rightarrow>
   ('v, 'k) endpoint \<Rightarrow> ('v, 'k) endpoint \<Rightarrow> bool"
  for L J a0 b0 where
  link_init: "link_reachable L J a0 b0 a0 b0"
| link_left: "link_reachable L J a0 b0 a b \<Longrightarrow> ep_step L J (ep_sent b) a a' \<Longrightarrow>
    link_reachable L J a0 b0 a' b"
| link_right: "link_reachable L J a0 b0 a b \<Longrightarrow> ep_step L J (ep_sent a) b b' \<Longrightarrow>
    link_reachable L J a0 b0 a b'"

section \<open>What one step does to a core\<close>

text \<open>
  Nothing is registered and nothing counted, and the only answer that can come in is
  \<open>ans\<close>, for the channel that waits under its id.
\<close>

definition quiet :: "(string \<times> 'v) option \<Rightarrow> ('v, 'k) ws_state \<Rightarrow> ('v, 'k) ws_state \<Rightarrow> bool" where
  "quiet ans st st' \<longleftrightarrow>
     ws_callbacks st' \<subseteq>\<^sub>m ws_callbacks st \<and> ws_counter st' = ws_counter st \<and>
     ws_next_oneshot st' = ws_next_oneshot st \<and>
     (\<forall>t v. ws_oneshots st' t = Some (Ok v) \<longrightarrow>
        ws_oneshots st t = Some (Ok v) \<or> (\<exists>rid. ans = Some (rid, v) \<and> ws_callbacks st rid = Some t))"

named_theorems quiet_intros "steps of a core that register nothing"

lemma quiet_same:
  "ws_callbacks st' = ws_callbacks st \<Longrightarrow> ws_counter st' = ws_counter st \<Longrightarrow>
   ws_next_oneshot st' = ws_next_oneshot st \<Longrightarrow> ws_oneshots st' = ws_oneshots st \<Longrightarrow> quiet ans st st'"
  by (simp add: quiet_def)

lemma quiet_refl [quiet_intros]: "quiet ans st st"
  by (simp add: quiet_same)

lemma quiet_trans: "quiet ans st st' \<Longrightarrow> quiet None st' st'' \<Longrightarrow> quiet ans st st''"
  unfolding quiet_def by (auto intro: map_le_trans)

lemma quiet_close [quiet_intros]: "quiet ans st (ws_close st)"
  by (simp add: quiet_def ws_close_def cb_close_def)

lemma quiet_drop [quiet_intros]: "quiet ans st (drop_callback st rid)"
  by (simp add: quiet_def drop_callback_def cb_remove_def map_le_def)

lemma quiet_close_if_err: "quiet ans st (fst q) \<Longrightarrow> quiet ans st (fst (close_if_err q))"
  by (cases q rule: close_if_err.cases) (auto intro: quiet_trans quiet_close)

lemma quiet_exec: "(\<And>c. quiet ans c (fst (f c))) \<Longrightarrow> quiet ans st (fst (exec st f))"
  by (simp add: exec_def quiet_refl quiet_close_if_err)

lemma quiet_sent: "quiet None st (fst (request_sent st msg rid res))"
  by (auto simp: request_sent_def split: outcome.splits
      intro: quiet_same quiet_drop quiet_trans [OF quiet_drop quiet_close])

lemma quiet_finish: "quiet None st (fst (request_finish st rid tok timed_out))"
  by (auto simp: request_finish_def intro: quiet_intros split: option.splits)

lemma quiet_respond: "quiet None st (fst (respond L J st rid s res))"
  unfolding respond_def
  by (rule quiet_exec) (auto intro: quiet_same split: outcome.splits)

lemma quiet_response:
  assumes "wm_method w = None"
  shows "quiet (case wm_result w of None \<Rightarrow> None | Some v \<Rightarrow> Some (wm_id w, v)) st (receive_response st w)"
  by (auto simp: receive_response_def cb_remove_def quiet_def map_le_def split: option.splits if_splits)

lemma receive_text_quiet:
  assumes "frame_bytes fr = Some b"
  shows "quiet (response_of J fr) st (fst (receive_text L J st b))"
  using assms quiet_response [of _ st]
  by (auto simp: receive_text_def response_of_def frame_message_def quiet_refl
      split: outcome.splits option.splits)

lemma quiet_receive: "quiet (response_of J fr) st (fst (receive_item L J pong st (Item fr)))"
  unfolding receive_item_def
  by (rule quiet_exec)
    (auto simp: receive_frame_def intro: quiet_same receive_text_quiet quiet_refl
      split: ws_frame.splits outcome.splits)

lemma quiet_receive_lost:
  "it = EndOfStream \<or> (\<exists>err. it = StreamError err) \<Longrightarrow>
   quiet None st (fst (receive_item L J pong st it))"
  unfolding receive_item_def
  by (rule quiet_exec) (auto simp: receive_frame_def intro: quiet_refl)

text \<open>The frames a step sends.\<close>

lemma sent_close [simp]: "ws_sent (ws_close st) = ws_sent st"
  by (simp add: ws_close_def)

lemma sent_drop [simp]: "ws_sent (drop_callback st rid) = ws_sent st"
  by (simp add: drop_callback_def)

lemma sent_close_if_err [simp]: "ws_sent (fst (close_if_err q)) = ws_sent (fst q)"
  by (cases q rule: close_if_err.cases) simp_all

lemma sent_exec: "(\<And>c. P (ws_sent (fst (f c))) (ws_sent c)) \<Longrightarrow> (\<And>xs. P xs xs) \<Longrightarrow>
    P (ws_sent (fst (exec st f))) (ws_sent st)"
  by (simp add: exec_def)

lemma sent_request:
  "ws_sent (fst (request_sent st msg rid res)) = ws_sent st @ (if res = Ok () then [msg] else [])"
  by (auto simp: request_sent_def split: outcome.splits)

lemma sent_finish [simp]: "ws_sent (fst (request_finish st rid tok timed_out)) = ws_sent st"
  by (simp add: request_finish_def split: option.splits)

lemma sent_response [simp]: "ws_sent (receive_response st w) = ws_sent st"
  by (simp add: receive_response_def cb_remove_def split: option.splits)

lemma sent_receive:
  "\<exists>ps. ws_sent (fst (receive_item L J pong st it)) = ws_sent st @ ps \<and> (\<forall>fr \<in> set ps. frame_bytes fr = None)"
  unfolding receive_item_def
  by (rule sent_exec [of "\<lambda>xs ys. \<exists>ps. xs = ys @ ps \<and> (\<forall>fr \<in> set ps. frame_bytes fr = None)"])
    (auto simp: receive_frame_def receive_text_def
      split: stream_item.splits ws_frame.splits outcome.splits option.splits)

lemma no_bytes_no_message: "frame_bytes fr = None \<Longrightarrow> request_of J fr = None \<and> response_of J fr = None"
  by (simp add: request_of_def response_of_def frame_message_def)

lemma sealed_message:
  assumes "json_laws J" "seal_message L J key m = Ok s"
  shows "\<exists>h sig. frame_message J (TextFrame s) = Some (m\<lparr>wm_hash := h, wm_signature := sig\<rparr>)"
proof -
  obtain h sig where "json_to_string J (m\<lparr>wm_hash := h, wm_signature := sig\<rparr>) = Ok s"
    using assms(2) by (auto simp: seal_message_def outcome_simps)
  then have "frame_message J (TextFrame s) = Some (m\<lparr>wm_hash := h, wm_signature := sig\<rparr>)"
    using assms(1) by (simp add: json_laws_def frame_message_def try_from_bytes_def)
  then show ?thesis by blast
qed

lemma request_frame:
  assumes "json_laws J" "wire_request L J counter f p key = Ok (msg, rid)"
  shows "request_of J msg = Some (rid, f, p) \<and> response_of J msg = None \<and>
    rid = nat_to_string (unat counter)"
proof -
  obtain s where s: "seal_message L J key (request_body counter f p) = Ok s" "msg = TextFrame s"
      "rid = nat_to_string (unat counter)"
    using assms(2) by (auto simp: wire_request_def outcome_simps)
  then show ?thesis
    using sealed_message [OF assms(1) s(1)]
    by (auto simp: request_of_def response_of_def request_body_def)
qed

lemma response_frame:
  assumes "json_laws J" "wire_response L J rid v key = Ok msg"
  shows "response_of J msg = Some (rid, v) \<and> request_of J msg = None"
proof -
  obtain s where s: "seal_message L J key (response_body rid v) = Ok s" "msg = TextFrame s"
    using assms(2) by (auto simp: wire_response_def outcome_simps)
  then show ?thesis
    using sealed_message [OF assms(1) s(1)]
    by (auto simp: request_of_def response_of_def response_body_def)
qed

lemma respond_cases:
  "respond L J st rid v res =
     (if \<not> ws_open st then (st, Err WebsocketClosed)
      else case wire_response L J rid v (ws_signer st) of
          Err e \<Rightarrow> (ws_close st, Err e)
        | Panic m \<Rightarrow> (st, Panic m)
        | Ok msg \<Rightarrow>
            (case res of
               Ok u \<Rightarrow> (st\<lparr>ws_sent := ws_sent st @ [msg]\<rparr>, Ok ())
             | Err e \<Rightarrow> (ws_close st, Err e)
             | Panic m \<Rightarrow> (st, Panic m)))"
  by (simp add: respond_def exec_def signer_def split: outcome.split)

lemma sent_respond_Ok:
  assumes "json_laws J" "respond L J st rid v res = (st', Ok u)"
  shows "\<exists>msg. ws_sent st' = ws_sent st @ [msg] \<and> response_of J msg = Some (rid, v) \<and>
    request_of J msg = None"
proof (cases "wire_response L J rid v (ws_signer st)")
  case (Ok msg)
  then have "ws_sent st' = ws_sent st @ [msg]"
    using assms(2) by (auto simp: respond_cases split: if_splits outcome.splits)
  then show ?thesis using response_frame [OF assms(1) Ok] by blast
qed (use assms(2) in \<open>simp_all add: respond_cases split: if_splits\<close>)

lemma sent_respond_fail:
  assumes "respond L J st rid v res = (st', r)" "r \<noteq> Ok ()"
  shows "ws_sent st' = ws_sent st"
  using assms by (auto simp: respond_cases split: if_splits outcome.splits)

text \<open>A successful registration.\<close>

lemma register_Ok:
  assumes "request_register L J st f p = (st', Ok (msg, rid, tok))"
  shows "ws_open st" and "tok = ws_next_oneshot st"
    and "wire_request L J (ws_counter st) f p (ws_signer st) = Ok (msg, rid)"
    and "st' = st\<lparr>ws_counter := ws_counter st + 1, ws_next_oneshot := ws_next_oneshot st + 1,
      ws_callbacks := (ws_callbacks st)(rid \<mapsto> ws_next_oneshot st)\<rparr>"
  using assms
  by (auto simp: request_register_def signer_def Let_def exec_def cb_insert_def
      split: if_splits outcome.splits)

lemma register_fail:
  assumes "request_register L J st f p = (st', r)" "\<And>x. r \<noteq> Ok x"
  shows "st' = st\<lparr>ws_counter := ws_counter st + (if ws_open st then 1 else 0)\<rparr>"
  using assms
  by (auto simp: request_register_def signer_def Let_def exec_def
      split: if_splits outcome.splits)

lemma close_if_err_Ok [simp]: "close_if_err q = (b, Ok x) \<longleftrightarrow> q = (b, Ok x)"
  by (cases q rule: close_if_err.cases) auto

lemma receive_request_of:
  assumes "receive_item L J pong st (Item fr) = (st', Ok (Some (Request rid m p)))"
  shows "request_of J fr = Some (rid, m, p)"
proof -
  have "wm_params w = Some p \<and> m' = m \<and> rid = wm_id w"
    if "receive_request L w m' = Ok (Some (Request rid m p))" for w m'
    using that
    by (auto simp: receive_request_def outcome_simps Let_def unwrap_option_def split: option.splits)
  then have "request_of J fr = Some (rid, m, p)"
    if "frame_bytes fr = Some b" "receive_text L J st b = (st', Ok (Some (Request rid m p)))" for b
    using that
    by (fastforce simp: receive_text_def request_of_def frame_message_def
        split: outcome.splits option.splits)
  then show ?thesis
    using assms
    by (cases fr; cases pong)
      (auto simp: receive_item_def exec_def receive_frame_def split: if_splits)
qed

section \<open>The invariant of one end\<close>

fun issue_key :: "string \<times> string \<times> 'v \<times> nat \<Rightarrow> string \<times> string \<times> 'v" where
  "issue_key (rid, f, p, tok) = (rid, f, p)"

fun answer_key :: "string \<times> string \<times> 'v \<times> 'v \<Rightarrow> string \<times> string \<times> 'v" where
  "answer_key (rid, f, p, v) = (rid, f, p)"

lemma issue_key_fst [simp]: "fst (issue_key q) = fst q"
  by (cases q rule: issue_key.cases) simp

text \<open>The ids are numbers of the counter, each drawn once.\<close>

definition ids_ok :: "u64 \<Rightarrow> ('v, 'k) endpoint \<Rightarrow> bool" where
  "ids_ok c0 e \<longleftrightarrow>
     ws_counter (ep_core e) = c0 + of_nat (ep_drawn e) \<and>
     (\<exists>ks. map fst (ep_issued e) = map (\<lambda>k. nat_to_string (unat (c0 + of_nat k))) ks \<and>
        distinct ks \<and> (\<forall>k \<in> set ks. k < ep_drawn e))"

definition toks_ok :: "('v, 'k) endpoint \<Rightarrow> bool" where
  "toks_ok e \<longleftrightarrow>
     distinct (map (snd \<circ> snd \<circ> snd) (ep_issued e)) \<and>
     (\<forall>(rid, f, p, tok) \<in> set (ep_issued e). tok < ws_next_oneshot (ep_core e)) \<and>
     (\<forall>rid tok. ws_callbacks (ep_core e) rid = Some tok \<longrightarrow> (\<exists>f p. (rid, f, p, tok) \<in> set (ep_issued e)))"

text \<open>
  The requests among the frames are requests of the application, each framed at most once, and
  every response that was sent is an answer of the application.
\<close>

definition frames_ok :: "'v ws_json \<Rightarrow> ('v, 'k) endpoint \<Rightarrow> bool" where
  "frames_ok J e \<longleftrightarrow>
     mset (List.map_filter (request_of J) (ep_sent e)) +
       mset (List.map_filter (request_of J) (map fst (ep_outgoing e))) \<subseteq>#
       mset (map issue_key (ep_issued e)) \<and>
     (\<forall>fr \<in> set (map fst (ep_outgoing e)). response_of J fr = None) \<and>
     (\<forall>fr \<in> set (ep_sent e). \<forall>rid v. response_of J fr = Some (rid, v) \<longrightarrow>
        (\<exists>f p. (rid, f, p, v) \<in> set (ep_answered e)))"

definition own_ok :: "'v ws_json \<Rightarrow> u64 \<Rightarrow> ('v, 'k) endpoint \<Rightarrow> bool" where
  "own_ok J c0 e \<longleftrightarrow> ids_ok c0 e \<and> toks_ok e \<and> frames_ok J e"

lemma ids_ok_keep:
  "ids_ok c0 e \<Longrightarrow> ep_issued e' = ep_issued e \<Longrightarrow> ep_drawn e' = ep_drawn e \<Longrightarrow>
   ws_counter (ep_core e') = ws_counter (ep_core e) \<Longrightarrow> ids_ok c0 e'"
  by (simp add: ids_ok_def)

lemma toks_ok_quiet:
  assumes "toks_ok e" "ep_issued e' = ep_issued e" "quiet ans (ep_core e) (ep_core e')"
  shows "toks_ok e'"
  using assms unfolding toks_ok_def quiet_def by (fastforce simp: map_le_def dom_def)

lemma frames_ok_more:
  assumes "frames_ok J e" "ep_sent e' = ep_sent e @ ps" "ep_outgoing e' = ep_outgoing e"
    "ep_issued e' = ep_issued e" "set (ep_answered e) \<subseteq> set (ep_answered e')"
    "\<And>fr. fr \<in> set ps \<Longrightarrow> request_of J fr = None"
    "\<And>fr rid v. fr \<in> set ps \<Longrightarrow> response_of J fr = Some (rid, v) \<Longrightarrow>
       \<exists>f p. (rid, f, p, v) \<in> set (ep_answered e')"
  shows "frames_ok J e'"
  using assms unfolding frames_ok_def by (simp add: map_filter_append map_filter_none) blast

lemma own_ok_quiet:
  assumes "own_ok J c0 e" "quiet ans (ep_core e) (ep_core e')" "ep_drawn e' = ep_drawn e"
    "ep_sent e' = ep_sent e @ ps" "ep_outgoing e' = ep_outgoing e"
    "ep_issued e' = ep_issued e" "set (ep_answered e) \<subseteq> set (ep_answered e')"
    "\<And>fr. fr \<in> set ps \<Longrightarrow> request_of J fr = None"
    "\<And>fr rid v. fr \<in> set ps \<Longrightarrow> response_of J fr = Some (rid, v) \<Longrightarrow>
       \<exists>f p. (rid, f, p, v) \<in> set (ep_answered e')"
  shows "own_ok J c0 e'"
proof -
  have "ids_ok c0 e'"
    by (rule ids_ok_keep [of c0 e]) (use assms in \<open>simp_all add: own_ok_def quiet_def\<close>)
  moreover have "toks_ok e'"
    by (rule toks_ok_quiet [OF _ assms(6,2)]) (use assms(1) in \<open>simp add: own_ok_def\<close>)
  moreover have "frames_ok J e'"
    by (rule frames_ok_more [OF _ assms(4-9)]) (use assms(1) in \<open>simp add: own_ok_def\<close>)
  ultimately show ?thesis by (simp add: own_ok_def)
qed

lemma own_ok_finish: "own_ok J c0 e \<Longrightarrow> own_ok J c0 (ep_finish rid tok timed_out e)"
  by (erule own_ok_quiet [where ps = "[]" and ans = None])
    (simp_all add: ep_finish_def ep_sent_def quiet_finish)

lemma own_ok_close: "own_ok J c0 e \<Longrightarrow> own_ok J c0 (ep_close e)"
  by (erule own_ok_quiet [where ps = "[]" and ans = None])
    (simp_all add: ep_close_def ep_sent_def quiet_close)

lemma receive_lost_sent:
  "it = EndOfStream \<or> (\<exists>err. it = StreamError err) \<Longrightarrow>
   ws_sent (fst (receive_item L J pong st it)) = ws_sent st"
  by (auto simp: receive_item_def exec_def receive_frame_def)

lemma own_ok_lost:
  "it = EndOfStream \<or> (\<exists>err. it = StreamError err) \<Longrightarrow> own_ok J c0 e \<Longrightarrow> own_ok J c0 (ep_lost L J it e)"
  by (rule own_ok_quiet [where ps = "[]" and ans = None])
    (auto simp: ep_lost_def ep_sent_def quiet_receive_lost receive_lost_sent)

text \<open>What receiving changes, in one equation.\<close>

fun handed_on :: "('v receive_message option, ws_error) outcome \<Rightarrow> (string \<times> string \<times> 'v) list" where
  "handed_on (Ok (Some (Request rid m p))) = [(rid, m, p)]"
| "handed_on r = []"

lemma ep_receive_eq:
  "ep_receive L J pong fr e =
     e\<lparr>ep_core := fst (receive_item L J pong (ep_core e) (Item fr)), ep_taken := ep_taken e + 1,
       ep_pending := ep_pending e @ handed_on (snd (receive_item L J pong (ep_core e) (Item fr)))\<rparr>"
  by (cases "receive_item L J pong (ep_core e) (Item fr)"; cases "snd (receive_item L J pong (ep_core e) (Item fr))" rule: handed_on.cases)
    (auto simp: ep_receive_def)

lemma own_ok_receive:
  assumes "own_ok J c0 e"
  shows "own_ok J c0 (ep_receive L J pong fr e)"
proof -
  obtain ps where "ws_sent (fst (receive_item L J pong (ep_core e) (Item fr))) = ws_sent (ep_core e) @ ps"
      "\<forall>fr \<in> set ps. frame_bytes fr = None"
    using sent_receive by blast
  then show ?thesis
    by (intro own_ok_quiet [where ps = ps and ans = "response_of J fr", OF assms])
      (auto simp: ep_receive_eq ep_sent_def quiet_receive no_bytes_no_message)
qed

lemma own_ok_respond:
  assumes "json_laws J" "own_ok J c0 e"
  shows "own_ok J c0 (ep_respond L J i v res e)"
proof -
  obtain rid m p where q: "ep_pending e ! i = (rid, m, p)" using prod_cases3 by blast
  obtain st r where r: "respond L J (ep_core e) rid v res = (st, r)" by fastforce
  then have quiet: "quiet None (ep_core e) st" using quiet_respond [of "ep_core e" L J rid v res] by simp
  show ?thesis
  proof (cases "\<exists>u. r = Ok u")
    case True
    then obtain msg where "ws_sent st = ws_sent (ep_core e) @ [msg]" "response_of J msg = Some (rid, v)"
        "request_of J msg = None"
      using sent_respond_Ok [OF assms(1)] r by blast
    then show ?thesis
      using True q r quiet
      by (intro own_ok_quiet [where ps = "[msg]" and ans = None, OF assms(2)])
        (auto simp: ep_respond_def ep_sent_def)
  next
    case False
    then have "r \<noteq> Ok ()" by blast
    then have "ws_sent st = ws_sent (ep_core e)" using sent_respond_fail [OF r] by simp
    then show ?thesis
      using False q r quiet
      by (intro own_ok_quiet [where ps = "[]" and ans = None, OF assms(2)])
        (cases r; simp add: ep_respond_def ep_sent_def)+
  qed
qed

lemma map_filter_remove_nth:
  assumes "i < length xs"
  shows "mset (List.map_filter f xs) =
    mset (List.map_filter f [xs ! i]) + mset (List.map_filter f (take i xs @ drop (Suc i) xs))"
  using arg_cong [OF id_take_nth_drop [OF assms], of "\<lambda>ys. mset (List.map_filter f ys)"]
  by (cases "f (xs ! i)") (simp_all add: map_filter_append List.map_filter_simps)

lemma ids_ok_register:
  assumes "ids_ok c0 e" "ws_counter (ep_core e') = ws_counter (ep_core e) + 1"
    "ep_drawn e' = ep_drawn e + 1"
    "ep_issued e' = ep_issued e @ [(nat_to_string (unat (ws_counter (ep_core e))), f, p, tok)]"
  shows "ids_ok c0 e'"
proof -
  obtain ks where ks: "map fst (ep_issued e) = map (\<lambda>k. nat_to_string (unat (c0 + of_nat k))) ks"
      "distinct ks" "\<forall>k \<in> set ks. k < ep_drawn e"
    using assms(1) by (auto simp: ids_ok_def)
  let ?ks = "ks @ [ep_drawn e]"
  have "map fst (ep_issued e') = map (\<lambda>k. nat_to_string (unat (c0 + of_nat k))) ?ks"
    using assms(1,4) ks(1) by (simp add: ids_ok_def)
  moreover have "distinct ?ks" "\<forall>k \<in> set ?ks. k < ep_drawn e'"
    using ks assms(3) by auto
  moreover have "ws_counter (ep_core e') = c0 + of_nat (ep_drawn e')"
    using assms(1-3) by (simp add: ids_ok_def)
  ultimately show ?thesis unfolding ids_ok_def by blast
qed

lemma ids_ok_drawn:
  "ids_ok c0 e \<Longrightarrow> ws_counter (ep_core e') = ws_counter (ep_core e) + of_nat n \<Longrightarrow>
   ep_drawn e' = ep_drawn e + n \<Longrightarrow> ep_issued e' = ep_issued e \<Longrightarrow> ids_ok c0 e'"
  unfolding ids_ok_def by (elim conjE exE, intro conjI exI) (auto intro: trans_less_add1)

lemma toks_ok_register:
  assumes "toks_ok e" "ws_next_oneshot (ep_core e') = ws_next_oneshot (ep_core e) + 1"
    "ws_callbacks (ep_core e') = (ws_callbacks (ep_core e))(rid \<mapsto> ws_next_oneshot (ep_core e))"
    "ep_issued e' = ep_issued e @ [(rid, f, p, ws_next_oneshot (ep_core e))]"
  shows "toks_ok e'"
  using assms by (fastforce simp: toks_ok_def less_Suc_eq split: if_splits)

lemma own_ok_elsewhere:
  assumes "own_ok J c0 e"
  shows "own_ok J c0 (ep_elsewhere e)"
  unfolding own_ok_def
proof (intro conjI)
  show "ids_ok c0 (ep_elsewhere e)"
    by (rule ids_ok_drawn [of c0 e _ 1]) (use assms in \<open>simp_all add: own_ok_def ep_elsewhere_def\<close>)
qed (use assms in \<open>simp_all add: own_ok_def toks_ok_def frames_ok_def ep_sent_def ep_elsewhere_def\<close>)

lemma ep_request_fail:
  assumes "\<And>x. snd (request_register L J (ep_core e) f p) \<noteq> Ok x"
  shows "ep_request L J f p e = (if ws_open (ep_core e) then ep_elsewhere e else e)"
proof -
  obtain st r where r: "request_register L J (ep_core e) f p = (st, r)" by fastforce
  have no: "r \<noteq> Ok x" for x using assms r by auto
  note st = register_fail [OF r no]
  show ?thesis
  proof (cases r)
    case (Ok x)
    then show ?thesis using no by blast
  qed (simp_all add: ep_request_def ep_elsewhere_def r st)
qed

lemma own_ok_request:
  assumes "json_laws J" "own_ok J c0 e"
  shows "own_ok J c0 (ep_request L J f p e)"
proof (cases "snd (request_register L J (ep_core e) f p)")
  case (Ok x)
  obtain msg rid tok where "x = (msg, rid, tok)" using prod_cases3 by blast
  with Ok obtain st where r: "request_register L J (ep_core e) f p = (st, Ok (msg, rid, tok))"
    by (metis prod.collapse)
  note reg = register_Ok [OF r]
  have fr: "request_of J msg = Some (rid, f, p)" "response_of J msg = None"
      "rid = nat_to_string (unat (ws_counter (ep_core e)))"
    using request_frame [OF assms(1) reg(3)] by simp_all
  have e': "ep_request L J f p e = e\<lparr>ep_drawn := ep_drawn e + 1, ep_core := st,
      ep_outgoing := ep_outgoing e @ [(msg, rid, tok)], ep_issued := ep_issued e @ [(rid, f, p, tok)]\<rparr>"
    using reg(1) by (simp add: ep_request_def r)
  have "ids_ok c0 (ep_request L J f p e)"
    by (rule ids_ok_register [where e = e and f = f and p = p and tok = tok])
      (use assms reg fr in \<open>simp_all add: own_ok_def e'\<close>)
  moreover have "toks_ok (ep_request L J f p e)"
    by (rule toks_ok_register [where e = e and rid = rid and f = f and p = p])
      (use assms reg in \<open>simp_all add: own_ok_def e'\<close>)
  moreover have "frames_ok J (ep_request L J f p e)"
    using assms reg fr
    by (simp add: own_ok_def frames_ok_def e' ep_sent_def map_filter_append List.map_filter_simps)
  ultimately show ?thesis by (simp add: own_ok_def)
qed (use assms in \<open>simp_all add: ep_request_fail own_ok_elsewhere\<close>)

lemma frames_ok_send:
  assumes ok: "frames_ok J e" and i: "i < length outs" "outs ! i = msg"
    and outs: "map fst (ep_outgoing e) = outs" "map fst (ep_outgoing e') = take i outs @ drop (Suc i) outs"
    and sent: "ep_sent e' = ep_sent e @ ms" "ms = [msg] \<or> ms = []"
    and same: "ep_issued e' = ep_issued e" "ep_answered e' = ep_answered e"
  shows "frames_ok J e'"
  unfolding frames_ok_def
proof (intro conjI)
  let ?f = "\<lambda>xs. mset (List.map_filter (request_of J) xs)"
  have "?f (ep_sent e') + ?f (map fst (ep_outgoing e')) \<subseteq># ?f (ep_sent e) + ?f (map fst (ep_outgoing e))"
    unfolding outs sent(1) map_filter_remove_nth [OF i(1)] i(2)
    using sent(2) by (auto simp: map_filter_append List.map_filter_simps)
  then show "?f (ep_sent e') + ?f (map fst (ep_outgoing e')) \<subseteq># mset (map issue_key (ep_issued e'))"
  proof (rule subset_mset.order_trans)
    show "?f (ep_sent e) + ?f (map fst (ep_outgoing e)) \<subseteq># mset (map issue_key (ep_issued e'))"
      using ok unfolding frames_ok_def same(1) by blast
  qed
  have none: "\<forall>fr \<in> set outs. response_of J fr = None"
    using ok outs(1) unfolding frames_ok_def by blast
  then show "\<forall>fr \<in> set (map fst (ep_outgoing e')). response_of J fr = None"
    unfolding outs(2) by (auto dest: in_set_takeD in_set_dropD)
  have "\<forall>fr \<in> set ms. response_of J fr = None"
    using none nth_mem [OF i(1)] i(2) sent(2) by auto
  moreover have "\<forall>fr \<in> set (ep_sent e). \<forall>rid v. response_of J fr = Some (rid, v) \<longrightarrow>
      (\<exists>f p. (rid, f, p, v) \<in> set (ep_answered e))"
    using ok unfolding frames_ok_def by blast
  ultimately show "\<forall>fr \<in> set (ep_sent e'). \<forall>rid v. response_of J fr = Some (rid, v) \<longrightarrow>
      (\<exists>f p. (rid, f, p, v) \<in> set (ep_answered e'))"
    unfolding sent(1) same(2) set_append by (metis UnE option.distinct(1))
qed

lemma own_ok_send:
  assumes "own_ok J c0 e" "i < length (ep_outgoing e)"
  shows "own_ok J c0 (ep_send i res e)"
proof -
  obtain msg rid tok where q: "ep_outgoing e ! i = (msg, rid, tok)" using prod_cases3 by blast
  let ?e' = "ep_send i res e"
  have e': "?e' = e\<lparr>ep_core := fst (request_sent (ep_core e) msg rid res),
      ep_outgoing := take i (ep_outgoing e) @ drop (Suc i) (ep_outgoing e)\<rparr>"
    by (simp add: ep_send_def q)
  have quiet: "quiet None (ep_core e) (ep_core ?e')" by (simp add: e' quiet_sent)
  have "ids_ok c0 ?e'"
    by (rule ids_ok_keep [of c0 e]) (use assms(1) quiet in \<open>auto simp: own_ok_def quiet_def e'\<close>)
  moreover have "toks_ok ?e'"
    by (rule toks_ok_quiet [OF _ _ quiet]) (use assms(1) in \<open>simp_all add: own_ok_def e'\<close>)
  moreover have "frames_ok J ?e'"
    by (rule frames_ok_send [where i = i and msg = msg and ms = "if res = Ok () then [msg] else []", OF _ _ _ refl])
      (use assms q in \<open>simp_all add: own_ok_def e' ep_sent_def sent_request take_map drop_map\<close>)
  ultimately show ?thesis by (simp add: own_ok_def)
qed

lemma own_ok_step: "ep_step L J inbox e e' \<Longrightarrow> json_laws J \<Longrightarrow> own_ok J c0 e \<Longrightarrow> own_ok J c0 e'"
  by (induction rule: ep_step.induct)
    (simp_all add: own_ok_request own_ok_send own_ok_finish own_ok_receive own_ok_lost own_ok_respond
      own_ok_close own_ok_elsewhere)

lemma own_ok_init: "own_ok J c0 (endpoint_init key c0)"
  by (simp add: own_ok_def ids_ok_def toks_ok_def frames_ok_def endpoint_init_def ws_split_def
      ep_sent_def List.map_filter_simps)

section \<open>What one end knows of the other\<close>

definition heard :: "'v ws_json \<Rightarrow> ('v, 'k) endpoint \<Rightarrow> ('v, 'k) endpoint \<Rightarrow> bool" where
  "heard J a b \<longleftrightarrow>
     ep_taken b \<le> length (ep_sent a) \<and>
     mset (ep_pending b) + mset (map answer_key (ep_answered b)) \<subseteq>#
       mset (List.map_filter (request_of J) (take (ep_taken b) (ep_sent a)))"

definition told :: "('v, 'k) endpoint \<Rightarrow> ('v, 'k) endpoint \<Rightarrow> bool" where
  "told a b \<longleftrightarrow>
     (\<forall>tok v. ws_oneshots (ep_core a) tok = Some (Ok v) \<longrightarrow>
        (\<exists>rid f p f' p'. (rid, f, p, tok) \<in> set (ep_issued a) \<and> (rid, f', p', v) \<in> set (ep_answered b)))"

definition grows :: "('v, 'k) endpoint \<Rightarrow> ('v, 'k) endpoint \<Rightarrow> bool" where
  "grows e e' \<longleftrightarrow>
     (\<exists>ps. ep_sent e' = ep_sent e @ ps) \<and> set (ep_issued e) \<subseteq> set (ep_issued e') \<and>
     set (ep_answered e) \<subseteq> set (ep_answered e')"

lemma grows_receive: "grows e (ep_receive L J pong fr e)"
  using sent_receive [of L J pong "ep_core e" "Item fr"]
  by (auto simp: ep_receive_eq ep_sent_def grows_def)

lemma grows_request: "grows e (ep_request L J f p e)"
proof (cases "snd (request_register L J (ep_core e) f p)")
  case (Ok x)
  obtain msg rid tok where "x = (msg, rid, tok)" using prod_cases3 by blast
  with Ok obtain st where r: "request_register L J (ep_core e) f p = (st, Ok (msg, rid, tok))"
    by (metis prod.collapse)
  then show ?thesis using register_Ok(4) [OF r] by (auto simp: ep_request_def ep_sent_def grows_def)
qed (simp_all add: ep_request_fail ep_elsewhere_def ep_sent_def grows_def)

lemma grows_send: "grows e (ep_send i res e)"
  by (cases "ep_outgoing e ! i") (auto simp: ep_send_def ep_sent_def sent_request grows_def)

text \<open>What answering changes, in one equation.\<close>

fun answered_with :: "(unit, ws_error) outcome \<Rightarrow> string \<times> string \<times> 'v \<Rightarrow> 'v \<Rightarrow> (string \<times> string \<times> 'v \<times> 'v) list" where
  "answered_with (Ok u) (rid, m, p) v = [(rid, m, p, v)]"
| "answered_with r q v = []"

lemma ep_respond_eq:
  "ep_respond L J i v res e =
     e\<lparr>ep_core := fst (respond L J (ep_core e) (fst (ep_pending e ! i)) v res),
       ep_pending := take i (ep_pending e) @ drop (Suc i) (ep_pending e),
       ep_answered := ep_answered e @
         answered_with (snd (respond L J (ep_core e) (fst (ep_pending e ! i)) v res)) (ep_pending e ! i) v\<rparr>"
proof -
  obtain rid m p where q: "ep_pending e ! i = (rid, m, p)" using prod_cases3 by blast
  obtain st r where r: "respond L J (ep_core e) rid v res = (st, r)" by fastforce
  then show ?thesis using q by (cases r) (simp_all add: ep_respond_def)
qed

lemma answered_with_key: "answered_with r q v = [] \<or> map answer_key (answered_with r q v) = [q]"
  by (cases "(r, q, v)" rule: answered_with.cases) simp_all

lemma sent_respond: "\<exists>ps. ws_sent (fst (respond L J st rid v res)) = ws_sent st @ ps"
  by (auto simp: respond_cases split: outcome.split)

lemma grows_respond: "grows e (ep_respond L J i v res e)"
  using sent_respond [of L J "ep_core e" "fst (ep_pending e ! i)" v res]
  by (simp add: ep_respond_eq ep_sent_def grows_def)

lemma step_grows: "ep_step L J inbox e e' \<Longrightarrow> grows e e'"
  by (induction rule: ep_step.induct)
    (simp_all add: grows_request grows_send grows_receive grows_respond,
      auto simp: grows_def ep_finish_def ep_lost_def ep_close_def ep_elsewhere_def ep_sent_def receive_lost_sent)

text \<open>The partner's steps keep what was heard and told.\<close>

lemma heard_sender:
  assumes "heard J a b" "ep_step L J inbox a a'"
  shows "heard J a' b"
proof -
  obtain ps where "ep_sent a' = ep_sent a @ ps" using step_grows [OF assms(2)] by (auto simp: grows_def)
  then show ?thesis using assms(1) by (simp add: heard_def)
qed

lemma told_answers: "told a b \<Longrightarrow> ep_step L J inbox b b' \<Longrightarrow> told a b'"
  using step_grows [of L J inbox b b'] unfolding told_def grows_def by blast

lemma heard_keep:
  "heard J a b \<Longrightarrow> ep_taken b' = ep_taken b \<Longrightarrow> ep_pending b' = ep_pending b \<Longrightarrow>
   ep_answered b' = ep_answered b \<Longrightarrow> heard J a b'"
  by (simp add: heard_def)

lemma heard_respond:
  assumes "heard J a b" "i < length (ep_pending b)"
  shows "heard J a (ep_respond L J i v res b)"
proof -
  let ?b = "ep_respond L J i v res b"
  obtain xs where xs: "ep_answered ?b = ep_answered b @ xs" "xs = [] \<or> map answer_key xs = [ep_pending b ! i]"
    using answered_with_key [of _ "ep_pending b ! i" v] by (simp add: ep_respond_eq)
  have "mset (ep_pending b) = mset (ep_pending ?b) + {#ep_pending b ! i#}"
    using arg_cong [OF id_take_nth_drop [OF assms(2)], of mset] by (simp add: ep_respond_eq)
  then have "mset (ep_pending ?b) + mset (map answer_key (ep_answered ?b)) \<subseteq>#
      mset (ep_pending b) + mset (map answer_key (ep_answered b))"
    using xs(1,2) by (auto simp flip: mset_map)
  moreover have "ep_taken ?b = ep_taken b" by (simp add: ep_respond_eq)
  ultimately show ?thesis using assms(1) unfolding heard_def by (auto intro: subset_mset.order_trans)
qed

lemma handed_on_framed:
  "mset (handed_on (snd (receive_item L J pong st (Item fr)))) \<subseteq>#
   mset (List.map_filter (request_of J) [fr])"
proof -
  let ?r = "snd (receive_item L J pong st (Item fr))"
  have "handed_on ?r = [] \<or> (\<exists>y. handed_on ?r = [y] \<and> request_of J fr = Some y)"
    by (cases ?r rule: handed_on.cases) (auto intro: receive_request_of [OF prod_eqI])
  then show ?thesis by (auto simp: List.map_filter_simps)
qed

lemma heard_receive:
  assumes "heard J a b" "ep_taken b < length (ep_sent a)"
  shows "heard J a (ep_receive L J pong (ep_sent a ! ep_taken b) b)"
proof -
  let ?fr = "ep_sent a ! ep_taken b"
  let ?r = "snd (receive_item L J pong (ep_core b) (Item ?fr))"
  have "mset (handed_on ?r) \<subseteq># mset (List.map_filter (request_of J) [?fr])"
    by (rule handed_on_framed)
  with assms(1) have "(mset (ep_pending b) + mset (map answer_key (ep_answered b))) + mset (handed_on ?r) \<subseteq>#
      mset (List.map_filter (request_of J) (take (ep_taken b) (ep_sent a))) +
      mset (List.map_filter (request_of J) [?fr])"
    unfolding heard_def by (blast intro: subset_mset.add_mono)
  moreover have "take (Suc (ep_taken b)) (ep_sent a) = take (ep_taken b) (ep_sent a) @ [?fr]"
    by (rule take_Suc_conv_app_nth [OF assms(2)])
  ultimately show ?thesis
    using assms(2) unfolding heard_def
    by (simp add: ep_receive_eq map_filter_append ac_simps del: mset_map)
qed

lemma heard_receiver:
  assumes "heard J a b" "ep_step L J (ep_sent a) b b'"
  shows "heard J a b'"
  using assms(2)
proof cases
  case (step_request f p)
  have "ep_taken b' = ep_taken b \<and> ep_pending b' = ep_pending b \<and> ep_answered b' = ep_answered b"
    unfolding step_request
    by (auto simp: ep_request_def Let_def split: prod.split outcome.split)
  then show ?thesis using heard_keep [OF assms(1)] by blast
next
  case (step_send i res)
  then show ?thesis
    using heard_keep [OF assms(1)] by (cases "ep_outgoing b ! i") (simp add: ep_send_def)
qed (use assms(1) heard_respond heard_receive in
  \<open>auto simp: ep_finish_def ep_lost_def ep_elsewhere_def ep_close_def intro: heard_keep\<close>)

text \<open>An answer comes in only through a frame of the partner.\<close>

lemma told_quiet:
  assumes "told a b" "quiet None (ep_core a) (ep_core a')" "set (ep_issued a) \<subseteq> set (ep_issued a')"
  shows "told a' b"
  using assms unfolding told_def quiet_def by (meson option.distinct(1) subsetD)

lemma told_receive:
  assumes "told a b" "toks_ok a" "frames_ok J b" "ep_taken a < length (ep_sent b)"
  shows "told (ep_receive L J pong (ep_sent b ! ep_taken a) a) b"
proof -
  let ?fr = "ep_sent b ! ep_taken a"
  let ?a = "ep_receive L J pong ?fr a"
  have "quiet (response_of J ?fr) (ep_core a) (ep_core ?a)" by (simp add: ep_receive_eq quiet_receive)
  moreover have "\<exists>f' p'. (rid, f', p', v) \<in> set (ep_answered b)" if "response_of J ?fr = Some (rid, v)" for rid v
    using assms(3) nth_mem [OF assms(4)] that unfolding frames_ok_def by blast
  moreover have "\<exists>f p. (rid, f, p, tok) \<in> set (ep_issued a)" if "ws_callbacks (ep_core a) rid = Some tok" for rid tok
    using assms(2) that unfolding toks_ok_def by blast
  moreover have "ep_issued ?a = ep_issued a" by (simp add: ep_receive_eq)
  ultimately show ?thesis
    using assms(1) unfolding told_def quiet_def by metis
qed

lemma quiet_told: "quiet None st st' \<Longrightarrow> ws_oneshots st' t = Some (Ok v) \<Longrightarrow> ws_oneshots st t = Some (Ok v)"
  by (auto simp: quiet_def)

lemma told_more:
  assumes "told a b" "ws_oneshots (ep_core a') = ws_oneshots (ep_core a)"
    "set (ep_issued a) \<subseteq> set (ep_issued a')"
  shows "told a' b"
  using assms unfolding told_def by (simp only:) blast

lemma told_request:
  assumes "told a b"
  shows "told (ep_request L J f p a) b"
proof (cases "snd (request_register L J (ep_core a) f p)")
  case (Ok x)
  obtain msg rid tok where "x = (msg, rid, tok)" using prod_cases3 by blast
  with Ok obtain st where r: "request_register L J (ep_core a) f p = (st, Ok (msg, rid, tok))"
    by (metis prod.collapse)
  have "ws_oneshots st = ws_oneshots (ep_core a)" using register_Ok(4) [OF r] by simp
  moreover have "ep_core (ep_request L J f p a) = st"
    "set (ep_issued a) \<subseteq> set (ep_issued (ep_request L J f p a))"
    using r by (auto simp: ep_request_def)
  ultimately show ?thesis by (intro told_more [OF assms]) simp_all
qed (use assms in \<open>simp_all add: ep_request_fail ep_elsewhere_def told_def\<close>)

lemma told_listener:
  assumes "told a b" "ep_step L J (ep_sent b) a a'" "own_ok J ca a" "own_ok J cb b"
  shows "told a' b"
  using assms(2)
proof cases
  case (step_send i res)
  have "quiet None (ep_core a) (ep_core a') \<and> ep_issued a' = ep_issued a"
    unfolding step_send by (cases "ep_outgoing a ! i") (simp add: ep_send_def quiet_sent)
  then show ?thesis by (intro told_quiet [OF assms(1)]) simp_all
next
  case (step_frame pong)
  show ?thesis
    unfolding step_frame(1)
    by (rule told_receive) (use assms step_frame(3) in \<open>simp_all add: own_ok_def\<close>)
qed (use told_quiet [OF assms(1), of a'] told_request [OF assms(1)] in
  \<open>simp_all add: ep_finish_def ep_lost_def ep_respond_eq ep_close_def ep_elsewhere_def
     quiet_finish quiet_receive_lost quiet_respond quiet_close\<close>,
  insert assms(1), simp_all add: told_def)

definition link_ok ::
  "'v ws_json \<Rightarrow> u64 \<Rightarrow> u64 \<Rightarrow> ('v, 'k) endpoint \<Rightarrow> ('v, 'k) endpoint \<Rightarrow> bool" where
  "link_ok J ca cb a b \<longleftrightarrow>
     own_ok J ca a \<and> own_ok J cb b \<and> heard J a b \<and> heard J b a \<and> told a b \<and> told b a"

lemma link_ok_sym: "link_ok J ca cb a b \<longleftrightarrow> link_ok J cb ca b a"
  by (auto simp: link_ok_def)

lemma link_ok_left:
  assumes "link_ok J ca cb a b" "ep_step L J (ep_sent b) a a'" "json_laws J"
  shows "link_ok J ca cb a' b"
  using assms own_ok_step [OF assms(2,3)] heard_sender [OF _ assms(2)] heard_receiver [OF _ assms(2)]
    told_listener [OF _ assms(2)] told_answers [OF _ assms(2)]
  unfolding link_ok_def by blast

lemma link_ok_reachable:
  assumes "link_reachable L J (endpoint_init ka ca) (endpoint_init kb cb) a b" "json_laws J"
  shows "link_ok J ca cb a b"
  using assms
proof (induction rule: link_reachable.induct)
  case link_init
  show ?case
    by (simp add: link_ok_def own_ok_init)
      (simp add: heard_def told_def endpoint_init_def ws_split_def)
next
  case (link_left a b a')
  then show ?case using link_ok_left by blast
next
  case (link_right a b b')
  then show ?case using link_ok_left link_ok_sym by metis
qed

lemma len64: "LENGTH(64) = 64"
  by simp

lemma ids_distinct:
  assumes "ids_ok c0 e" "ep_drawn e \<le> 2 ^ 64"
  shows "distinct (map fst (ep_issued e))"
proof -
  obtain ks where ks: "map fst (ep_issued e) = map (\<lambda>k. nat_to_string (unat (c0 + of_nat k))) ks"
      "distinct ks" "\<forall>k \<in> set ks. k < ep_drawn e"
    using assms(1) by (auto simp: ids_ok_def)
  have "j = k" if "j \<in> set ks" "k \<in> set ks" "nat_to_string (unat (c0 + of_nat j)) = nat_to_string (unat (c0 + of_nat k))"
    for j k
  proof -
    have "c0 + of_nat j = c0 + of_nat k"
      using that(3) unfolding nat_to_string_inject by (simp only: word_unat_eq_iff)
    then have eq: "(of_nat j :: u64) = of_nat k" by simp
    have "j < 2 ^ 64" "k < 2 ^ 64" using ks(3) that(1,2) assms(2) by fastforce+
    then have "unat (of_nat j :: u64) = j" "unat (of_nat k :: u64) = k"
      by (simp_all only: unsigned_of_nat take_bit_nat_eq_self len64 of_nat_id)
    then show ?thesis using eq by metis
  qed
  then show ?thesis unfolding ks(1) using ks(2) by (simp add: distinct_map inj_on_def)
qed

text \<open>The requests in the frames taken so far are requests of the sender's application.\<close>

lemma framed_issued:
  assumes "frames_ok J a"
  shows "mset (List.map_filter (request_of J) (take n (ep_sent a))) \<subseteq># mset (map issue_key (ep_issued a))"
proof -
  let ?f = "\<lambda>xs. mset (List.map_filter (request_of J) xs)"
  have "?f (ep_sent a) = ?f (take n (ep_sent a)) + ?f (drop n (ep_sent a))"
    by (metis append_take_drop_id map_filter_append mset_append)
  then have "?f (take n (ep_sent a)) \<subseteq># ?f (ep_sent a)" by simp
  then show ?thesis
    using assms unfolding frames_ok_def
    by (meson mset_subset_eq_add_left subset_mset.order_trans)
qed

text \<open>What the application of one end got are requests of the other, each once.\<close>

lemma handled_issued:
  assumes "heard J a b" "frames_ok J a"
  shows "mset (ep_pending b @ map answer_key (ep_answered b)) \<subseteq># mset (map issue_key (ep_issued a))"
  using assms(1) framed_issued [OF assms(2)] unfolding heard_def mset_append
  by (meson subset_mset.order_trans)

lemma sub_distinct:
  assumes "mset xs \<subseteq># mset ys" "distinct (map g ys)"
  shows "distinct (map g xs) \<and> set xs \<subseteq> set ys"
proof -
  obtain zs where zs: "mset ys = mset (xs @ zs)"
    using assms(1) by (metis ex_mset mset_append subset_mset.le_iff_add)
  then have "mset (map g ys) = mset (map g (xs @ zs))" by (simp only: mset_map)
  then have "distinct (map g (xs @ zs))" using assms(2) mset_eq_imp_distinct_iff by blast
  moreover have "set ys = set (xs @ zs)" using zs by (rule mset_eq_setD)
  ultimately show ?thesis by auto
qed

lemma distinct_keys_once:
  "distinct (map fst xs) \<Longrightarrow> q \<in> set xs \<Longrightarrow> length (filter (\<lambda>r. fst r = fst q) xs) = 1"
proof (induction xs)
  case (Cons x xs)
  then show ?case
    by (cases "q = x") (auto simp: filter_empty_conv image_iff)
qed simp

section \<open>One call, undisturbed\<close>

text \<open>
  \<open>request_timeout\<close> at one end, \<open>recv\<close> and \<open>respond\<close> at the other, and \<open>recv\<close> at the first,
  where every send succeeds.
\<close>

definition rpc_round ::
  "('v wire_message, 'k, 's) signer_lib \<Rightarrow> 'v ws_json \<Rightarrow> string \<Rightarrow> 'v \<Rightarrow> 'v \<Rightarrow>
   ('v, 'k) endpoint \<times> ('v, 'k) endpoint \<Rightarrow> ('v, 'k) endpoint \<times> ('v, 'k) endpoint" where
  "rpc_round L J f p v ab =
     (case ab of (a, b) \<Rightarrow>
        let a1 = ep_request L J f p a;
            a2 = ep_send (length (ep_outgoing a)) (Ok ()) a1;
            b1 = ep_receive L J (Ok ()) (ep_sent a2 ! ep_taken b) b;
            b2 = ep_respond L J (length (ep_pending b)) v (Ok ()) b1
        in (ep_receive L J (Ok ()) (ep_sent b2 ! ep_taken a2) a2, b2))"

text \<open>The two ends can make a call: both are open and nothing is under way.\<close>

definition link_idle :: "('v, 'k) endpoint \<Rightarrow> ('v, 'k) endpoint \<Rightarrow> bool" where
  "link_idle a b \<longleftrightarrow>
     ws_open (ep_core a) \<and> ws_open (ep_core b) \<and>
     ep_taken b = length (ep_sent a) \<and> ep_taken a = length (ep_sent b)"

lemma round_request:
  assumes "ws_open (ep_core a)" "seal_message L J (ws_signer (ep_core a)) (request_body (ws_counter (ep_core a)) f p) = Ok s"
  defines "rid \<equiv> nat_to_string (unat (ws_counter (ep_core a)))"
    and "tok \<equiv> ws_next_oneshot (ep_core a)"
  shows "ep_send (length (ep_outgoing a)) (Ok ()) (ep_request L J f p a) =
    a\<lparr>ep_drawn := ep_drawn a + 1, ep_issued := ep_issued a @ [(rid, f, p, tok)],
      ep_core := (ep_core a)\<lparr>ws_counter := ws_counter (ep_core a) + 1, ws_next_oneshot := tok + 1,
        ws_callbacks := (ws_callbacks (ep_core a))(rid \<mapsto> tok), ws_sent := ep_sent a @ [TextFrame s]\<rparr>\<rparr>"
  using assms(1,2)
  by (simp add: ep_request_def ep_send_def request_register_def signer_def wire_request_def exec_def
      cb_insert_def request_sent_def ep_sent_def rid_def tok_def Let_def)

lemma sealed_request_received:
  assumes "signer_laws L" "json_laws J" "ws_open st"
    and "seal_message L J key (request_body counter f p) = Ok s"
  shows "receive_item L J pong st (Item (TextFrame s)) =
    (st, Ok (Some (Request (nat_to_string (unat counter)) f p)))"
proof -
  let ?m = "request_body counter f p"
  obtain h t where ht: "generate_hash_str L ?m = Ok h" "sign_message L key ?m = Ok t"
      "json_to_string J (?m\<lparr>wm_hash := h, wm_signature := t\<rparr>) = Ok s"
    using assms(4) by (auto simp: seal_message_def outcome_simps)
  let ?w = "?m\<lparr>wm_hash := h, wm_signature := t\<rparr>"
  have tf: "try_from_bytes J (string_bytes s) = Ok ?w"
    using assms(2) ht(3) by (simp add: json_laws_def try_from_bytes_def)
  obtain vec where vec: "json_to_vec L ?m = Ok vec"
    using ht(1) by (auto simp: generate_hash_str_def outcome_simps)
  obtain sig where sig: "signature_from_str L t = Some sig"
      "recover_address_from_msg L sig vec = Some (key_address L key)"
    using sign_message_recovers [OF assms(1) vec, of key] ht(2) by auto
  have clone: "?w\<lparr>wm_hash := [], wm_signature := []\<rparr> = ?m" by (simp add: request_body_def)
  have "receive_request L ?w f = Ok (Some (Request (nat_to_string (unat counter)) f p))"
    using verify_signature_recovers [OF sig(1) vec sig(2)] ht(1)
    unfolding receive_request_def Let_def clone by (simp add: request_body_def)
  then show ?thesis
    using assms(3) tf
    by (simp add: receive_item_def receive_frame_def exec_def receive_text_def request_body_def)
qed

lemma sealed_response_received:
  assumes "json_laws J" "ws_open st" "seal_message L J key (response_body rid v) = Ok s"
    and "ws_callbacks st rid = Some tok"
  shows "receive_item L J pong st (Item (TextFrame s)) =
    (st\<lparr>ws_callbacks := (ws_callbacks st)(rid := None), ws_oneshots := (ws_oneshots st)(tok \<mapsto> Ok v)\<rparr>, Ok None)"
proof -
  obtain h t where "json_to_string J ((response_body rid v)\<lparr>wm_hash := h, wm_signature := t\<rparr>) = Ok s"
    using assms(3) by (auto simp: seal_message_def outcome_simps)
  then have "try_from_bytes J (string_bytes s) = Ok ((response_body rid v)\<lparr>wm_hash := h, wm_signature := t\<rparr>)"
    using assms(1) by (simp add: json_laws_def try_from_bytes_def)
  then show ?thesis
    using assms(2,4)
    by (simp add: receive_item_def receive_frame_def exec_def receive_text_def response_body_def
        receive_response_def cb_remove_def)
qed

lemma round_answer:
  assumes "signer_laws L" "json_laws J" "ws_open (ep_core b)"
    and "seal_message L J key (request_body counter f p) = Ok s"
    and "seal_message L J (ws_signer (ep_core b)) (response_body (nat_to_string (unat counter)) v) = Ok t"
  shows "ep_respond L J (length (ep_pending b)) v (Ok ()) (ep_receive L J (Ok ()) (TextFrame s) b) =
    b\<lparr>ep_core := (ep_core b)\<lparr>ws_sent := ep_sent b @ [TextFrame t]\<rparr>, ep_taken := ep_taken b + 1,
      ep_answered := ep_answered b @ [(nat_to_string (unat counter), f, p, v)]\<rparr>"
proof -
  let ?rid = "nat_to_string (unat counter)"
  have recv: "ep_receive L J (Ok ()) (TextFrame s) b =
      b\<lparr>ep_taken := ep_taken b + 1, ep_pending := ep_pending b @ [(?rid, f, p)]\<rparr>"
    by (simp add: ep_receive_eq sealed_request_received [OF assms(1-4)])
  have "respond L J (ep_core b) ?rid v (Ok ()) = ((ep_core b)\<lparr>ws_sent := ep_sent b @ [TextFrame t]\<rparr>, Ok ())"
    using assms(3,5) by (simp add: respond_cases wire_response_def ep_sent_def)
  then show ?thesis by (simp add: recv ep_respond_def)
qed

lemma round_result:
  assumes "signer_laws L" "json_laws J" "link_idle a b"
    and req: "seal_message L J (ws_signer (ep_core a)) (request_body (ws_counter (ep_core a)) f p) = Ok s"
    and resp: "seal_message L J (ws_signer (ep_core b)) (response_body rid v) = Ok t"
    and rid: "rid = nat_to_string (unat (ws_counter (ep_core a)))"
    and tok: "tok = ws_next_oneshot (ep_core a)"
    and fin: "rpc_round L J f p v (a, b) = (a', b')"
  shows "ep_issued a' = ep_issued a @ [(rid, f, p, tok)] \<and> ep_drawn a' = ep_drawn a + 1 \<and>
    ep_answered b' = ep_answered b @ [(rid, f, p, v)] \<and>
    ws_oneshots (ep_core a') = (ws_oneshots (ep_core a))(tok \<mapsto> Ok v) \<and> link_idle a' b'"
proof -
  define a2 where "a2 = ep_send (length (ep_outgoing a)) (Ok ()) (ep_request L J f p a)"
  note idle = assms(3) [unfolded link_idle_def]
  have a2: "a2 = a\<lparr>ep_drawn := ep_drawn a + 1, ep_issued := ep_issued a @ [(rid, f, p, tok)],
      ep_core := (ep_core a)\<lparr>ws_counter := ws_counter (ep_core a) + 1, ws_next_oneshot := tok + 1,
        ws_callbacks := (ws_callbacks (ep_core a))(rid \<mapsto> tok), ws_sent := ep_sent a @ [TextFrame s]\<rparr>\<rparr>"
    unfolding a2_def rid tok using idle req by (intro round_request) simp_all
  have frame: "ep_sent a2 ! ep_taken b = TextFrame s" using idle by (simp add: a2 ep_sent_def)
  have fin': "b' = ep_respond L J (length (ep_pending b)) v (Ok ()) (ep_receive L J (Ok ()) (ep_sent a2 ! ep_taken b) b)"
      "a' = ep_receive L J (Ok ()) (ep_sent b' ! ep_taken a2) a2"
    using fin by (simp_all only: rpc_round_def Let_def a2_def prod.case prod.inject) auto
  have b': "b' = b\<lparr>ep_core := (ep_core b)\<lparr>ws_sent := ep_sent b @ [TextFrame t]\<rparr>,
      ep_taken := ep_taken b + 1, ep_answered := ep_answered b @ [(rid, f, p, v)]\<rparr>"
    unfolding fin'(1) frame rid using idle resp [unfolded rid]
    by (simp only: round_answer [OF assms(1,2) _ req])
  have "ep_sent b' ! ep_taken a2 = TextFrame t" using idle by (simp add: b' a2 ep_sent_def)
  then have a': "a' = ep_receive L J (Ok ()) (TextFrame t) a2"
    using fin'(2) by simp
  have recv: "receive_item L J (Ok ()) (ep_core a2) (Item (TextFrame t)) =
      ((ep_core a2)\<lparr>ws_callbacks := (ws_callbacks (ep_core a2))(rid := None),
        ws_oneshots := (ws_oneshots (ep_core a2))(tok \<mapsto> Ok v)\<rparr>, Ok None)"
    using idle by (intro sealed_response_received [OF assms(2) _ resp]) (simp_all add: a2)
  show ?thesis
    using idle unfolding a' b' ep_receive_eq recv by (simp add: a2 link_idle_def ep_sent_def)
qed

lemma round_reachable:
  assumes "link_reachable L J a0 b0 a b" "link_idle a b" "signer_laws L" "json_laws J"
    and req: "seal_message L J (ws_signer (ep_core a)) (request_body (ws_counter (ep_core a)) f p) = Ok s"
    and resp: "seal_message L J (ws_signer (ep_core b)) (response_body (nat_to_string (unat (ws_counter (ep_core a)))) v) = Ok t"
  shows "link_reachable L J a0 b0 (fst (rpc_round L J f p v (a, b))) (snd (rpc_round L J f p v (a, b)))"
proof -
  note idle = assms(2) [unfolded link_idle_def]
  let ?a1 = "ep_request L J f p a"
  define a2 where "a2 = ep_send (length (ep_outgoing a)) (Ok ()) ?a1"
  note a2 = round_request [OF conjunct1 [OF idle] req, folded a2_def]
  have out: "length (ep_outgoing a) < length (ep_outgoing ?a1)"
    using idle req by (simp add: ep_request_def request_register_def signer_def wire_request_def exec_def Let_def)
  have r2: "link_reachable L J a0 b0 a2 b"
    unfolding a2_def
    by (rule link_left [OF link_left [OF assms(1) step_request] step_send [OF out]])
  let ?b1 = "ep_receive L J (Ok ()) (ep_sent a2 ! ep_taken b) b"
  have frame: "ep_sent a2 ! ep_taken b = TextFrame s" "ep_taken b < length (ep_sent a2)"
    using idle by (simp_all add: a2 ep_sent_def)
  have pend: "length (ep_pending b) < length (ep_pending ?b1)"
    using idle sealed_request_received [OF assms(3,4) _ req] unfolding frame(1) by (simp add: ep_receive_eq)
  let ?b2 = "ep_respond L J (length (ep_pending b)) v (Ok ()) ?b1"
  have r4: "link_reachable L J a0 b0 a2 ?b2"
    using idle by (intro link_right [OF link_right [OF r2 step_frame [OF _ frame(2)]] step_answer [OF pend]]) simp
  have "ep_sent ?b2 = ep_sent b @ [TextFrame t]"
    unfolding frame(1) using round_answer [OF assms(3,4) _ req resp] idle by (simp add: ep_sent_def)
  then have "ws_open (ep_core a2)" "ep_taken a2 < length (ep_sent ?b2)"
    using idle by (simp_all add: a2)
  from link_left [OF r4 step_frame [OF this]] show ?thesis
    by (simp add: rpc_round_def Let_def a2_def)
qed

text \<open>The answer in a channel is that of the other application, and it holds the request once.\<close>

lemma answer_agrees:
  assumes "link_ok J ca cb a b" "ep_drawn a \<le> 2 ^ 64"
    and "(rid, f, p, tok) \<in> set (ep_issued a)" "ws_oneshots (ep_core a) tok = Some (Ok v)"
  shows "(rid, f, p, v) \<in> set (ep_answered b)"
    and "distinct (map fst (ep_pending b @ map answer_key (ep_answered b)))"
proof -
  have ok: "own_ok J ca a" "heard J a b" "told a b"
    using assms(1) by (simp_all add: link_ok_def)
  let ?handled = "ep_pending b @ map answer_key (ep_answered b)"
  have ids: "distinct (map fst (ep_issued a))"
    using ids_distinct [OF _ assms(2)] ok(1) by (auto simp: own_ok_def)
  obtain rid' f0 p0 f' p' where 1: "(rid', f0, p0, tok) \<in> set (ep_issued a)"
      "(rid', f', p', v) \<in> set (ep_answered b)"
    using ok(3) assms(4) unfolding told_def by blast
  have "rid' = rid"
    using ok(1) 1(1) assms(3) by (force simp: own_ok_def toks_ok_def distinct_map inj_on_def)
  have sub: "mset ?handled \<subseteq># mset (map issue_key (ep_issued a))"
    using handled_issued [OF ok(2)] ok(1) by (simp add: own_ok_def)
  moreover have "distinct (map fst (map issue_key (ep_issued a)))"
    using ids by (simp add: comp_def issue_key_fst)
  ultimately have once: "distinct (map fst ?handled)" "set ?handled \<subseteq> set (map issue_key (ep_issued a))"
    using sub_distinct by blast+
  have ans: "(rid, f', p', v) \<in> set (ep_answered b)" using 1(2) \<open>rid' = rid\<close> by simp
  then have mem: "(rid, f', p') \<in> set ?handled" by force
  obtain q where "q \<in> set (ep_issued a)" "issue_key q = (rid, f', p')"
    using subsetD [OF once(2) mem] unfolding set_map by (elim imageE) simp
  then obtain tok' where "(rid, f', p', tok') \<in> set (ep_issued a)"
    by (cases q rule: issue_key.cases) simp
  from eq_key_imp_eq_value [OF ids this assms(3)] have "f' = f" "p' = p" by simp_all
  then show "(rid, f, p, v) \<in> set (ep_answered b)" using ans by simp
  show "distinct (map fst ?handled)" by (rule once(1))
qed

section \<open>Sample call\<close>

definition sealed_call :: "string \<Rightarrow> nat wire_message" where
  "sealed_call f = (request_body 1 f 3)
     \<lparr>wm_hash := wm_hash sealed_sample, wm_signature := ''0xCC''\<rparr>"

definition sealed_answer :: "nat wire_message" where
  "sealed_answer = (response_body ''1'' 5)
     \<lparr>wm_hash := wm_hash sealed_sample, wm_signature := ''0xCC''\<rparr>"

text \<open>A writer and reader of the two messages of the call.\<close>

definition call_json :: "string \<Rightarrow> nat ws_json" where
  "call_json f =
     \<lparr>json_from_slice = (\<lambda>b. if b = string_bytes ''q'' then Ok (sealed_call f)
        else if b = string_bytes ''r'' then Ok sealed_answer else Err ''eof''),
      json_to_string = (\<lambda>m. if m = sealed_call f then Ok ''q''
        else if m = sealed_answer then Ok ''r'' else Err ''other'')\<rparr>"

lemma call_json_laws: "json_laws (call_json f)"
  by (simp add: json_laws_def call_json_def string_bytes_def)

definition sample_caller :: "(nat, string) endpoint" where
  "sample_caller = endpoint_init ''0xCC'' 1"

lemma sample_seals:
  "seal_message sample_signer (call_json f) ''0xCC'' (request_body 1 f 3) = Ok ''q''"
  "seal_message sample_signer (call_json f) ''0xCC'' (response_body ''1'' 5) = Ok ''r''"
  by (simp_all add: seal_message_def generate_hash_str_def sign_message_def sample_signer_def
      call_json_def sealed_call_def sealed_sample_def sealed_answer_def string_bytes_def comp_def
      request_body_def response_body_def)

lemma sample_idle:
  "link_idle sample_caller sample_caller"
  "ws_signer (ep_core sample_caller) = ''0xCC''" "ws_counter (ep_core sample_caller) = 1"
  "ws_next_oneshot (ep_core sample_caller) = 0" "ep_issued sample_caller = []"
  "ep_answered sample_caller = []"
  by (simp_all add: link_idle_def sample_caller_def endpoint_init_def ws_split_def ep_sent_def)

definition sample_round :: "string \<Rightarrow> (nat, string) endpoint \<times> (nat, string) endpoint" where
  "sample_round f = rpc_round sample_signer (call_json f) f 3 5 (sample_caller, sample_caller)"

lemma sample_call_seals:
  "seal_message sample_signer (call_json f) (ws_signer (ep_core sample_caller))
     (request_body (ws_counter (ep_core sample_caller)) f 3) = Ok ''q''"
  "seal_message sample_signer (call_json f) (ws_signer (ep_core sample_caller))
     (response_body (nat_to_string (unat (ws_counter (ep_core sample_caller)))) 5) = Ok ''r''"
  by (simp_all only: sample_idle sample_seals nat_to_string_1 unat_1 One_nat_def)

lemma sample_round_reachable:
  "link_reachable sample_signer (call_json f) sample_caller sample_caller (fst (sample_round f)) (snd (sample_round f))"
  unfolding sample_round_def
  by (rule round_reachable [OF link_init sample_idle(1) sample_signer_laws call_json_laws sample_call_seals])

lemma sample_round_result:
  "ep_issued (fst (sample_round f)) = [(''1'', f, 3, 0)] \<and> ep_drawn (fst (sample_round f)) = 1 \<and>
   ws_oneshots (ep_core (fst (sample_round f))) 0 = Some (Ok 5)"
proof -
  have rid: "nat_to_string (unat (ws_counter (ep_core sample_caller))) = ''1''"
    by (simp only: sample_idle nat_to_string_1 unat_1 One_nat_def)
  have drawn: "ep_drawn sample_caller = 0" by (simp add: sample_caller_def endpoint_init_def)
  have "rpc_round sample_signer (call_json f) f 3 5 (sample_caller, sample_caller) =
      (fst (sample_round f), snd (sample_round f))"
    by (simp add: sample_round_def)
  from round_result [OF sample_signer_laws call_json_laws sample_idle(1) sample_call_seals refl refl this]
  show ?thesis unfolding rid sample_idle drawn by (simp add: nat_to_string_1)
qed

section \<open>Properties\<close>

text \<open>C11. What a caller gets over a connection is what the other application answered to this very
  request: if the channel of a request holds a value, the other end was handed exactly this method
  and these parameters under its id, answered them once and with this value, and holds no second
  copy of the request. This holds for every interleaving of requests, sends, timeouts, losses and
  closing at both ends, as long as the process has drawn at most \<open>2 ^ 64\<close> ids.\<close>

theorem rpc_agreement:
  assumes "link_reachable L J (endpoint_init ka ca) (endpoint_init kb cb) a b" "json_laws J"
    and "ep_drawn a \<le> 2 ^ 64"
    and "(rid, f, p, tok) \<in> set (ep_issued a)" "ws_oneshots (ep_core a) tok = Some (Ok v)"
  shows "(rid, f, p, v) \<in> set (ep_answered b) \<and>
    length (filter (\<lambda>q. fst q = rid) (ep_pending b @ map answer_key (ep_answered b))) = 1"
proof -
  have ok: "link_ok J ca cb a b" by (rule link_ok_reachable [OF assms(1,2)])
  note ans = answer_agrees(1) [OF ok assms(3-5)]
  then have "(rid, f, p) \<in> set (ep_pending b @ map answer_key (ep_answered b))" by force
  from distinct_keys_once [OF answer_agrees(2) [OF ok assms(3-5)] this] ans show ?thesis by simp
qed

theorem rpc_agreement_witness:
  "(''1'', ''connect'', 3, 5) \<in> set (ep_answered (snd (sample_round ''connect'')))"
  using rpc_agreement [OF sample_round_reachable [of "''connect''", unfolded sample_caller_def] call_json_laws _,
      of "''1''" "''connect''" 3 0 5] sample_round_result [of "''connect''"]
  by simp

text \<open>C12. A call comes to an end: whenever both ends are open and nothing is under way, there is a
  run in which the request reaches the other application, its answer comes back into the
  channel of the caller, and the connection is again as ready as before.\<close>

theorem rpc_completes:
  assumes "link_reachable L J a0 b0 a b" "link_idle a b" "signer_laws L" "json_laws J"
    and "seal_message L J (ws_signer (ep_core a)) (request_body (ws_counter (ep_core a)) f p) = Ok s"
    and "seal_message L J (ws_signer (ep_core b))
      (response_body (nat_to_string (unat (ws_counter (ep_core a)))) v) = Ok t"
  shows "\<exists>a' b' rid tok. link_reachable L J a0 b0 a' b' \<and> link_idle a' b' \<and>
    ep_issued a' = ep_issued a @ [(rid, f, p, tok)] \<and>
    ep_answered b' = ep_answered b @ [(rid, f, p, v)] \<and>
    request_poll (ep_core a') tok timed_out = Some (Ok v)"
proof -
  obtain a' b' where fin: "rpc_round L J f p v (a, b) = (a', b')" by fastforce
  then have "link_reachable L J a0 b0 a' b'"
    using round_reachable [OF assms] by simp
  moreover note round_result [OF assms(3,4,2,5,6) refl refl fin]
  ultimately show ?thesis by (intro exI [of _ a'] exI [of _ b']) (auto simp: request_poll_def)
qed

theorem rpc_completes_witness:
  "\<exists>a b tok. link_reachable sample_signer (call_json ''connect'') sample_caller sample_caller a b \<and>
     request_poll (ep_core a) tok False = Some (Ok 5)"
  using rpc_completes [OF link_init sample_idle(1) sample_signer_laws call_json_laws sample_call_seals, where timed_out = False]
  by blast

end
