(* ===== verification/Ws_Endpoints.thy ===== *)
theory Ws_Endpoints
  imports Rpc_Link
begin

text \<open>
  Where the two ends of \<open>Rpc_Link\<close> come from, and the calls a user makes on them
  (\<open>crates/websocket/src/lib.rs\<close>): binding a listener, \<open>accept\<close> and \<open>connect\<close>, the sender with its
  default time-out, \<open>request_timeout\<close> from end to end, \<open>recv\<close>, and the echo server \<open>listening\<close>. The
  TCP stack and the websocket handshake are parameters.
\<close>

section \<open>Set-up\<close>

record ('l, 't, 'w) tcp_lib =
  tcp_bind :: "string \<Rightarrow> ('l, string) outcome"
  tcp_local_addr :: "'l \<Rightarrow> (string, string) outcome"
  tcp_accept :: "'l \<Rightarrow> ('t \<times> string, string) outcome"
  tcp_connect :: "string \<Rightarrow> ('t, string) outcome"
  tcp_peer_addr :: "'t \<Rightarrow> (string, string) outcome"
  accept_with_config :: "'t \<Rightarrow> u64 option \<times> u64 option \<Rightarrow> ('w, string) outcome"
  client_with_config :: "string \<Rightarrow> 't \<Rightarrow> u64 option \<times> u64 option \<Rightarrow> ('w, string) outcome"

record 'l websocket_listener =
  wl_config :: websocket_config
  wl_listener :: 'l

text \<open>
  The pair of sender and receiver: both hold the core, the sender the default time-out in seconds,
  the receiver the address of the peer. The task the receiver spawns does nothing.
\<close>

record ('v, 'k, 'w) ws_pair =
  wp_core :: "('v, 'k) ws_state"
  wp_stream :: 'w
  wp_timeout :: nat
  wp_peer :: string

definition split_stream ::
  "u64 \<Rightarrow> 'w \<Rightarrow> nat \<Rightarrow> string \<Rightarrow> 'k \<Rightarrow> (('v, 'k, 'w) ws_pair, ws_error) outcome" where
  "split_stream counter stream timeout peer key =
     Ok \<lparr>wp_core = ws_split key counter, wp_stream = stream, wp_timeout = timeout, wp_peer = peer\<rparr>"

definition peer_addr :: "('v, 'k, 'w) ws_pair \<Rightarrow> string" where
  "peer_addr wp = wp_peer wp"

definition local_addr :: "('l, 't, 'w) tcp_lib \<Rightarrow> 'l websocket_listener \<Rightarrow> (string, ws_error) outcome" where
  "local_addr T wl = and_then (map_err WsIOError (tcp_local_addr T (wl_listener wl))) (\<lambda>addr. Ok addr)"

definition bind_listener ::
  "('l, 't, 'w) tcp_lib \<Rightarrow> websocket_config \<Rightarrow> string \<Rightarrow> ('l websocket_listener, ws_error) outcome" where
  "bind_listener T config addr =
     and_then (map_err WsIOError (tcp_bind T addr)) (\<lambda>listener.
     and_then (map_err WsIOError (tcp_local_addr T listener)) (\<lambda>_.
       Ok \<lparr>wl_config = config, wl_listener = listener\<rparr>))"

definition accept ::
  "('l, 't, 'w) tcp_lib \<Rightarrow> u64 \<Rightarrow> 'l websocket_listener \<Rightarrow> 'k \<Rightarrow>
   (('v, 'k, 'w) ws_pair, ws_error) outcome" where
  "accept T counter wl key =
     and_then (map_err WsIOError (tcp_accept T (wl_listener wl))) (\<lambda>(stream, addr).
     and_then (map_err TungsteniteError
                 (accept_with_config T stream (to_tungstenite (wl_config wl)))) (\<lambda>ws.
       split_stream counter ws (default_request_timeout (wl_config wl)) addr key))"

definition connect ::
  "('l, 't, 'w) tcp_lib \<Rightarrow> u64 \<Rightarrow> websocket_config \<Rightarrow> string \<Rightarrow> 'k \<Rightarrow>
   (('v, 'k, 'w) ws_pair, ws_error) outcome" where
  "connect T counter config addr key =
     and_then (map_err WsIOError (tcp_connect T addr)) (\<lambda>stream.
     and_then (map_err WsIOError (tcp_peer_addr T stream)) (\<lambda>peer.
     let url = ''ws://'' @ addr @ ''/ws'' in
     and_then (map_err TungsteniteError (client_with_config T url stream (to_tungstenite config)))
       (\<lambda>ws. split_stream counter ws (default_request_timeout config) peer key)))"

section \<open>Calls\<close>

definition sender_signer :: "('v, 'k, 'w) ws_pair \<Rightarrow> ('k, ws_error) outcome" where
  "sender_signer wp = signer (wp_core wp)"

text \<open>
  \<open>request_timeout\<close> as one call: registration, send, wait. What the other tasks do to the core while
  this one waits for the sink and for the answer are \<open>m1\<close> and \<open>m2\<close>; \<open>sink\<close> is the result of the send
  within the given seconds, \<open>elapsed\<close> tells whether these are over when the task looks for its
  answer. The result is \<open>None\<close> when it goes on waiting.
\<close>

definition request_timeout ::
  "('v wire_message, 'k, 's) signer_lib \<Rightarrow> 'v ws_json \<Rightarrow>
   (('v, 'k) ws_state \<Rightarrow> ('v, 'k) ws_state) \<Rightarrow> (('v, 'k) ws_state \<Rightarrow> ('v, 'k) ws_state) \<Rightarrow>
   (ws_frame \<Rightarrow> nat \<Rightarrow> (unit, ws_error) outcome) \<Rightarrow> (nat \<Rightarrow> bool) \<Rightarrow>
   ('v, 'k) ws_state \<Rightarrow> string \<Rightarrow> 'v \<Rightarrow> nat \<Rightarrow> ('v, 'k) ws_state \<times> ('v, ws_error) outcome option" where
  "request_timeout L J m1 m2 sink elapsed st f s timeout =
     (case request_register L J st f s of
        (st1, Err e) \<Rightarrow> (st1, Some (Err e))
      | (st1, Panic m) \<Rightarrow> (st1, Some (Panic m))
      | (st1, Ok (msg, rid, tok)) \<Rightarrow>
          (case request_sent (m1 st1) msg rid (sink msg timeout) of
             (st2, Err e) \<Rightarrow> (st2, Some (Err e))
           | (st2, Panic m) \<Rightarrow> (st2, Some (Panic m))
           | (st2, Ok u) \<Rightarrow> request_finish (m2 st2) rid tok (elapsed timeout)))"

definition request ::
  "('v wire_message, 'k, 's) signer_lib \<Rightarrow> 'v ws_json \<Rightarrow>
   (('v, 'k) ws_state \<Rightarrow> ('v, 'k) ws_state) \<Rightarrow> (('v, 'k) ws_state \<Rightarrow> ('v, 'k) ws_state) \<Rightarrow>
   (ws_frame \<Rightarrow> nat \<Rightarrow> (unit, ws_error) outcome) \<Rightarrow> (nat \<Rightarrow> bool) \<Rightarrow>
   ('v, 'k, 'w) ws_pair \<Rightarrow> string \<Rightarrow> 'v \<Rightarrow> ('v, 'k, 'w) ws_pair \<times> ('v, ws_error) outcome option" where
  "request L J m1 m2 sink elapsed wp f s =
     (case request_timeout L J m1 m2 sink elapsed (wp_core wp) f s (wp_timeout wp) of
        (st, r) \<Rightarrow> (wp\<lparr>wp_core := st\<rparr>, r))"

text \<open>\<open>recv\<close> logs an error of \<open>recv_inner\<close> and passes everything on.\<close>

definition recv ::
  "('v wire_message, 'k, 's) signer_lib \<Rightarrow> 'v ws_json \<Rightarrow> (unit, ws_error) outcome \<Rightarrow>
   ('v, 'k, 'w) ws_pair \<Rightarrow> stream_item list \<Rightarrow>
   ('v, 'k, 'w) ws_pair \<times> ('v receive_message, ws_error) outcome option \<times> stream_item list" where
  "recv L J pong wp items =
     (case recv_inner L J pong (wp_core wp) items of
        (st, Some (Err e), rest) \<Rightarrow> (wp\<lparr>wp_core := st\<rparr>, Some (Err e), rest)
      | (st, r, rest) \<Rightarrow> (wp\<lparr>wp_core := st\<rparr>, r, rest))"

section \<open>The echo server\<close>

text \<open>
  One connection: every message goes back as text until the stream or a send fails; \<open>sends i\<close> is the
  result of the \<open>i\<close>-th send. The result is what was sent.
\<close>

fun echo_connection :: "(ws_frame \<Rightarrow> string) \<Rightarrow> (nat \<Rightarrow> bool) \<Rightarrow> nat \<Rightarrow> stream_item list \<Rightarrow> ws_frame list" where
  "echo_connection show_msg sends i [] = []"
| "echo_connection show_msg sends i (EndOfStream # items) = []"
| "echo_connection show_msg sends i (StreamError e # items) = []"
| "echo_connection show_msg sends i (Item msg # items) =
     (if sends i then TextFrame (show_msg msg) # echo_connection show_msg sends (i + 1) items else [])"

text \<open>
  The accepting loop: \<open>accepted\<close> is what the listener gives, one entry per round. Connections that
  were handed to a task, and the result when the loop has ended.
\<close>

fun listening ::
  "('t \<Rightarrow> ('w, string) outcome) \<Rightarrow> ('t, string) outcome list \<Rightarrow> 'w list \<times> (unit, string) outcome option" where
  "listening handshake [] = ([], None)"
| "listening handshake (Ok stream # accepted) =
     (case handshake stream of
        Ok ws \<Rightarrow> (case listening handshake accepted of (spawned, r) \<Rightarrow> (ws # spawned, r))
      | Err e \<Rightarrow> ([], Some (Err e))
      | Panic m \<Rightarrow> ([], Some (Panic m)))"
| "listening handshake (Err e # accepted) = ([], Some (Ok ()))"
| "listening handshake (Panic m # accepted) = ([], Some (Panic m))"

section \<open>Lemmas\<close>

text \<open>A client and a server that have met can call each other.\<close>

definition pair_endpoint :: "('v, 'k, 'w) ws_pair \<Rightarrow> ('v, 'k) endpoint" where
  "pair_endpoint wp = (endpoint_init (ws_signer (wp_core wp)) (ws_counter (wp_core wp)))\<lparr>ep_core := wp_core wp\<rparr>"

lemma split_endpoint:
  "split_stream counter stream timeout peer key = Ok wp \<Longrightarrow> pair_endpoint wp = endpoint_init key counter"
  by (auto simp: split_stream_def pair_endpoint_def endpoint_init_def ws_split_def)

lemma accept_endpoint: "accept T counter wl key = Ok wp \<Longrightarrow> pair_endpoint wp = endpoint_init key counter"
  by (auto simp: accept_def outcome_simps intro: split_endpoint)

lemma connect_endpoint: "connect T counter config addr key = Ok wp \<Longrightarrow> pair_endpoint wp = endpoint_init key counter"
  by (auto simp: connect_def outcome_simps Let_def intro: split_endpoint)

lemma connected_idle:
  assumes "accept T cb wl kb = Ok wb" "connect T' ca config addr ka = Ok wa"
  shows "link_idle (pair_endpoint wa) (pair_endpoint wb)"
  unfolding accept_endpoint [OF assms(1)] connect_endpoint [OF assms(2)]
  by (simp add: link_idle_def endpoint_init_def ws_split_def ep_sent_def)

text \<open>The echo server answers in order; the first failed handshake ends it for everybody.\<close>

lemma echo_all: "(\<And>j. sends j) \<Longrightarrow>
    echo_connection show_msg sends i (map Item msgs @ EndOfStream # items) = map (TextFrame \<circ> show_msg) msgs"
  by (induction msgs arbitrary: i) simp_all

lemma listening_stops:
  "(\<And>t. t \<in> set ts \<Longrightarrow> \<exists>w. handshake t = Ok w) \<Longrightarrow> handshake t = Err e \<Longrightarrow>
   snd (listening handshake (map Ok ts @ Ok t # accepted)) = Some (Err e)"
proof (induction ts)
  case (Cons t' ts)
  then obtain w where "handshake t' = Ok w" by auto
  then show ?case using Cons by (auto split: prod.splits)
qed simp

lemma drop_callback_gone [simp]: "ws_callbacks (drop_callback st rid) rid = None"
  by (simp add: drop_callback_def cb_remove_def)

lemma close_gone: "ws_callbacks st rid = None \<Longrightarrow> ws_callbacks (ws_close st) rid = None"
  by (simp add: ws_close_def)

lemma sent_error_gone:
  "request_sent st msg rid res = (st', r) \<Longrightarrow> r \<noteq> Ok () \<Longrightarrow> ws_callbacks st' rid = None"
  by (cases res) (auto simp: request_sent_def close_gone)

lemma finish_gone: "request_finish st rid tok timed_out = (st', Some r) \<Longrightarrow> ws_callbacks st' rid = None"
  by (auto simp: request_finish_def split: option.splits)

section \<open>Properties\<close>

text \<open>C22. A request cleans up behind itself: when \<open>request_timeout\<close> returns, whether with the answer, a
  time-out, a failed send, a closed connection or before it registered anything, its id is no
  longer among the waiting requests, whatever the other tasks do to the connection meanwhile; and a
  request that could not be registered leaves the waiting requests as they were.\<close>

theorem request_cleans_up:
  assumes "request_timeout L J m1 m2 sink elapsed st f s timeout = (st', Some r)"
  shows "case request_register L J st f s of
      (st1, Ok (msg, rid, tok)) \<Rightarrow> ws_callbacks st' rid = None
    | (st1, _) \<Rightarrow> ws_callbacks st' = ws_callbacks st"
proof (cases "snd (request_register L J st f s)")
  case (Ok x)
  obtain msg rid tok where "x = (msg, rid, tok)" using prod_cases3 by blast
  with Ok obtain st1 where reg: "request_register L J st f s = (st1, Ok (msg, rid, tok))"
    by (metis prod.collapse)
  obtain st2 q where sent: "request_sent (m1 st1) msg rid (sink msg timeout) = (st2, q)" by fastforce
  have "ws_callbacks st' rid = None"
    using assms sent_error_gone [OF sent] finish_gone
    by (cases q) (auto simp: request_timeout_def reg sent)
  then show ?thesis by (simp add: reg)
next
  case (Err e)
  then obtain st1 where reg: "request_register L J st f s = (st1, Err e)" by (metis prod.collapse)
  then show ?thesis using assms register_fail [OF reg] by (auto simp: request_timeout_def)
next
  case (Panic m)
  then obtain st1 where reg: "request_register L J st f s = (st1, Panic m)" by (metis prod.collapse)
  then show ?thesis using assms register_fail [OF reg] by (auto simp: request_timeout_def)
qed

text \<open>A request that nobody answers in time.\<close>

theorem request_cleans_up_witness:
  "\<exists>st'. request_timeout sample_signer lenient_json id id (\<lambda>m t. Ok ()) (\<lambda>t. True)
     (ws_split ''key'' 1) ''f'' 7 5 = (st', Some (Err ElapsedError)) \<and> ws_callbacks st' ''1'' = None"
proof -
  have "snd (request_register sample_signer lenient_json (ws_split ''key'' 1) ''f'' 7) = Ok (TextFrame ''text'', ''1'', 0)"
    by (simp add: request_register_def signer_def ws_split_def wire_request_def seal_message_def
        generate_hash_str_def sign_message_def sample_signer_def lenient_json_def exec_def nat_to_string_1)
  then have reg: "request_register sample_signer lenient_json (ws_split ''key'' 1) ''f'' 7 =
      (sample_connection, Ok (TextFrame ''text'', ''1'', 0))"
    using sample_register by (metis prod.collapse)
  obtain st' where run: "request_timeout sample_signer lenient_json id id (\<lambda>m t. Ok ()) (\<lambda>t. True)
      (ws_split ''key'' 1) ''f'' 7 5 = (st', Some (Err ElapsedError))"
    unfolding request_timeout_def reg
    by (simp add: request_sent_def request_finish_def request_poll_def sample_connection_def ws_split_def)
  from request_cleans_up [OF this] run show ?thesis by (auto simp: reg)
qed

end
