(* ===== verification/Ecvrf.thy ===== *)
theory Ecvrf
  imports Prelude
begin

text \<open>
  The verifiable random function of \<open>crates/vrf/src/ecvrf.rs\<close> (ECVRF-ED25519-SHA512-TAI) and
  the key material errors and default methods of \<open>crates/vrf/src/traits.rs\<close>.

  The Edwards curve, its scalars and SHA-512 come from the packages \<open>curve25519-dalek\<close> and
  \<open>ed25519-dalek\<close>. They are the parameter \<open>C\<close> of the model, a record of the operations the
  source calls; \<open>curve_laws\<close> is what their documentation says of them. The search for a curve
  point is a loop over a byte counter with no bound, so it is a partial function: \<open>None\<close> is
  not returning.
\<close>

section \<open>The curve package\<close>

record ('p, 's) curve =
  sha512 :: "bytes \<Rightarrow> bytes"
  decompress :: "bytes \<Rightarrow> 'p option"
  compress :: "'p \<Rightarrow> bytes"
  basepoint :: 'p
  point_add :: "'p \<Rightarrow> 'p \<Rightarrow> 'p"
  point_sub :: "'p \<Rightarrow> 'p \<Rightarrow> 'p"
  point_mul :: "'p \<Rightarrow> 's \<Rightarrow> 'p"
  mul_by_cofactor :: "'p \<Rightarrow> 'p"
  is_small_order :: "'p \<Rightarrow> bool"
  is_torsion_free :: "'p \<Rightarrow> bool"
  scalar_from_bytes_mod_order :: "bytes \<Rightarrow> 's"
  scalar_from_bytes_mod_order_wide :: "bytes \<Rightarrow> 's"
  scalar_to_bytes :: "'s \<Rightarrow> bytes"
  scalar_add :: "'s \<Rightarrow> 's \<Rightarrow> 's"
  scalar_mul :: "'s \<Rightarrow> 's \<Rightarrow> 's"
  verifying_key :: "bytes \<Rightarrow> bytes"

section \<open>Data\<close>

datatype crypto_material_error =
    DeserializationError
  | ValidationError
  | WrongLengthError
  | CanonicalRepresentationError
  | SmallSubgroupError
  | PointNotOnCurveError

definition SUITE :: u8 where "SUITE = 0x03"
definition ONE :: u8 where "ONE = 0x01"
definition TWO :: u8 where "TWO = 0x02"
definition THREE :: u8 where "THREE = 0x03"

definition OUTPUT_LENGTH :: nat where "OUTPUT_LENGTH = 64"
definition PROOF_LENGTH :: nat where "PROOF_LENGTH = 80"

type_synonym vrf_private_key = bytes
type_synonym vrf_public_key = bytes

record 's vrf_expanded_private_key =
  key_scalar :: 's
  key_nonce :: bytes

record ('p, 's) ecvrf_proof =
  gamma :: 'p
  proof_c :: 's
  proof_s :: 's

section \<open>Hashing to the curve\<close>

text \<open>One round of the search: the candidate for a counter value.\<close>

definition candidate :: "('p, 's) curve \<Rightarrow> vrf_public_key \<Rightarrow> bytes \<Rightarrow> u8 \<Rightarrow> 'p option" where
  "candidate C pk alpha counter =
     (let hash_result = sha512 C ([SUITE, ONE] @ pk @ alpha @ [counter]);
          result = take 32 hash_result
      in decompress C result)"

text \<open>
  The body runs before the counter is increased and the loop condition is looked at, so a
  \<open>Debug\<close> build overflows in the round of counter 255 even when this round succeeds.
\<close>

partial_function (option) hash_to_curve_loop ::
  "profile \<Rightarrow> ('p, 's) curve \<Rightarrow> vrf_public_key \<Rightarrow> bytes \<Rightarrow> u8 \<Rightarrow> ('p, string) outcome option" where
  "hash_to_curve_loop b C pk alpha counter =
     (let wrapped_point = candidate C pk alpha counter in
      case add_op b counter 1 of
        Panic m \<Rightarrow> Some (Panic m)
      | Err e \<Rightarrow> Some (Err e)
      | Ok counter' \<Rightarrow>
          (case wrapped_point of
             None \<Rightarrow> hash_to_curve_loop b C pk alpha counter'
           | Some p \<Rightarrow> Some (Ok (mul_by_cofactor C p))))"

definition hash_to_curve ::
  "profile \<Rightarrow> ('p, 's) curve \<Rightarrow> vrf_public_key \<Rightarrow> bytes \<Rightarrow> ('p, string) outcome option" where
  "hash_to_curve b C pk alpha = hash_to_curve_loop b C pk alpha 0"

definition hash_points :: "('p, 's) curve \<Rightarrow> 'p list \<Rightarrow> 's" where
  "hash_points C points =
     (let hash = sha512 C ([SUITE, TWO] @ concat (map (compress C) points))
      in scalar_from_bytes_mod_order C (take 16 hash @ replicate 16 0))"

definition nonce_generation_bytes :: "('p, 's) curve \<Rightarrow> bytes \<Rightarrow> 'p \<Rightarrow> bytes" where
  "nonce_generation_bytes C nonce h_point = sha512 C (nonce @ compress C h_point)"

section \<open>Keys\<close>

text \<open>The three assignments to \<open>lower\<close> in the conversion to an expanded key.\<close>

definition clamp :: "bytes \<Rightarrow> bytes" where
  "clamp lower =
     (let l1 = lower[0 := and (lower ! 0) 248];
          l2 = l1[31 := and (l1 ! 31) 63];
          l3 = l2[31 := or (l2 ! 31) 64]
      in l3)"

definition expanded_from :: "('p, 's) curve \<Rightarrow> vrf_private_key \<Rightarrow> 's vrf_expanded_private_key" where
  "expanded_from C sk =
     (let hash = sha512 C sk;
          lower = take 32 hash;
          upper = take 32 (drop 32 hash)
      in \<lparr>key_scalar = scalar_from_bytes_mod_order C (clamp lower), key_nonce = upper\<rparr>)"

definition public_from :: "('p, 's) curve \<Rightarrow> vrf_private_key \<Rightarrow> vrf_public_key" where
  "public_from C sk = verifying_key C sk"

definition private_try_from_bytes :: "bytes \<Rightarrow> (vrf_private_key, crypto_material_error) outcome" where
  "private_try_from_bytes bs = slice 0 32 bs"

definition private_try_from_str :: "string \<Rightarrow> (vrf_private_key, crypto_material_error) outcome" where
  "private_try_from_str hex_str =
     (if length hex_str mod 2 \<noteq> 0 then Err WrongLengthError
      else
        and_then
          (traverse
             (\<lambda>i. and_then (str_slice i (i + 2) hex_str)
                    (\<lambda>t. map_err (\<lambda>_. DeserializationError) (parse_u8_hex t)))
             (map (\<lambda>k. 2 * k) [0..<length hex_str div 2]))
          (\<lambda>bs. slice 0 32 bs))"

definition public_try_from ::
  "('p, 's) curve \<Rightarrow> bytes \<Rightarrow> (vrf_public_key, crypto_material_error) outcome" where
  "public_try_from C bs =
     (if length bs \<noteq> 32 then Err WrongLengthError
      else
        and_then (ok_or (decompress C bs) DeserializationError)
          (\<lambda>point. if is_small_order C point then Err SmallSubgroupError
                    else Ok (compress C point)))"

section \<open>Proofs\<close>

definition bind_running ::
  "('a, 'e) outcome option \<Rightarrow> ('a \<Rightarrow> ('b, 'e) outcome option) \<Rightarrow> ('b, 'e) outcome option" where
  "bind_running m f =
     (case m of
        None \<Rightarrow> None
      | Some (Ok x) \<Rightarrow> f x
      | Some (Err e) \<Rightarrow> Some (Err e)
      | Some (Panic msg) \<Rightarrow> Some (Panic msg))"

definition prove_expanded ::
  "profile \<Rightarrow> ('p, 's) curve \<Rightarrow> 's vrf_expanded_private_key \<Rightarrow> vrf_public_key \<Rightarrow> bytes \<Rightarrow>
   (('p, 's) ecvrf_proof, string) outcome option" where
  "prove_expanded b C ek pk alpha =
     bind_running (hash_to_curve b C pk alpha)
       (\<lambda>h_point.
          let k_scalar = scalar_from_bytes_mod_order_wide C
                           (nonce_generation_bytes C (key_nonce ek) h_point);
              gam = point_mul C h_point (key_scalar ek);
              c_scalar = hash_points C
                [h_point, gam, point_mul C (basepoint C) k_scalar, point_mul C h_point k_scalar]
          in Some (Ok \<lparr>gamma = gam, proof_c = c_scalar,
                        proof_s = scalar_add C k_scalar (scalar_mul C c_scalar (key_scalar ek))\<rparr>))"

definition prove ::
  "profile \<Rightarrow> ('p, 's) curve \<Rightarrow> vrf_private_key \<Rightarrow> bytes \<Rightarrow> (('p, 's) ecvrf_proof, string) outcome option"
  where
  "prove b C sk alpha = prove_expanded b C (expanded_from C sk) (verifying_key C sk) alpha"

text \<open>\<open>CompressedEdwardsY::from_slice\<close> fails on a slice that is not 32 bytes long.\<close>

definition compressed_from_slice :: "bytes \<Rightarrow> (bytes, 'e) outcome" where
  "compressed_from_slice bs =
     (if length bs = 32 then Ok bs else Panic ''called Result::unwrap on an Err value'')"

definition unwrap_decompress :: "('p, 's) curve \<Rightarrow> bytes \<Rightarrow> ('p, 'e) outcome" where
  "unwrap_decompress C bs =
     and_then (compressed_from_slice bs)
       (\<lambda>y. unwrap_option ''called Option::unwrap on a None value'' (decompress C y))"

definition verify ::
  "profile \<Rightarrow> ('p, 's) curve \<Rightarrow> vrf_public_key \<Rightarrow> ('p, 's) ecvrf_proof \<Rightarrow> bytes \<Rightarrow>
   (unit, string) outcome option" where
  "verify b C pk pf alpha =
     bind_running (hash_to_curve b C pk alpha)
       (\<lambda>h_point.
          Some (and_then (unwrap_decompress C pk)
            (\<lambda>pk_point.
               let cprime = hash_points C
                 [h_point,
                  gamma pf,
                  point_sub C (point_mul C (basepoint C) (proof_s pf))
                              (point_mul C pk_point (proof_c pf)),
                  point_sub C (point_mul C h_point (proof_s pf))
                              (point_mul C (gamma pf) (proof_c pf))]
               in if proof_c pf = cprime then Ok ()
                  else Err ''The proof failed to verify for this public key'')))"

definition proof_to_bytes :: "('p, 's) curve \<Rightarrow> ('p, 's) ecvrf_proof \<Rightarrow> bytes" where
  "proof_to_bytes C pf =
     compress C (gamma pf) @ take 16 (scalar_to_bytes C (proof_c pf)) @
     scalar_to_bytes C (proof_s pf)"

definition proof_try_from ::
  "('p, 's) curve \<Rightarrow> bytes \<Rightarrow> (('p, 's) ecvrf_proof, crypto_material_error) outcome" where
  "proof_try_from C bs =
     and_then (slice 32 48 bs) (\<lambda>c_part.
     and_then (slice_from 48 bs) (\<lambda>s_part.
     and_then (if length s_part = 32 then Ok s_part
               else Panic ''copy_from_slice: source slice length does not match'') (\<lambda>s_buf.
     and_then (slice 0 32 bs) (\<lambda>g_part.
     and_then (unwrap_decompress C g_part) (\<lambda>g.
       Ok \<lparr>gamma = g,
           proof_c = scalar_from_bytes_mod_order C (c_part @ replicate 16 0),
           proof_s = scalar_from_bytes_mod_order C s_buf\<rparr>)))))"

definition output_from :: "('p, 's) curve \<Rightarrow> ('p, 's) ecvrf_proof \<Rightarrow> bytes" where
  "output_from C pf =
     sha512 C ([SUITE, THREE] @ compress C (mul_by_cofactor C (gamma pf)))"

section \<open>Default methods of the key traits\<close>

text \<open>
  \<open>ValidKey::validate\<close>, \<open>from_encoded_string\<close> and \<open>to_encoded_string\<close>, for a type
  with the conversions \<open>try_from\<close> and \<open>to_bytes\<close>; \<open>hex::decode\<close> and \<open>hex::encode\<close> are
  parameters.
\<close>

definition key_validate ::
  "(bytes \<Rightarrow> ('k, crypto_material_error) outcome) \<Rightarrow> ('k \<Rightarrow> bytes) \<Rightarrow> 'k \<Rightarrow>
   (unit, crypto_material_error) outcome" where
  "key_validate try_from to_bytes k = and_then (try_from (to_bytes k)) (\<lambda>_. Ok ())"

definition from_encoded_string ::
  "(string \<Rightarrow> bytes option) \<Rightarrow> (bytes \<Rightarrow> ('k, crypto_material_error) outcome) \<Rightarrow> string \<Rightarrow>
   ('k, crypto_material_error) outcome" where
  "from_encoded_string hex_decode try_from encoded_str =
     and_then (ok_or (hex_decode encoded_str) DeserializationError) try_from"

definition to_encoded_string ::
  "(bytes \<Rightarrow> string) \<Rightarrow> ('k \<Rightarrow> bytes) \<Rightarrow> 'k \<Rightarrow> (string, 'e) outcome" where
  "to_encoded_string hex_encode to_bytes k = Ok (hex_encode (to_bytes k))"


section \<open>Lemmas: the search for a curve point\<close>

lemma counter_step:
  "i < 255 \<Longrightarrow>
     hash_to_curve_loop b C pk alpha (of_nat i) =
       (case candidate C pk alpha (of_nat i) of
          None \<Rightarrow> hash_to_curve_loop b C pk alpha (of_nat (Suc i))
        | Some p \<Rightarrow> Some (Ok (mul_by_cofactor C p)))"
  by (subst hash_to_curve_loop.simps)
    (simp add: add_op_def unat_of_nat add.commute split: option.splits)

lemma counter_skip:
  "n \<le> 255 \<Longrightarrow> \<forall>j<n. candidate C pk alpha (of_nat j) = None \<Longrightarrow>
     hash_to_curve b C pk alpha = hash_to_curve_loop b C pk alpha (of_nat n)"
proof (induction n)
  case 0
  then show ?case by (simp add: hash_to_curve_def)
next
  case (Suc n)
  then show ?case using counter_step [of n b C pk alpha] by simp
qed

lemma counter_last:
  "hash_to_curve_loop b C pk alpha 255 =
     (if b = Debug then Some (Panic ''attempt to add with overflow'')
      else case candidate C pk alpha 255 of
             None \<Rightarrow> hash_to_curve b C pk alpha
           | Some p \<Rightarrow> Some (Ok (mul_by_cofactor C p)))"
  by (subst hash_to_curve_loop.simps)
    (simp add: add_op_def hash_to_curve_def u8_256 split: option.splits)

lemma loop_returns_candidate:
  assumes "hash_to_curve_loop b C pk alpha c = Some r"
  shows "b = Debug \<or> (\<exists>i. candidate C pk alpha i \<noteq> None)"
proof (rule hash_to_curve_loop.raw_induct [OF _ assms])
  fix loop b c r and C :: "('a, 'b) curve" and pk alpha
  assume ih: "\<And>b C pk alpha c r. loop b C pk alpha c = Some r \<Longrightarrow>
      b = Debug \<or> (\<exists>i. candidate (C :: ('a, 'b) curve) pk alpha i \<noteq> None)"
    and body: "(let wrapped_point = candidate C pk alpha c in
      case add_op b c 1 of
        Ok c' \<Rightarrow> (case wrapped_point of None \<Rightarrow> loop b C pk alpha c'
                  | Some p \<Rightarrow> Some (Ok (mul_by_cofactor C p)))
      | Err e \<Rightarrow> Some (Err e) | Panic m \<Rightarrow> Some (Panic m)) = Some r"
  show "b = Debug \<or> (\<exists>i. candidate C pk alpha i \<noteq> None)"
  proof (cases "b = Debug \<or> candidate C pk alpha c \<noteq> None")
    case False
    then have "loop b C pk alpha (c + 1) = Some r" using body by (simp add: add_op_def)
    then show ?thesis by (rule ih)
  qed auto
qed

lemma counter_values: "\<exists>i<256. (c :: u8) = of_nat i"
  by (rule exI [of _ "unat c"]) simp

lemma first_success:
  "find P [0..<256] = Some n \<Longrightarrow> n \<le> 255 \<and> P n \<and> (\<forall>j<n. \<not> P j)" for P :: "nat \<Rightarrow> bool"
  by (auto simp: find_Some_iff)

text \<open>C29. What the search for a curve point does, for every key and input: with \<open>n\<close> the first
  of the 256 counter values whose candidate decompresses, it returns this point times the
  cofactor, except that a debug build panics when \<open>n\<close> is 255. If none of the 256 decompresses,
  a debug build panics and a release build never returns.\<close>

theorem hash_to_curve_result:
  "hash_to_curve b C pk alpha =
     (case find (\<lambda>i. candidate C pk alpha (of_nat i) \<noteq> None) [0..<256] of
        Some n \<Rightarrow>
          if n = 255 \<and> b = Debug then Some (Panic ''attempt to add with overflow'')
          else Some (Ok (mul_by_cofactor C (the (candidate C pk alpha (of_nat n)))))
      | None \<Rightarrow>
          if b = Debug then Some (Panic ''attempt to add with overflow'') else None)"
proof (cases "find (\<lambda>i. candidate C pk alpha (of_nat i) \<noteq> None) [0..<256]")
  case None
  then have none: "candidate C pk alpha i = None" for i
    using counter_values [of i] by (auto simp: find_None_iff)
  have "hash_to_curve b C pk alpha = hash_to_curve_loop b C pk alpha 255"
    using counter_skip [of 255 C pk alpha b] none by simp
  moreover have "b = Debug \<or> hash_to_curve_loop b C pk alpha 0 = None"
    using loop_returns_candidate [of b C pk alpha 0] none by fastforce
  ultimately show ?thesis
    using None by (auto simp: counter_last hash_to_curve_def)
next
  case (Some n)
  note n = first_success [OF Some]
  have skip: "hash_to_curve b C pk alpha = hash_to_curve_loop b C pk alpha (of_nat n)"
    using n by (intro counter_skip) auto
  show ?thesis
  proof (cases "n = 255")
    case True
    then show ?thesis using Some n skip by (auto simp: counter_last)
  next
    case False
    then have "n < 255" using n by simp
    then show ?thesis using Some n skip counter_step [of n b C pk alpha] by auto
  qed
qed


section \<open>What the curve package documents\<close>

text \<open>
  Lengths and canonical encodings; the laws of the scalar action, which hold in the subgroup of
  prime order (a torsion-free point in the words of the package) and not on the whole curve; and
  RFC 8032's public key, the encoding of the base point times the clamped first half of the hash
  of the seed. The group order is above \<open>2 ^ 252\<close>, so smaller numbers are canonical scalars.
\<close>

definition curve_laws :: "('p, 's) curve \<Rightarrow> bool" where
  "curve_laws C \<longleftrightarrow>
     (\<forall>m. length (sha512 C m) = 64) \<and>
     (\<forall>p. length (compress C p) = 32) \<and>
     (\<forall>p. decompress C (compress C p) = Some p) \<and>
     (\<forall>s. length (scalar_to_bytes C s) = 32) \<and>
     (\<forall>s. scalar_from_bytes_mod_order C (scalar_to_bytes C s) = s) \<and>
     (\<forall>bs. length bs = 32 \<and> le_val bs < 2 ^ 252 \<longrightarrow>
        scalar_to_bytes C (scalar_from_bytes_mod_order C bs) = bs) \<and>
     is_torsion_free C (basepoint C) \<and>
     (\<forall>p. is_torsion_free C (mul_by_cofactor C p)) \<and>
     (\<forall>p s t. is_torsion_free C p \<longrightarrow>
        point_mul C p (scalar_add C s t) = point_add C (point_mul C p s) (point_mul C p t)) \<and>
     (\<forall>p s t. is_torsion_free C p \<longrightarrow>
        point_mul C p (scalar_mul C s t) = point_mul C (point_mul C p t) s) \<and>
     (\<forall>p q. point_sub C (point_add C p q) q = p) \<and>
     (\<forall>sk. length sk = 32 \<longrightarrow>
        verifying_key C sk =
          compress C (point_mul C (basepoint C)
            (scalar_from_bytes_mod_order C (clamp (take 32 (sha512 C sk))))))"

lemma curve_lawsD:
  assumes "curve_laws C"
  shows "length (sha512 C m) = 64"
    and "length (compress C p) = 32"
    and "decompress C (compress C p) = Some p"
    and "length (scalar_to_bytes C s) = 32"
    and "scalar_from_bytes_mod_order C (scalar_to_bytes C s) = s"
    and "length bs = 32 \<Longrightarrow> le_val bs < 2 ^ 252 \<Longrightarrow>
           scalar_to_bytes C (scalar_from_bytes_mod_order C bs) = bs"
    and "is_torsion_free C (basepoint C)"
    and "is_torsion_free C (mul_by_cofactor C p)"
    and "is_torsion_free C p \<Longrightarrow>
           point_mul C p (scalar_add C s t) = point_add C (point_mul C p s) (point_mul C p t)"
    and "is_torsion_free C p \<Longrightarrow>
           point_mul C p (scalar_mul C s t) = point_mul C (point_mul C p t) s"
    and "point_sub C (point_add C p q) q = p"
    and "length sk = 32 \<Longrightarrow>
           verifying_key C sk = compress C (point_mul C (basepoint C) (key_scalar (expanded_from C sk)))"
  using assms unfolding curve_laws_def expanded_from_def Let_def by auto

lemma hash_to_curve_torsion_free:
  assumes "curve_laws C" "hash_to_curve b C pk alpha = Some (Ok h)"
  shows "is_torsion_free C h"
  using assms(2) curve_lawsD(8) [OF assms(1)]
  unfolding hash_to_curve_result by (auto split: option.splits if_splits)

lemma verify_recomputes:
  assumes "curve_laws C" "is_torsion_free C p"
  shows "point_sub C (point_mul C p (scalar_add C k (scalar_mul C c x))) (point_mul C (point_mul C p x) c)
     = point_mul C p k"
  using assms by (simp add: curve_lawsD)

lemma unwrap_decompress_compress:
  "curve_laws C \<Longrightarrow> unwrap_decompress C (compress C p) = Ok p"
  by (simp add: unwrap_decompress_def compressed_from_slice_def curve_lawsD)

lemma hash_points_bytes:
  assumes "curve_laws C"
  shows "scalar_from_bytes_mod_order C
           (take 16 (scalar_to_bytes C (hash_points C ps)) @ replicate 16 0) = hash_points C ps"
proof -
  define bs where "bs = take 16 (sha512 C ([SUITE, TWO] @ concat (map (compress C) ps)))"
  have len: "length bs = 16" using assms by (simp add: bs_def curve_lawsD)
  have "le_val (bs @ replicate 16 0) < 256 ^ 16"
    using le_val_bound [of bs] len by (simp add: le_val_append)
  also have "(256 :: nat) ^ 16 < 2 ^ 252" by simp
  finally have "le_val (bs @ replicate 16 0) < 2 ^ 252" .
  then have "scalar_to_bytes C (hash_points C ps) = bs @ replicate 16 0"
    using assms len by (simp add: hash_points_def bs_def curve_lawsD)
  then show ?thesis using len by (simp add: hash_points_def bs_def)
qed


text \<open>
  A ring that satisfies the laws: the numbers below \<open>2 ^ 256\<close>, encoded in 32 bytes. It stands
  for the curve where a theorem with \<open>curve_laws\<close> is applied to concrete values.
\<close>

definition word_bytes :: "256 word \<Rightarrow> bytes" where
  "word_bytes w = le_bytes 32 (unat w)"

definition bytes_word :: "bytes \<Rightarrow> 256 word" where
  "bytes_word bs = of_nat (le_val bs)"

definition sample_sha512 :: "bytes \<Rightarrow> bytes" where
  "sample_sha512 m = take 64 (m @ replicate 64 0)"

definition sample_curve :: "(256 word, 256 word) curve" where
  "sample_curve =
     \<lparr>sha512 = sample_sha512,
      decompress = (\<lambda>bs. Some (bytes_word bs)), compress = word_bytes, basepoint = 1,
      point_add = (+), point_sub = (-), point_mul = (*), mul_by_cofactor = (\<lambda>p. 8 * p),
      is_small_order = (\<lambda>p. 8 * p = 0), is_torsion_free = (\<lambda>p. True),
      scalar_from_bytes_mod_order = bytes_word, scalar_from_bytes_mod_order_wide = bytes_word,
      scalar_to_bytes = word_bytes, scalar_add = (+), scalar_mul = (*),
      verifying_key = (\<lambda>sk. word_bytes (bytes_word (clamp (take 32 (sample_sha512 sk)))))\<rparr>"

lemma bytes_word_bytes [simp]: "bytes_word (word_bytes w) = w"
proof -
  have "unat w < 2 ^ 256" using unsigned_less [of w] by simp
  then have "unat w mod 256 ^ 32 = unat w" by simp
  then show ?thesis by (simp only: bytes_word_def word_bytes_def le_val_le_bytes of_nat_unat) simp
qed

lemma word_bytes_word: "length bs = 32 \<Longrightarrow> word_bytes (bytes_word bs) = bs"
  using le_val_bound [of bs] le_bytes_le_val [of bs]
  by (simp add: bytes_word_def word_bytes_def unat_of_nat)

lemma length_sample_sha512 [simp]: "length (sample_sha512 m) = 64"
  by (auto simp: sample_sha512_def min_def)

lemma sample_curve_laws: "curve_laws sample_curve"
  by (simp add: curve_laws_def sample_curve_def word_bytes_word algebra_simps)
     (simp add: word_bytes_def)

lemma split_key_bytes:
  assumes "length l = 32"
  shows "\<exists>b0 mid b31. l = b0 # mid @ [b31] \<and> length mid = 30"
proof -
  obtain b0 t where l: "l = b0 # t" and t: "length t = 31"
    using assms by (auto simp: length_Suc_conv numeral_eq_Suc)
  then have "t = butlast t @ [last t]" "length (butlast t) = 30" by (auto intro!: append_butlast_last_id [symmetric])
  then show ?thesis using l by metis
qed

lemma clamp_low: "8 dvd unat (and b 248 :: u8)"
proof -
  have "take_bit 3 (and b 248) = (0 :: u8)" by (simp add: take_bit_and)
  then have "take_bit 3 (unat (and b 248)) = 0" by (metis unsigned_take_bit_eq unsigned_0)
  then show ?thesis by (simp add: take_bit_eq_mod mod_eq_0_iff_dvd)
qed

lemma clamp_high: "64 \<le> unat (or (and b 63) 64 :: u8) \<and> unat (or (and b 63) 64 :: u8) < 128"
proof -
  define x where "x = take_bit 6 (unat b)"
  have "x < 64" using take_bit_nat_less_exp [of 6 "unat b"] by (simp add: x_def)
  have "and (unat b) 63 = x"
    by (simp add: x_def take_bit_eq_mask mask_eq_exp_minus_1)
  moreover have "and x 64 = 0"
    unfolding x_def by (simp add: take_bit_eq_mask mask_eq_exp_minus_1 and.assoc)
  then have "or x 64 = x + 64" by (simp add: disjunctive_add_eq_or)
  ultimately have "unat (or (and b 63) 64 :: u8) = x + 64"
    by (simp add: unsigned_or_eq unsigned_and_eq)
  then show ?thesis using \<open>x < 64\<close> by simp
qed

lemma hex_digit_not_sign [simp]: "d < 16 \<Longrightarrow> hex_digit d \<noteq> CHR ''+''"
  using to_digit_hex_digit [of d] by (auto simp: to_digit_def)

lemma parse_u8_hex_byte [simp]: "parse_u8_hex (hex_byte b) = Ok b"
proof -
  define x y where "x = unat b div 16" and "y = unat b mod 16"
  have "unat b < 256" by simp
  then have xy: "x < 16" "y < 16" "x * 16 + y = unat b"
    unfolding x_def y_def by (simp_all add: less_mult_imp_div_less)
  have d: "to_digit 16 (hex_digit x) = Some x" "to_digit 16 (hex_digit y) = Some y"
    "hex_digit x \<noteq> CHR ''+''"
    using xy(1,2) by simp_all
  have "x * 16 + y \<le> 255" "x * 16 \<le> 255" using \<open>unat b < 256\<close> xy by linarith+
  then have "from_str_radix 255 16 [hex_digit x, hex_digit y] = Ok (unat b)"
    by (simp add: from_str_radix_def d xy(3))
  then show ?thesis by (simp add: parse_u8_hex_def hex_byte_def x_def y_def)
qed

lemma hex_lower_pair:
  "k < length bs \<Longrightarrow> take 2 (drop (2 * k) (hex_lower bs)) = hex_byte (bs ! k)"
proof (induction bs arbitrary: k)
  case (Cons b bs)
  then show ?case by (cases k) (simp_all add: hex_lower_def)
qed simp

lemma hex_pairs:
  "traverse
     (\<lambda>i. and_then (str_slice i (i + 2) (hex_lower bs))
            (\<lambda>t. map_err (\<lambda>_. DeserializationError) (parse_u8_hex t)))
     (map (\<lambda>k. 2 * k) [0..<length bs]) = Ok bs"
proof -
  have "and_then (str_slice (2 * k) (2 * k + 2) (hex_lower bs))
      (\<lambda>t. map_err (\<lambda>_. DeserializationError) (parse_u8_hex t)) = Ok (bs ! (2 * k div 2))"
    if "k < length bs" for k
    using that by (simp add: str_slice_ascii is_ascii_hexdigits hex_lower_pair)
  then have "traverse
     (\<lambda>i. and_then (str_slice i (i + 2) (hex_lower bs))
            (\<lambda>t. map_err (\<lambda>_. DeserializationError) (parse_u8_hex t)))
     (map (\<lambda>k. 2 * k) [0..<length bs]) = Ok (map (\<lambda>i. bs ! (i div 2)) (map (\<lambda>k. 2 * k) [0..<length bs]))"
    by (intro traverse_Ok) auto
  then show ?thesis by (simp add: comp_def map_nth)
qed

section \<open>Lemmas: a proof made by prove\<close>

lemma prove_verifies:
  assumes "curve_laws C" "length sk = 32"
    and "hash_to_curve b C (public_from C sk) alpha = Some (Ok h)"
  shows "\<exists>pf. prove b C sk alpha = Some (Ok pf) \<and>
     verify b C (public_from C sk) pf alpha = Some (Ok ())"
  using assms hash_to_curve_torsion_free [OF assms(1,3)]
  by (simp add: prove_def prove_expanded_def verify_def public_from_def bind_running_def Let_def
      unwrap_decompress_compress verify_recomputes curve_lawsD(7,12))

lemma proved_verifies:
  assumes "curve_laws C" "length sk = 32" "prove b C sk alpha = Some (Ok pf)"
  shows "verify b C (public_from C sk) pf alpha = Some (Ok ())"
proof -
  have "\<exists>h. hash_to_curve b C (public_from C sk) alpha = Some (Ok h)"
    using assms(3)
    by (auto simp: prove_def prove_expanded_def public_from_def bind_running_def
        split: option.splits outcome.splits)
  then show ?thesis using prove_verifies [OF assms(1,2)] assms(3) by fastforce
qed

lemma prove_reads_back:
  assumes "curve_laws C" "prove b C sk alpha = Some (Ok pf)"
  shows "length (proof_to_bytes C pf) = PROOF_LENGTH \<and>
         proof_try_from C (proof_to_bytes C pf) = Ok pf"
proof -
  obtain ps where c: "proof_c pf = hash_points C ps"
    using assms(2)
    by (auto simp: prove_def prove_expanded_def bind_running_def Let_def
        split: option.splits outcome.splits)
  show ?thesis
    using assms(1) hash_points_bytes [OF assms(1), of ps]
    by (simp add: proof_to_bytes_def proof_try_from_def slice_def slice_from_def PROOF_LENGTH_def
        unwrap_decompress_compress curve_lawsD c)
qed

lemma public_key_reads_back:
  assumes "curve_laws C" "length sk = 32"
    and "\<not> is_small_order C (point_mul C (basepoint C) (key_scalar (expanded_from C sk)))"
  shows "public_try_from C (public_from C sk) = Ok (public_from C sk)"
  using assms by (simp add: public_try_from_def public_from_def curve_lawsD(2,3,12) ok_or_def)

section \<open>Properties\<close>

text \<open>C1. Completeness of the VRF: for a 32-byte seed, whenever the search for a curve point
  returns one, \<open>prove\<close> returns a proof and \<open>verify\<close> accepts it under the public key of
  the seed.\<close>

theorem verify_accepts_prove:
  assumes "curve_laws C" "length sk = 32"
    and "hash_to_curve b C (public_from C sk) alpha = Some (Ok h)"
  shows "\<exists>pf. prove b C sk alpha = Some (Ok pf) \<and>
     verify b C (public_from C sk) pf alpha = Some (Ok ())"
  using assms by (rule prove_verifies)

lemma sample_hash_to_curve:
  "hash_to_curve b sample_curve pk alpha =
     Some (Ok (8 * bytes_word (take 32 (sample_sha512 ([SUITE, ONE] @ pk @ alpha @ [0])))))"
  unfolding hash_to_curve_def
  by (subst hash_to_curve_loop.simps)
    (simp add: candidate_def sample_curve_def add_op_def)

theorem verify_accepts_prove_witness:
  "\<exists>pf. prove Debug sample_curve (replicate 32 7) [1, 2] = Some (Ok pf) \<and>
     verify Debug sample_curve (public_from sample_curve (replicate 32 7)) pf [1, 2] = Some (Ok ())"
  by (rule verify_accepts_prove [OF sample_curve_laws _ sample_hash_to_curve]) simp

text \<open>C34. A proof made by \<open>prove\<close> is 80 bytes long and reading these bytes gives back the
  proof, although only 16 of the 32 bytes of its challenge are written.\<close>

theorem proof_bytes_roundtrip:
  assumes "curve_laws C" "prove b C sk alpha = Some (Ok pf)"
  shows "length (proof_to_bytes C pf) = PROOF_LENGTH \<and>
         proof_try_from C (proof_to_bytes C pf) = Ok pf"
  using assms by (rule prove_reads_back)

theorem proof_bytes_roundtrip_witness:
  "\<exists>pf. prove Release sample_curve (replicate 32 9) [] = Some (Ok pf) \<and>
     length (proof_to_bytes sample_curve pf) = PROOF_LENGTH \<and>
     proof_try_from sample_curve (proof_to_bytes sample_curve pf) = Ok pf"
proof -
  obtain pf where "prove Release sample_curve (replicate 32 9) [] = Some (Ok pf)"
    by (simp add: prove_def prove_expanded_def sample_hash_to_curve bind_running_def Let_def)
  then show ?thesis using proof_bytes_roundtrip [OF sample_curve_laws] by blast
qed

text \<open>Reading a proof from bytes never reports an error of type \<open>CryptoMaterialError\<close>:
  it succeeds when there are exactly 80 bytes and the first 32 of them decompress to a point, and
  panics on every other input.\<close>

theorem proof_try_from_panics:
  "case decompress C (take 32 bs) of
     Some g \<Rightarrow>
       if length bs = PROOF_LENGTH
       then proof_try_from C bs = Ok \<lparr>gamma = g,
              proof_c = scalar_from_bytes_mod_order C (take 16 (drop 32 bs) @ replicate 16 0),
              proof_s = scalar_from_bytes_mod_order C (drop 48 bs)\<rparr>
       else is_panic (proof_try_from C bs)
   | None \<Rightarrow> is_panic (proof_try_from C bs)"
  by (auto simp: proof_try_from_def slice_def slice_from_def PROOF_LENGTH_def unwrap_decompress_def
      compressed_from_slice_def split: option.splits)

text \<open>The secret scalar of an expanded key is clamped: a multiple of the cofactor 8 with bit 254
  as its highest bit.\<close>

theorem clamp_range:
  assumes "length lower = 32"
  shows "length (clamp lower) = 32 \<and> 8 dvd le_val (clamp lower) \<and>
    2 ^ 254 \<le> le_val (clamp lower) \<and> le_val (clamp lower) < 2 ^ 255"
proof -
  obtain b0 mid b31 where l: "lower = b0 # mid @ [b31]" and mid: "length mid = 30"
    using assms split_key_bytes by blast
  define lo hi where "lo = unat (and b0 248)" and "hi = unat (or (and b31 63) 64)"
  have val: "le_val (clamp lower) = lo + 256 * le_val mid + 2 ^ 248 * hi"
    using mid by (simp add: l clamp_def Let_def lo_def hi_def le_val_append nth_append list_update_append)
  have "8 dvd lo" "lo < 256" "64 \<le> hi" "hi < 128" "le_val mid < 2 ^ 240"
    using clamp_low [of b0] clamp_high [of b31] le_val_bound [of mid] mid
    by (simp_all add: lo_def hi_def)
  then have "8 dvd lo + 256 * le_val mid + 2 ^ 248 * hi"
    by (intro dvd_add) (auto intro: dvd_mult2)
  then show ?thesis
    using assms \<open>lo < 256\<close> \<open>64 \<le> hi\<close> \<open>hi < 128\<close> \<open>le_val mid < 2 ^ 240\<close>
    by (simp only: val) (simp add: clamp_def Let_def)
qed

theorem clamp_range_witness:
  "2 ^ 254 \<le> le_val (clamp (replicate 32 255)) \<and> 8 dvd le_val (clamp (replicate 32 255))"
  using clamp_range [of "replicate 32 255"] by simp

text \<open>The hexadecimal text of a byte string is read back as a private key: the first 32 bytes
  of it when there are at least 32. A shorter string makes the conversion panic, although its
  result type has an error for a wrong length.\<close>

theorem private_key_from_hex:
  "private_try_from_str (hex_lower bs) =
     (if length bs < 32 then Panic ''slice index out of range'' else Ok (take 32 bs))"
  unfolding private_try_from_str_def by (simp add: hex_pairs [unfolded add_2_eq_Suc'] slice_def)

end
