(* ===== verification/Machine_Float.thy ===== *)
theory Machine_Float
  imports Prelude Complex_Main
begin

text \<open>
  The floating-point arithmetic the program uses: Rust's \<open>f64\<close> and \<open>f32\<close> with
  \<open>+\<close>, \<open>-\<close>, \<open>*\<close>, the cast \<open>as f64\<close> from \<open>u64\<close>, the saturating cast
  \<open>as u64\<close> and the narrowing cast \<open>as f32\<close>.

  A finite value is a pair of integers, \<open>Fin m e\<close> for \<open>m * 2 ^ e\<close>. Every operation
  computes the exact result and rounds it to the format: to the nearest value with
  \<open>precision\<close> significant bits and no bit below \<open>2 ^ quantum\<close> (subnormals), ties to the
  even one, and to an infinity from \<open>2 ^ emax\<close> on. The two zeros are identified (no operation
  modelled here tells them apart).

  The main lemma is that rounding is monotone (\<open>round_fin_mono\<close>), from which the later
  theories get that \<open>as u64\<close> of a smaller result is smaller.
\<close>

section \<open>Rounding of naturals\<close>

fun bitlen :: "nat \<Rightarrow> nat" where
  "bitlen n = (if n = 0 then 0 else Suc (bitlen (n div 2)))"

declare bitlen.simps [simp del]

lemma bitlen_0 [simp]: "bitlen 0 = 0"
  by (simp add: bitlen.simps)

lemma bitlen_bounds: "0 < n \<Longrightarrow> 2 ^ (bitlen n - 1) \<le> n \<and> n < 2 ^ bitlen n"
proof (induction n rule: bitlen.induct)
  case (1 n)
  show ?case
  proof (cases "n div 2 = 0")
    case True
    then have "n = 1" using "1.prems" by (simp add: div_eq_0_iff)
    then show ?thesis by (simp add: bitlen.simps)
  next
    case False
    then have b: "2 ^ (bitlen (n div 2) - 1) \<le> n div 2" "n div 2 < 2 ^ bitlen (n div 2)"
      using 1 by auto
    have "0 < bitlen (n div 2)" using False by (simp add: bitlen.simps)
    then have "2 ^ bitlen (n div 2) = 2 * (2::nat) ^ (bitlen (n div 2) - 1)"
      by (simp flip: power_Suc)
    then have "2 ^ bitlen (n div 2) \<le> n" "n < 2 * 2 ^ bitlen (n div 2)"
      using b by linarith+
    moreover have "bitlen n = Suc (bitlen (n div 2))" using "1.prems" by (simp add: bitlen.simps)
    ultimately show ?thesis by simp
  qed
qed

lemma bitlen_unique: "2 ^ l \<le> n \<Longrightarrow> n < 2 ^ Suc l \<Longrightarrow> bitlen n = Suc l"
proof -
  assume a: "2 ^ l \<le> n" "n < 2 ^ Suc l"
  then have "0 < n" using order_less_le_trans zero_less_power by (metis zero_less_numeral)
  then have b: "2 ^ (bitlen n - 1) \<le> n" "n < 2 ^ bitlen n" using bitlen_bounds by auto
  have "(2::nat) ^ l < 2 ^ bitlen n" "(2::nat) ^ (bitlen n - 1) < 2 ^ Suc l" using a b by linarith+
  then have "l < bitlen n" "bitlen n - 1 < Suc l"
    using power_less_imp_less_exp [of "2::nat" l "bitlen n"]
      power_less_imp_less_exp [of "2::nat" "bitlen n - 1" "Suc l"] by simp_all
  then show ?thesis by linarith
qed

lemma bitlen_pow2 [simp]: "bitlen (2 ^ l) = Suc l"
  by (rule bitlen_unique) simp_all

lemma bitlen_mono: "m \<le> n \<Longrightarrow> bitlen m \<le> bitlen n"
proof (cases "m = 0")
  case False
  assume "m \<le> n"
  then have "2 ^ (bitlen m - 1) \<le> m" "m < 2 ^ bitlen n"
    using False bitlen_bounds [of m] bitlen_bounds [of n] by auto
  then have "(2::nat) ^ (bitlen m - 1) < 2 ^ bitlen n" by linarith
  then have "bitlen m - 1 < bitlen n" by (simp add: power_strict_increasing_iff)
  then show ?thesis by linarith
qed simp

lemma bitlen_shift: "0 < n \<Longrightarrow> bitlen (n * 2 ^ j) = bitlen n + j"
proof -
  assume n: "0 < n"
  then obtain l where l: "bitlen n = Suc l" by (metis bitlen.simps not_less0)
  then have "2 ^ l \<le> n" "n < 2 ^ Suc l" using bitlen_bounds [OF n] by auto
  then have "2 ^ (l + j) \<le> n * 2 ^ j" "n * 2 ^ j < 2 ^ Suc (l + j)"
    by (simp_all add: power_add)
  then have "bitlen (n * 2 ^ j) = Suc (l + j)" by (rule bitlen_unique)
  then show ?thesis using l by simp
qed

text \<open>\<open>round_half_even n k\<close> is \<open>n / 2 ^ k\<close> rounded to the nearest natural.\<close>

definition round_half_even :: "nat \<Rightarrow> nat \<Rightarrow> nat" where
  "round_half_even n k =
     (let d = n div 2 ^ k; r = n mod 2 ^ k in
      if 2 * r < 2 ^ k then d
      else if 2 * r > 2 ^ k then d + 1
      else if even d then d else d + 1)"

lemma round_half_even_0 [simp]: "round_half_even n 0 = n"
  by (simp add: round_half_even_def)

lemma round_half_even_zero [simp]: "round_half_even 0 k = 0"
  by (simp add: round_half_even_def)

lemma round_half_even_bounds:
  "n div 2 ^ k \<le> round_half_even n k" "round_half_even n k \<le> n div 2 ^ k + 1"
  by (simp_all add: round_half_even_def Let_def)

lemma round_half_even_mono: "m \<le> n \<Longrightarrow> round_half_even m k \<le> round_half_even n k"
proof -
  assume le: "m \<le> n"
  then have "m div 2 ^ k \<le> n div 2 ^ k" by (rule div_le_mono)
  then consider "m div 2 ^ k = n div 2 ^ k" | "m div 2 ^ k + 1 \<le> n div 2 ^ k" by linarith
  then show ?thesis
  proof cases
    case 1
    then have "m mod 2 ^ k \<le> n mod 2 ^ k"
      using le by (metis add_le_cancel_left mult_div_mod_eq)
    then show ?thesis using 1 by (simp add: round_half_even_def Let_def)
  next
    case 2
    then show ?thesis
      using round_half_even_bounds [of m k] round_half_even_bounds [of n k] by linarith
  qed
qed

lemma round_half_even_exact: "i \<le> j \<Longrightarrow> round_half_even (n * 2 ^ j) i = n * 2 ^ (j - i)"
proof -
  assume "i \<le> j"
  then have "n * 2 ^ j = n * 2 ^ (j - i) * 2 ^ i" by (simp flip: power_add)
  then have "n * 2 ^ j div 2 ^ i = n * 2 ^ (j - i)" "n * 2 ^ j mod 2 ^ i = 0"
    by (metis nonzero_mult_div_cancel_right power_not_zero zero_neq_numeral, metis mod_mult_self2_is_0)
  then show ?thesis by (simp add: round_half_even_def)
qed

lemma round_half_even_shift: "round_half_even (n * 2 ^ j) (k + j) = round_half_even n k"
proof -
  have d: "n * 2 ^ j div 2 ^ (k + j) = n div 2 ^ k"
    by (simp add: power_add)
  have r: "n * 2 ^ j mod 2 ^ (k + j) = (n mod 2 ^ k) * 2 ^ j"
    by (simp add: power_add mult_mod_left)
  have "2 * (n * 2 ^ j mod 2 ^ (k + j)) = (2 * (n mod 2 ^ k)) * 2 ^ j" "2 ^ (k + j) = 2 ^ k * (2::nat) ^ j"
    by (simp_all add: r power_add)
  then have "2 * (n * 2 ^ j mod 2 ^ (k + j)) < 2 ^ (k + j) \<longleftrightarrow> 2 * (n mod 2 ^ k) < 2 ^ k"
    "2 * (n * 2 ^ j mod 2 ^ (k + j)) > 2 ^ (k + j) \<longleftrightarrow> 2 * (n mod 2 ^ k) > 2 ^ k"
    by (simp_all only: mult_less_cancel2 zero_less_power zero_less_numeral simp_thms)
  then show ?thesis by (simp only: round_half_even_def Let_def d)
qed

section \<open>Formats and rounding of floats\<close>

record float_format =
  precision :: nat
  quantum :: int
  emax :: int

definition f64_format :: float_format where
  "f64_format = \<lparr>precision = 53, quantum = -1074, emax = 1024\<rparr>"

definition f32_format :: float_format where
  "f32_format = \<lparr>precision = 24, quantum = -149, emax = 128\<rparr>"

datatype float = Fin int int | Inf bool | NaN

definition round_mag :: "float_format \<Rightarrow> nat \<Rightarrow> int \<Rightarrow> nat \<times> int" where
  "round_mag f n e =
     (let k = nat (max (int (bitlen n) - int (precision f)) (quantum f - e))
      in (round_half_even n k, e + int k))"

definition round_float :: "float_format \<Rightarrow> int \<Rightarrow> int \<Rightarrow> float" where
  "round_float f m e =
     (let (n, e') = round_mag f (nat \<bar>m\<bar>) e
      in if n \<noteq> 0 \<and> int (bitlen n) + e' > emax f then Inf (m < 0)
         else Fin (sgn m * int n) e')"

section \<open>Operations\<close>

definition f64_of_u64 :: "u64 \<Rightarrow> float" where
  "f64_of_u64 x = round_float f64_format (uint x) 0"

fun float_neg :: "float \<Rightarrow> float" where
  "float_neg (Fin m e) = Fin (- m) e"
| "float_neg (Inf s) = Inf (\<not> s)"
| "float_neg NaN = NaN"

definition align :: "int \<Rightarrow> int \<Rightarrow> int \<Rightarrow> int" where
  "align m e e0 = m * 2 ^ nat (e - e0)"

fun f64_add :: "float \<Rightarrow> float \<Rightarrow> float" where
  "f64_add (Fin m e) (Fin m' e') =
     (let e0 = min e e' in round_float f64_format (align m e e0 + align m' e' e0) e0)"
| "f64_add (Fin m e) (Inf s) = Inf s"
| "f64_add (Inf s) (Fin m e) = Inf s"
| "f64_add (Inf s) (Inf s') = (if s = s' then Inf s else NaN)"
| "f64_add NaN y = NaN"
| "f64_add x NaN = NaN"

definition f64_sub :: "float \<Rightarrow> float \<Rightarrow> float" where
  "f64_sub x y = f64_add x (float_neg y)"

fun f64_mul :: "float \<Rightarrow> float \<Rightarrow> float" where
  "f64_mul (Fin m e) (Fin m' e') = round_float f64_format (m * m') (e + e')"
| "f64_mul (Fin m e) (Inf s) = (if m = 0 then NaN else Inf (s \<noteq> (m < 0)))"
| "f64_mul (Inf s) (Fin m e) = (if m = 0 then NaN else Inf (s \<noteq> (m < 0)))"
| "f64_mul (Inf s) (Inf s') = Inf (s \<noteq> s')"
| "f64_mul NaN y = NaN"
| "f64_mul x NaN = NaN"

text \<open>Truncation towards zero, then saturation, as \<open>as u64\<close> does.\<close>

definition trunc_int :: "int \<Rightarrow> int \<Rightarrow> int" where
  "trunc_int m e = (if 0 \<le> e then m * 2 ^ nat e else sgn m * (\<bar>m\<bar> div 2 ^ nat (- e)))"

definition saturate_u64 :: "int \<Rightarrow> u64" where
  "saturate_u64 t = (if t < 0 then 0 else if t > 2 ^ 64 - 1 then - 1 else of_int t)"

fun f64_to_u64 :: "float \<Rightarrow> u64" where
  "f64_to_u64 (Fin m e) = saturate_u64 (trunc_int m e)"
| "f64_to_u64 (Inf s) = (if s then 0 else - 1)"
| "f64_to_u64 NaN = 0"

fun f64_to_f32 :: "float \<Rightarrow> float" where
  "f64_to_f32 (Fin m e) = round_float f32_format m e"
| "f64_to_f32 (Inf s) = Inf s"
| "f64_to_f32 NaN = NaN"

section \<open>Rounding is monotone in the value\<close>

definition mag_value :: "nat \<times> int \<Rightarrow> real" where
  "mag_value p = real (fst p) * 2 powi (snd p)"

lemma pow2_pos [simp]: "(0::real) < 2 powi e"
  by simp

lemma pow2_not_le [simp]: "\<not> (2::real) powi e \<le> 0"
  by (simp add: not_le)

lemma powi_shift: "(2::real) powi (e - int j) * 2 ^ j = 2 powi e"
  "(2::real) ^ j * 2 powi (e - int j) = 2 powi e"
  by (simp_all add: power_int_diff)

lemma powi_add_nat: "(2::real) powi (e + int j) = 2 powi e * 2 ^ j"
  by (simp add: power_int_add)

definition drop_bits :: "float_format \<Rightarrow> nat \<Rightarrow> int \<Rightarrow> nat" where
  "drop_bits f n e = nat (max (int (bitlen n) - int (precision f)) (quantum f - e))"

lemma round_mag_drop:
  "round_mag f n e = (round_half_even n (drop_bits f n e), e + int (drop_bits f n e))"
  by (simp add: round_mag_def drop_bits_def Let_def)

lemma mag_value_round:
  "mag_value (round_mag f n e) =
     real (round_half_even n (drop_bits f n e) * 2 ^ drop_bits f n e) * 2 powi e"
  by (simp add: round_mag_drop mag_value_def powi_add_nat)

lemma round_mag_shift:
  "mag_value (round_mag f (n * 2 ^ j) (e - int j)) = mag_value (round_mag f n e)"
proof (cases "n = 0")
  case False
  define k where "k = max (int (bitlen n) - int (precision f)) (quantum f - e)"
  have k: "drop_bits f n e = nat k" "drop_bits f (n * 2 ^ j) (e - int j) = nat (k + int j)"
    using False by (simp_all add: drop_bits_def k_def bitlen_shift max_def algebra_simps)
  show ?thesis
  proof (cases "0 \<le> k")
    case True
    then have "nat (k + int j) = nat k + j" by simp
    then show ?thesis
      by (simp add: mag_value_round k round_half_even_shift power_add) (simp add: powi_shift mult_ac)
  next
    case neg: False
    then have "nat (k + int j) \<le> j" by simp
    then have "round_half_even (n * 2 ^ j) (nat (k + int j)) * 2 ^ nat (k + int j) = n * 2 ^ j"
      by (simp add: round_half_even_exact flip: power_add)
    then show ?thesis
      using neg by (simp add: mag_value_round k) (simp add: powi_shift mult_ac)
  qed
qed (simp add: mag_value_round)

lemma round_scaled_mono:
  assumes "m \<le> n" "0 < precision f"
  shows "round_half_even m (drop_bits f m e) * 2 ^ drop_bits f m e
    \<le> round_half_even n (drop_bits f n e) * 2 ^ drop_bits f n e"
proof -
  let ?i = "drop_bits f m e" and ?j = "drop_bits f n e"
  have le: "?i \<le> ?j" using bitlen_mono [OF assms(1)] by (auto simp: drop_bits_def max_def)
  show ?thesis
  proof (cases "?i = ?j")
    case True
    then show ?thesis using round_half_even_mono [OF assms(1)] by simp
  next
    case False
    define l where "l = bitlen n - 1"
    have j: "int ?j = int (bitlen n) - int (precision f)" and lt: "?i < ?j"
      using le False by (auto simp: drop_bits_def max_def split: if_splits)
    then have l: "bitlen n = Suc l" "?j \<le> l" using assms(2) by (auto simp: l_def)
    then have n: "2 ^ l \<le> n" using bitlen_bounds [of n] by (cases "n = 0") auto
    have "bitlen m \<noteq> bitlen n" using lt by (auto simp: drop_bits_def)
    then have "bitlen m \<le> l" using bitlen_mono [OF assms(1)] l by simp
    then have "2 ^ bitlen m \<le> (2::nat) ^ l" by simp
    then have m: "m \<le> 2 ^ l"
      using bitlen_bounds [of m] by (cases "m = 0") (simp, linarith)
    have "round_half_even m ?i * 2 ^ ?i \<le> round_half_even (2 ^ l) ?i * 2 ^ ?i"
      using m by (intro mult_right_mono round_half_even_mono) auto
    also have "\<dots> = 2 ^ l"
      using round_half_even_exact [of ?i l 1] lt l by (simp flip: power_add)
    also have "\<dots> = (2 ^ l div 2 ^ ?j) * 2 ^ ?j"
      using l by (simp add: power_diff [symmetric] flip: power_add)
    also have "\<dots> \<le> round_half_even n ?j * 2 ^ ?j"
      using div_le_mono [OF n, of "2 ^ ?j"] round_half_even_bounds(1) [of n ?j]
      by (intro mult_right_mono) auto
    finally show ?thesis .
  qed
qed

lemma round_mag_mono:
  assumes "real m * 2 powi e \<le> real n * 2 powi e'" "0 < precision f"
  shows "mag_value (round_mag f m e) \<le> mag_value (round_mag f n e')"
proof -
  define e0 where "e0 = min e e'"
  define i j where "i = nat (e - e0)" and "j = nat (e' - e0)"
  have e: "e0 = e - int i" "e0 = e' - int j" by (auto simp: e0_def i_def j_def)
  have "real (m * 2 ^ i) * 2 powi e0 \<le> real (n * 2 ^ j) * 2 powi e0"
    using assms(1) powi_shift(1) [of e i] powi_shift(1) [of e' j] e by (simp add: mult_ac)
  then have "m * 2 ^ i \<le> n * 2 ^ j" by (simp del: of_nat_mult)
  then have "mag_value (round_mag f (m * 2 ^ i) e0) \<le> mag_value (round_mag f (n * 2 ^ j) e0)"
    using round_scaled_mono assms(2) by (simp add: mag_value_round del: of_nat_mult)
  then show ?thesis using round_mag_shift [of f m i e] round_mag_shift [of f n j e'] e by simp
qed

text \<open>The rounded value of \<open>m * 2 ^ e\<close> with its sign, before the overflow check.\<close>

definition rounded :: "float_format \<Rightarrow> int \<Rightarrow> int \<Rightarrow> real" where
  "rounded f m e = of_int (sgn m) * mag_value (round_mag f (nat \<bar>m\<bar>) e)"

lemma mag_value_nonneg [simp]: "0 \<le> mag_value p"
  by (simp add: mag_value_def)

lemma abs_value: "real (nat \<bar>m\<bar>) * 2 powi e = \<bar>of_int m * 2 powi e\<bar>"
  by (simp add: abs_mult)

lemma rounded_mono:
  assumes "of_int m * (2::real) powi e \<le> of_int n * 2 powi e'" "0 < precision f"
  shows "rounded f m e \<le> rounded f n e'"
proof -
  let ?M = "mag_value (round_mag f (nat \<bar>m\<bar>) e)" and ?N = "mag_value (round_mag f (nat \<bar>n\<bar>) e')"
  have sg: "0 \<le> of_int k * (2::real) powi x \<longleftrightarrow> 0 \<le> k" "of_int k * (2::real) powi x \<le> 0 \<longleftrightarrow> k \<le> 0" for k x
    by (simp_all add: zero_le_mult_iff mult_le_0_iff)
  consider "0 \<le> m" "0 \<le> n" | "m \<le> 0" "n \<le> 0" | "m \<le> 0" "0 \<le> n"
    using assms(1) sg by (metis order_trans linear)
  then show ?thesis
  proof cases
    case 1
    then have "?M \<le> ?N" using assms by (intro round_mag_mono) simp_all
    then show ?thesis using 1 assms sg
      by (cases "m = 0"; cases "n = 0") (auto simp: rounded_def)
  next
    case 2
    then have "?N \<le> ?M" using assms by (intro round_mag_mono) (simp_all add: abs_of_nonpos)
    then show ?thesis using 2 assms sg
      by (cases "m = 0"; cases "n = 0") (auto simp: rounded_def)
  next
    case 3
    then show ?thesis by (auto simp: rounded_def sgn_if intro: order_trans [of _ 0])
  qed
qed

lemma rounded_pow2:
  "0 < precision f \<Longrightarrow> quantum f \<le> 0 \<Longrightarrow> rounded f (2 ^ l) 0 = 2 ^ l"
proof -
  assume f: "0 < precision f" "quantum f \<le> 0"
  have n: "nat (2 ^ l) = 2 ^ l" by (simp add: nat_power_eq)
  have d: "drop_bits f (2 ^ l) 0 \<le> l" using f by (auto simp: drop_bits_def max_def)
  show ?thesis
    using round_half_even_exact [OF d, of 1] d
    by (simp add: rounded_def mag_value_round n) (simp flip: power_add)
qed

section \<open>Values of finite floats\<close>

text \<open>\<open>float_is x v\<close>: \<open>x\<close> is finite and denotes the real number \<open>v\<close>.\<close>

fun float_is :: "float \<Rightarrow> real \<Rightarrow> bool" where
  "float_is (Fin m e) v \<longleftrightarrow> v = of_int m * 2 powi e"
| "float_is (Inf s) v \<longleftrightarrow> False"
| "float_is NaN v \<longleftrightarrow> False"

lemma f64_format_simps [simp]:
  "precision f64_format = 53" "quantum f64_format = -1074" "emax f64_format = 1024"
  by (simp_all add: f64_format_def)

lemma rounded_nonneg: "0 \<le> m \<Longrightarrow> 0 \<le> rounded f m e"
  by (simp add: rounded_def sgn_if)

lemma abs_rounded: "\<bar>rounded f m e\<bar> = mag_value (round_mag f (nat \<bar>m\<bar>) e)"
  by (cases "m = 0") (simp_all add: rounded_def abs_mult sgn_if mag_value_round)

lemma rounded_bound:
  assumes "\<bar>of_int m * 2 powi e\<bar> \<le> (2::real) ^ l"
  shows "\<bar>rounded f64_format m e\<bar> \<le> 2 ^ l"
proof -
  have "of_int m * 2 powi e \<le> of_int (2 ^ l) * (2::real) powi 0"
    "of_int (- (2 ^ l)) * (2::real) powi 0 \<le> of_int m * 2 powi e"
    using assms by (simp_all add: abs_le_iff)
  then have "rounded f64_format m e \<le> rounded f64_format (2 ^ l) 0"
    "rounded f64_format (- (2 ^ l)) 0 \<le> rounded f64_format m e"
    by (simp_all only: rounded_mono f64_format_simps zero_less_numeral)
  moreover have "rounded f64_format (- (2 ^ l)) 0 = - (rounded f64_format (2 ^ l) 0)"
    by (simp add: rounded_def sgn_minus)
  ultimately show ?thesis by (simp add: rounded_pow2 abs_le_iff)
qed

lemma bitlen_value_bound:
  assumes "n \<noteq> 0" "real n * 2 powi e \<le> 2 ^ l"
  shows "int (bitlen n - 1) + e \<le> int l"
proof -
  have "2 ^ (bitlen n - 1) \<le> n" using bitlen_bounds assms(1) by simp
  then have "real (2 ^ (bitlen n - 1)) \<le> real n" by (simp only: of_nat_le_iff)
  then have "real (2 ^ (bitlen n - 1)) * 2 powi e \<le> real n * 2 powi e"
    by (rule mult_right_mono) simp
  also note assms(2)
  finally have "(2::real) powi (e + int (bitlen n - 1)) \<le> 2 powi int l"
    unfolding powi_add_nat power_int_of_nat by (simp only: of_nat_power of_nat_numeral mult.commute)
  then have "e + int (bitlen n - 1) \<le> int l"
    by (rule power_int_le_imp_le_exp [rotated]) simp_all
  then show ?thesis by simp
qed

lemma round_float_finite:
  assumes "\<bar>of_int m * 2 powi e\<bar> \<le> (2::real) ^ l" "l < 1024"
  shows "float_is (round_float f64_format m e) (rounded f64_format m e)"
proof -
  obtain n e' where r: "round_mag f64_format (nat \<bar>m\<bar>) e = (n, e')" by fastforce
  have "real n * 2 powi e' \<le> 2 ^ l"
    using rounded_bound [OF assms(1)] unfolding abs_rounded by (simp add: r mag_value_def)
  then have "n \<noteq> 0 \<Longrightarrow> int (bitlen n - 1) + e' \<le> int l" by (rule bitlen_value_bound [rotated])
  then have "\<not> (n \<noteq> 0 \<and> int (bitlen n) + e' > 1024)" using assms(2) by fastforce
  then show ?thesis by (auto simp: round_float_def r rounded_def mag_value_def)
qed

lemma float_neg_is: "float_is x v \<Longrightarrow> float_is (float_neg x) (- v)"
  by (cases x) auto

lemma align_value: "e0 \<le> e \<Longrightarrow> of_int (align m e e0) * (2::real) powi e0 = of_int m * 2 powi e"
  using powi_shift(2) [of "nat (e - e0)" e] by (simp add: align_def)

text \<open>
  Bounds for the arithmetic on values up to \<open>2 ^ l\<close>: the result of an operation is finite and
  is the rounding of the exact result, which \<open>rounded_mono\<close> compares.
\<close>

lemma f64_add_value:
  assumes "float_is x v" "float_is y w" "\<bar>v + w\<bar> \<le> 2 ^ l" "l < 1024"
  obtains m e where "of_int m * 2 powi e = v + w"
    "float_is (f64_add x y) (rounded f64_format m e)"
proof -
  obtain m e m' e' where x: "x = Fin m e" "y = Fin m' e'"
    using assms(1,2) by (cases x; cases y) auto
  let ?e = "min e e'" and ?m = "align m e (min e e') + align m' e' (min e e')"
  have v: "of_int ?m * 2 powi ?e = v + w"
    using assms(1,2) x by (simp add: distrib_right align_value)
  then have "float_is (f64_add x y) (rounded f64_format ?m ?e)"
    using assms(3,4) round_float_finite [of ?m ?e l] by (simp add: x Let_def)
  then show thesis using v that by blast
qed

lemma f64_mul_value:
  assumes "float_is x v" "float_is y w" "\<bar>v * w\<bar> \<le> 2 ^ l" "l < 1024"
  obtains m e where "of_int m * 2 powi e = v * w"
    "float_is (f64_mul x y) (rounded f64_format m e)"
proof -
  obtain m e m' e' where x: "x = Fin m e" "y = Fin m' e'"
    using assms(1,2) by (cases x; cases y) auto
  have v: "of_int (m * m') * 2 powi (e + e') = v * w"
    using assms(1,2) x by (simp add: power_int_add)
  then have "float_is (f64_mul x y) (rounded f64_format (m * m') (e + e'))"
    using assms(3,4) round_float_finite [of "m * m'" "e + e'" l] by (simp add: x)
  then show thesis using v that by blast
qed

lemma abs_u64_bound: "0 \<le> k \<Longrightarrow> k < 2 ^ 64 \<Longrightarrow> \<bar>of_int k * 2 powi 0\<bar> \<le> (2::real) ^ 64"
proof -
  assume "0 \<le> k" "k < 2 ^ 64"
  then have "real_of_int k \<le> of_int (2 ^ 64)" by (simp only: of_int_le_iff less_imp_le)
  then show ?thesis using \<open>0 \<le> k\<close> by simp
qed

lemma f64_of_u64_value:
  "float_is (f64_of_u64 x) (rounded f64_format (uint x) 0)" "0 \<le> rounded f64_format (uint x) 0"
  "rounded f64_format (uint x) 0 \<le> 2 ^ 64"
proof -
  have "uint x < 2 ^ LENGTH(64)" by (rule uint_lt2p)
  then have b: "\<bar>of_int (uint x) * 2 powi 0\<bar> \<le> (2::real) ^ 64"
    by (intro abs_u64_bound) simp_all
  show "float_is (f64_of_u64 x) (rounded f64_format (uint x) 0)"
    unfolding f64_of_u64_def by (rule round_float_finite [OF b]) simp
  show "0 \<le> rounded f64_format (uint x) 0"
    by (rule rounded_nonneg) simp
  then show "rounded f64_format (uint x) 0 \<le> 2 ^ 64"
    using rounded_bound [OF b] by simp
qed

lemma f64_of_u64_mono:
  assumes "x \<le> y"
  shows "rounded f64_format (uint x) 0 \<le> rounded f64_format (uint y) 0"
proof (rule rounded_mono)
  have "real_of_int (uint x) \<le> of_int (uint y)"
    using assms by (simp only: of_int_le_iff word_le_def)
  then show "of_int (uint x) * 2 powi 0 \<le> of_int (uint y) * (2::real) powi 0"
    by (simp only: power_int_0_right mult_1_right)
qed simp

section \<open>The saturating cast to \<open>u64\<close>\<close>

lemma floor_value: "\<lfloor>of_int m * (2::real) powi e\<rfloor> = (if 0 \<le> e then m * 2 ^ nat e else m div 2 ^ nat (- e))"
proof (cases "0 \<le> e")
  case True
  then have "of_int m * (2::real) powi e = of_int (m * 2 ^ nat e)"
    by (simp add: power_int_def)
  then show ?thesis using True by (simp only: floor_of_int if_True)
next
  case False
  then obtain j where e: "e = - int j" by (metis minus_minus nonneg_int_cases linear neg_0_le_iff_le)
  have "of_int m * (2::real) powi e = of_int m / of_int (2 ^ j)"
    by (simp add: e power_int_minus divide_inverse)
  then have "\<lfloor>of_int m * (2::real) powi e\<rfloor> = m div 2 ^ j"
    by (simp only: floor_divide_of_int_eq)
  then show ?thesis using False e by simp
qed

lemma f64_to_u64_value:
  "float_is x v \<Longrightarrow> uint (f64_to_u64 x) = max 0 (min (2 ^ 64 - 1) \<lfloor>v\<rfloor>)"
proof (cases x)
  case (Fin m e)
  assume "float_is x v"
  then have v: "\<lfloor>v\<rfloor> = (if 0 \<le> e then m * 2 ^ nat e else m div 2 ^ nat (- e))"
    using Fin by (simp only: float_is.simps floor_value)
  have s: "uint (saturate_u64 t) = max 0 (min (2 ^ 64 - 1) t)" for t
    by (auto simp: saturate_u64_def max_def min_def uint_word_of_int unsigned_minus_1_eq_mask mask_eq_exp_minus_1)
  show ?thesis
  proof (cases "0 \<le> m")
    case True
    then have "trunc_int m e = \<lfloor>v\<rfloor>" by (auto simp: trunc_int_def v sgn_if)
    then show ?thesis using Fin s by simp
  next
    case False
    then have "v < 0" using \<open>float_is x v\<close> Fin by (simp add: mult_less_0_iff)
    moreover have "trunc_int m e \<le> 0"
      using False by (simp add: trunc_int_def sgn_if mult_le_0_iff pos_imp_zdiv_nonneg_iff)
    ultimately show ?thesis using Fin s by simp
  qed
qed simp_all

lemma f64_to_u64_mono:
  assumes "float_is x v" "float_is y w" "v \<le> w"
  shows "f64_to_u64 x \<le> f64_to_u64 y"
proof -
  have "\<lfloor>v\<rfloor> \<le> \<lfloor>w\<rfloor>" using assms(3) by (rule floor_mono)
  then show ?thesis
    using assms by (auto simp: word_le_def f64_to_u64_value max_def min_def)
qed

end
