(* ===== verification/Vrf_Selection.thy ===== *)
theory Vrf_Selection
  imports Ecvrf Machine_Float
begin

text \<open>
  Selection of an operator by its VRF output: the \<open>Sampler\<close> of \<open>crates/vrf/src/sample.rs\<close>
  and \<open>VRFPrivKey::run_vrf\<close> with its reply from \<open>operator/runer/src/api/vrf_key.rs\<close>. The
  \<open>BigUint\<close> of the package \<open>num-bigint\<close> is a number without a bound, \<open>nat\<close>; its reader of
  hexadecimal text and \<open>hex::encode\<close> are parameters.
\<close>

section \<open>Sampler\<close>

record sampler =
  sampler_precision :: u64

definition sampler_new :: "u64 \<Rightarrow> sampler" where
  "sampler_new p = \<lparr>sampler_precision = p\<rparr>"

definition hex_to_biguint ::
  "(string \<Rightarrow> nat option) \<Rightarrow> sampler \<Rightarrow> string \<Rightarrow> (nat, string) outcome" where
  "hex_to_biguint big_from_hex smp hex_str =
     unwrap_option ''Invalid hex string'' (big_from_hex hex_str)"

definition calculate_threshold :: "sampler \<Rightarrow> float \<Rightarrow> nat" where
  "calculate_threshold smp probability =
     (let max_output = (1 :: nat) * 2 ^ unat (sampler_precision smp)
      in max_output * unat (f64_to_u64 (f64_mul probability (Fin 100 0))) div 100)"

definition meets_threshold :: "sampler \<Rightarrow> nat \<Rightarrow> nat \<Rightarrow> bool" where
  "meets_threshold smp out threshold \<longleftrightarrow> out < threshold"

section \<open>Running the VRF\<close>

record vrf_reply =
  vr_selected :: bool
  vr_prompt_hash :: string
  vr_random_value :: string
  vr_verify_pubkey :: string
  vr_proof :: string

definition default_vrf_reply :: vrf_reply where
  "default_vrf_reply =
     \<lparr>vr_selected = False, vr_prompt_hash = [], vr_random_value = [], vr_verify_pubkey = [],
      vr_proof = []\<rparr>"

definition run_vrf ::
  "profile \<Rightarrow> ('p, 's) curve \<Rightarrow> (bytes \<Rightarrow> string) \<Rightarrow> (string \<Rightarrow> nat option) \<Rightarrow>
   vrf_private_key \<Rightarrow> string \<Rightarrow> u64 \<Rightarrow> u64 \<Rightarrow> (vrf_reply, string) outcome option" where
  "run_vrf b C hex_encode big_from_hex sk prompt_hash vrf_precision vrf_threshold =
     (let public_key = public_from C sk in
      bind_running (prove b C sk (string_bytes prompt_hash)) (\<lambda>pf.
        let output = output_from C pf;
            end_pos = of_nat (OUTPUT_LENGTH * 2) :: u64
        in Some (
          and_then (sub_op b end_pos vrf_precision) (\<lambda>start.
          let random_num = hex_encode output in
          and_then (str_slice (unat start) (unat end_pos) random_num) (\<lambda>random_str.
          and_then (mul_op b vrf_precision 4) (\<lambda>bits.
          let vrf_sampler = sampler_new bits in
          and_then (hex_to_biguint big_from_hex vrf_sampler random_str) (\<lambda>random_bigint.
          let selected = meets_threshold vrf_sampler random_bigint (unat vrf_threshold)
          in Ok \<lparr>vr_selected = selected, vr_prompt_hash = prompt_hash,
                 vr_random_value = random_num, vr_verify_pubkey = hex_encode public_key,
                 vr_proof = hex_encode (proof_to_bytes C pf)\<rparr>)))))))"

section \<open>The value of hexadecimal text\<close>

definition hex_value :: "string \<Rightarrow> nat" where
  "hex_value s = foldl (\<lambda>a c. a * 16 + the (to_digit 16 c)) 0 s"

text \<open>What the packages document: lower-case encoding, and reading digits of base 16.\<close>

definition hex_laws :: "(bytes \<Rightarrow> string) \<Rightarrow> (string \<Rightarrow> nat option) \<Rightarrow> bool" where
  "hex_laws hex_encode big_from_hex \<longleftrightarrow>
     (\<forall>bs. hex_encode bs = hex_lower bs) \<and> big_from_hex [] = None \<and>
     (\<forall>s. s \<noteq> [] \<and> list_all is_ascii_hexdigit s \<longrightarrow> big_from_hex s = Some (hex_value s))"

lemma hex_fold_append:
  "foldl (\<lambda>a c. a * 16 + the (to_digit 16 c)) acc s =
     acc * 16 ^ length s + foldl (\<lambda>a c. a * 16 + the (to_digit 16 c)) (0 :: nat) s"
proof (induction s arbitrary: acc)
  case (Cons c s)
  show ?case
    using Cons [of "acc * 16 + the (to_digit 16 c)"] Cons [of "the (to_digit 16 c)"]
    by (simp add: algebra_simps)
qed simp

lemma hex_value_append: "hex_value (s @ t) = hex_value s * 16 ^ length t + hex_value t"
  unfolding hex_value_def foldl_append by (rule hex_fold_append)

lemma to_digit_bound: "is_ascii_hexdigit c \<Longrightarrow> the (to_digit 16 c) < 16"
  by (auto simp: is_ascii_hexdigit_to_digit to_digit_def Let_def split: if_splits)

lemma hex_value_bound: "list_all is_ascii_hexdigit s \<Longrightarrow> hex_value s < 16 ^ length s"
proof (induction s rule: rev_induct)
  case (snoc c s)
  then have "hex_value s + 1 \<le> 16 ^ length s" "the (to_digit 16 c) < 16"
    by (simp_all add: to_digit_bound)
  then have "hex_value s * 16 + the (to_digit 16 c) < 16 ^ length s * 16" by linarith
  then show ?case by (simp add: hex_value_append) (simp add: hex_value_def mult.commute)
qed (simp add: hex_value_def)

lemma hex_value_hex_byte: "hex_value (hex_byte b) = unat b"
  by (simp add: hex_value_def hex_byte_def less_mult_imp_div_less)

lemma hex_value_hex_lower: "hex_value (hex_lower bs) = le_val (rev bs)"
proof (induction bs)
  case (Cons b bs)
  have "hex_lower (b # bs) = hex_byte b @ hex_lower bs" by (simp add: hex_lower_def)
  then show ?case
    using Cons by (simp add: hex_value_append hex_value_hex_byte le_val_append power_mult)
qed (simp add: hex_value_def hex_lower_def)

lemma hex_value_last_digits:
  assumes "list_all is_ascii_hexdigit s" "k \<le> length s"
  shows "hex_value (drop (length s - k) s) = hex_value s mod 16 ^ k"
proof -
  let ?t = "drop (length s - k) s"
  have "s = take (length s - k) s @ ?t" by simp
  then have "hex_value s = hex_value (take (length s - k) s) * 16 ^ k + hex_value ?t"
    using assms(2) hex_value_append [of "take (length s - k) s" ?t] by simp
  moreover have "hex_value ?t < 16 ^ k"
    using hex_value_bound [of ?t] assms
    by (metis add_diff_cancel_right' diff_diff_cancel length_drop append_take_drop_id list_all_append)
  ultimately show ?thesis by simp
qed

section \<open>Lemmas on a run\<close>

lemma end_position: "unat (of_nat (OUTPUT_LENGTH * 2) :: u64) = 128"
  by (simp add: OUTPUT_LENGTH_def)

lemma length_output: "curve_laws C \<Longrightarrow> length (output_from C pf) = 64"
  by (simp add: output_from_def curve_lawsD)

lemma u64_le_128: "p \<le> (128 :: u64) \<longleftrightarrow> unat p \<le> 128"
  by (simp add: word_le_nat_alt)

text \<open>The digits a run looks at: the last \<open>vrf_precision\<close> ones of the output.\<close>

lemma run_vrf_random_str:
  assumes "curve_laws C" "unat p \<le> 128"
  shows "(str_slice (unat ((of_nat (OUTPUT_LENGTH * 2) :: u64) - p)) 128 (hex_lower (output_from C pf))
           :: (string, string) outcome)
     = Ok (drop (128 - unat p) (hex_lower (output_from C pf)))"
proof -
  have "unat ((128 :: u64) - p) = 128 - unat p"
    using assms(2) by (simp add: unat_sub u64_le_128)
  then show ?thesis
    using assms length_output [OF assms(1), of pf]
    by (simp add: str_slice_ascii is_ascii_hexdigits OUTPUT_LENGTH_def)
qed

lemma last_digits_value:
  assumes "curve_laws C" "unat p \<le> 128"
  shows "hex_value (drop (128 - unat p) (hex_lower (output_from C pf)))
     = le_val (rev (output_from C pf)) mod 16 ^ unat p"
  using hex_value_last_digits [of "hex_lower (output_from C pf)" "unat p"] assms
  by (simp add: length_output hex_value_hex_lower)

lemma run_vrf_reply:
  assumes "curve_laws C" "hex_laws hex_encode big_from_hex"
    and "prove b C sk (string_bytes h) = Some (Ok pf)" "0 < unat p" "unat p \<le> 128"
  shows "run_vrf b C hex_encode big_from_hex sk h p t =
    Some (Ok \<lparr>vr_selected = le_val (rev (output_from C pf)) mod 16 ^ unat p < unat t,
              vr_prompt_hash = h,
              vr_random_value = hex_lower (output_from C pf),
              vr_verify_pubkey = hex_lower (public_from C sk),
              vr_proof = hex_lower (proof_to_bytes C pf)\<rparr>)"
proof -
  let ?s = "drop (128 - unat p) (hex_lower (output_from C pf))"
  have enc: "hex_encode bs = hex_lower bs" for bs
    using assms(2) by (simp add: hex_laws_def)
  have "?s \<noteq> []" "list_all is_ascii_hexdigit ?s"
    using assms(4,5) length_output [OF assms(1), of pf] hex_lower_hexdigits [of "output_from C pf"]
    by (simp_all add: list_all_iff) (meson in_set_dropD)
  then have big: "big_from_hex ?s = Some (le_val (rev (output_from C pf)) mod 16 ^ unat p)"
    using assms(1,2,5) by (simp add: hex_laws_def last_digits_value)
  have sub: "sub_op b (of_nat (OUTPUT_LENGTH * 2) :: u64) p = Ok (of_nat (OUTPUT_LENGTH * 2) - p)"
    by (rule sub_op_fits) (use assms(5) in \<open>simp add: end_position del: of_nat_mult\<close>)
  have mul: "mul_op b p (4 :: u64) = Ok (p * 4)"
    by (rule mul_op_fits) (use assms(5) in simp)
  show ?thesis
    unfolding run_vrf_def Let_def
    by (simp add: assms(3) bind_running_def sub mul end_position enc run_vrf_random_str [OF assms(1,5)]
        hex_to_biguint_def big meets_threshold_def del: of_nat_mult)
qed

text \<open>A reader of hexadecimal text that satisfies the laws.\<close>

definition sample_big_from_hex :: "string \<Rightarrow> nat option" where
  "sample_big_from_hex s = (if s = [] then None else Some (hex_value s))"

lemma sample_hex_laws: "hex_laws hex_lower sample_big_from_hex"
  by (simp add: hex_laws_def sample_big_from_hex_def)

lemma sample_prove: "\<exists>pf. prove b sample_curve sk alpha = Some (Ok pf)"
  by (simp add: prove_def prove_expanded_def sample_hash_to_curve bind_running_def Let_def)

section \<open>Properties\<close>

text \<open>C2. For a precision from 1 to 128 digits, a run that obtains a proof returns a reply with the
  prompt hash, the output and the proof in hexadecimal, and it selects the operator exactly when
  the output, as a big-endian number, is below the threshold modulo \<open>16 ^ precision\<close>.\<close>

theorem run_vrf_selects:
  assumes "curve_laws C" "hex_laws hex_encode big_from_hex"
    and "prove b C sk (string_bytes h) = Some (Ok pf)" "0 < unat p" "unat p \<le> 128"
  shows "run_vrf b C hex_encode big_from_hex sk h p t =
    Some (Ok \<lparr>vr_selected = le_val (rev (output_from C pf)) mod 16 ^ unat p < unat t,
              vr_prompt_hash = h,
              vr_random_value = hex_lower (output_from C pf),
              vr_verify_pubkey = hex_lower (public_from C sk),
              vr_proof = hex_lower (proof_to_bytes C pf)\<rparr>)"
  using assms by (rule run_vrf_reply)

theorem run_vrf_selects_witness:
  "\<exists>pf. run_vrf Debug sample_curve hex_lower sample_big_from_hex (replicate 32 7) ''ab'' 6 99 =
    Some (Ok \<lparr>vr_selected = le_val (rev (output_from sample_curve pf)) mod 16 ^ 6 < 99,
              vr_prompt_hash = ''ab'',
              vr_random_value = hex_lower (output_from sample_curve pf),
              vr_verify_pubkey = hex_lower (public_from sample_curve (replicate 32 7)),
              vr_proof = hex_lower (proof_to_bytes sample_curve pf)\<rparr>)"
  using sample_prove [of Debug "replicate 32 7" "string_bytes ''ab''"]
    run_vrf_selects [OF sample_curve_laws sample_hex_laws, where p = 6 and t = 99]
  by fastforce

text \<open>C4. A reply speaks for itself: from its hexadecimal fields anybody can read the public key and
  the proof, \<open>verify\<close> accepts the proof for the prompt hash, the random value is the output of the
  proof, and the selection follows from its last digits and the threshold. The only thing asked of
  the key is that its point is not of small order.\<close>

theorem vrf_reply_verifiable:
  assumes "curve_laws C" "hex_laws hex_encode big_from_hex" "\<And>bs. hex_decode (hex_encode bs) = Some bs"
    and "length sk = 32" "0 < unat p" "unat p \<le> 128"
    and "\<not> is_small_order C (point_mul C (basepoint C) (key_scalar (expanded_from C sk)))"
    and "run_vrf b C hex_encode big_from_hex sk h p t = Some (Ok r)"
  shows "\<exists>pf.
    from_encoded_string hex_decode (public_try_from C) (vr_verify_pubkey r) = Ok (public_from C sk) \<and>
    from_encoded_string hex_decode (proof_try_from C) (vr_proof r) = Ok pf \<and>
    verify b C (public_from C sk) pf (string_bytes (vr_prompt_hash r)) = Some (Ok ()) \<and>
    vr_random_value r = hex_encode (output_from C pf) \<and>
    vr_selected r = (hex_value (drop (128 - unat p) (vr_random_value r)) < unat t)"
proof -
  obtain pf where pf: "prove b C sk (string_bytes h) = Some (Ok pf)"
    using assms(8) by (auto simp: run_vrf_def bind_running_def split: option.splits outcome.splits)
  have enc: "hex_encode bs = hex_lower bs" for bs using assms(2) by (simp add: hex_laws_def)
  then have dec: "hex_decode (hex_lower bs) = Some bs" for bs using assms(3) by metis
  have r: "r = \<lparr>vr_selected = le_val (rev (output_from C pf)) mod 16 ^ unat p < unat t,
      vr_prompt_hash = h, vr_random_value = hex_lower (output_from C pf),
      vr_verify_pubkey = hex_lower (public_from C sk), vr_proof = hex_lower (proof_to_bytes C pf)\<rparr>"
    using run_vrf_reply [OF assms(1,2) pf assms(5,6)] assms(8) by simp
  show ?thesis
    using prove_reads_back [OF assms(1) pf] proved_verifies [OF assms(1,4) pf]
      public_key_reads_back [OF assms(1,4,7)] last_digits_value [OF assms(1,6)]
    by (intro exI [of _ pf]) (simp add: r from_encoded_string_def dec enc ok_or_def)
qed

text \<open>A decoder that inverts \<open>hex_lower\<close>, and a key whose point has a large order.\<close>

definition sample_hex_decode :: "string \<Rightarrow> bytes option" where
  "sample_hex_decode s =
     (case traverse
        (\<lambda>i. and_then (str_slice i (i + 2) s) (\<lambda>t. map_err (\<lambda>_. DeserializationError) (parse_u8_hex t)))
        (map (\<lambda>k. 2 * k) [0..<length s div 2]) of
        Ok bs \<Rightarrow> Some bs
      | _ \<Rightarrow> None)"

lemma sample_hex_decode_lower: "sample_hex_decode (hex_lower bs) = Some bs"
  unfolding sample_hex_decode_def by (simp add: hex_pairs [unfolded add_2_eq_Suc'])

lemma sample_key_order:
  "\<not> is_small_order sample_curve
     (point_mul sample_curve (basepoint sample_curve) (key_scalar (expanded_from sample_curve (replicate 32 7))))"
proof -
  have "take 32 (sample_sha512 (replicate 32 7)) = replicate 32 (7 :: u8)"
    by (simp add: sample_sha512_def)
  also have "replicate 32 (7 :: u8) =
      [7,7,7,7,7,7,7,7,7,7,7,7,7,7,7,7,7,7,7,7,7,7,7,7,7,7,7,7,7,7,7,7]"
    by code_simp
  finally have "clamp (take 32 (sample_sha512 (replicate 32 7))) =
      [0,7,7,7,7,7,7,7,7,7,7,7,7,7,7,7,7,7,7,7,7,7,7,7,7,7,7,7,7,7,7,71]"
    by (simp only:) (simp add: clamp_def Let_def)
  then show ?thesis
    by (simp add: sample_curve_def expanded_from_def Let_def bytes_word_def)
qed

theorem vrf_reply_verifiable_witness:
  "\<exists>r pf. run_vrf Debug sample_curve hex_lower sample_big_from_hex (replicate 32 7) ''ab'' 6 99 = Some (Ok r) \<and>
    from_encoded_string sample_hex_decode (public_try_from sample_curve) (vr_verify_pubkey r) =
      Ok (public_from sample_curve (replicate 32 7)) \<and>
    from_encoded_string sample_hex_decode (proof_try_from sample_curve) (vr_proof r) = Ok pf \<and>
    verify Debug sample_curve (public_from sample_curve (replicate 32 7)) pf
      (string_bytes (vr_prompt_hash r)) = Some (Ok ()) \<and>
    vr_random_value r = hex_lower (output_from sample_curve pf)"
proof -
  obtain r where r: "run_vrf Debug sample_curve hex_lower sample_big_from_hex (replicate 32 7) ''ab'' 6 99 =
      Some (Ok r)"
    using sample_prove [of Debug "replicate 32 7" "string_bytes ''ab''"]
      run_vrf_reply [OF sample_curve_laws sample_hex_laws, where p = 6 and t = 99] by fastforce
  show ?thesis
    using vrf_reply_verifiable [OF sample_curve_laws sample_hex_laws sample_hex_decode_lower _ _ _
        sample_key_order r] r by auto
qed

text \<open>A precision of 0 or of more than 128 digits makes every run that obtains a proof panic, in
  both build profiles. The configuration accepts such a precision.\<close>

theorem run_vrf_bad_precision:
  assumes "curve_laws C" "hex_laws hex_encode big_from_hex"
    and "prove b C sk (string_bytes h) = Some (Ok pf)" "unat p = 0 \<or> 128 < unat p"
  shows "\<exists>m. run_vrf b C hex_encode big_from_hex sk h p t = Some (Panic m)"
proof (cases "unat p = 0")
  case True
  then have "p = 0" by (simp add: unsigned_eq_0_iff)
  then show ?thesis
    using assms(1-3) length_output [OF assms(1), of pf]
    by (simp add: run_vrf_def bind_running_def Let_def sub_op_def mul_op_def end_position hex_laws_def
        str_slice_ascii is_ascii_hexdigits hex_to_biguint_def del: of_nat_mult)
next
  case False
  then have big: "128 < unat p" using assms(4) by simp
  have "unat ((128 :: u64) - p) = 2 ^ 64 + 128 - unat p"
    using big unsigned_less [of p] by (simp add: unat_sub_if_size word_size)
  moreover have "unat p < 2 ^ 64" using unsigned_less [of p] by simp
  ultimately have "128 < unat ((128 :: u64) - p)" using big by simp
  then show ?thesis
    using assms(3) big
    by (simp add: run_vrf_def bind_running_def Let_def sub_op_def str_slice_def OUTPUT_LENGTH_def)
qed

theorem run_vrf_bad_precision_witness:
  "\<exists>m. run_vrf Release sample_curve hex_lower sample_big_from_hex (replicate 32 7) ''ab'' 129 99
     = Some (Panic m)"
proof -
  obtain pf where "prove Release sample_curve (replicate 32 7) (string_bytes ''ab'') = Some (Ok pf)"
    using sample_prove by blast
  then show ?thesis by (rule run_vrf_bad_precision [OF sample_curve_laws sample_hex_laws]) simp
qed

lemma float_100_is: "float_is (Fin 100 0) 100"
  by simp

text \<open>The threshold of a probability between 0 and 1 is at most \<open>2 ^ precision\<close> and grows
  with the probability, through the two roundings of the product and the truncation to an
  integer.\<close>

theorem calculate_threshold_mono:
  assumes "float_is p v" "float_is q w" "0 \<le> v" "v \<le> w" "w \<le> 1"
  shows "calculate_threshold smp p \<le> calculate_threshold smp q \<and>
         calculate_threshold smp q \<le> 2 ^ unat (sampler_precision smp)"
proof -
  have b: "\<bar>v * 100\<bar> \<le> 2 ^ 7" "\<bar>w * 100\<bar> \<le> 2 ^ 7" using assms(3-5) by simp_all
  obtain m e where v: "of_int m * 2 powi e = v * 100"
      "float_is (f64_mul p (Fin 100 0)) (rounded f64_format m e)"
    using f64_mul_value [OF assms(1) float_100_is b(1)] by auto
  obtain m' e' where w: "of_int m' * 2 powi e' = w * 100"
      "float_is (f64_mul q (Fin 100 0)) (rounded f64_format m' e')"
    using f64_mul_value [OF assms(2) float_100_is b(2)] by auto
  have "rounded f64_format m e \<le> rounded f64_format m' e'"
    using assms(4) by (intro rounded_mono) (simp_all add: v w)
  then have "f64_to_u64 (f64_mul p (Fin 100 0)) \<le> f64_to_u64 (f64_mul q (Fin 100 0))"
    using v(2) w(2) by (intro f64_to_u64_mono)
  then have le: "unat (f64_to_u64 (f64_mul p (Fin 100 0))) \<le> unat (f64_to_u64 (f64_mul q (Fin 100 0)))"
    by (simp add: word_le_nat_alt)
  have "rounded f64_format m' e' \<le> rounded f64_format 100 0"
    using assms(5) by (intro rounded_mono) (simp_all add: w)
  also have "rounded f64_format 100 0 = 100"
    by (simp add: rounded_def round_mag_drop drop_bits_def mag_value_def bitlen.simps)
  finally have "\<lfloor>rounded f64_format m' e'\<rfloor> \<le> 100" by linarith
  then have "uint (f64_to_u64 (f64_mul q (Fin 100 0))) \<le> 100"
    using w(2) by (simp add: f64_to_u64_value)
  then have "nat (uint (f64_to_u64 (f64_mul q (Fin 100 0)))) \<le> nat 100"
    by (rule nat_mono)
  then have "unat (f64_to_u64 (f64_mul q (Fin 100 0))) \<le> 100"
    by simp
  then have "2 ^ unat (sampler_precision smp) * unat (f64_to_u64 (f64_mul q (Fin 100 0))) div 100
      \<le> 2 ^ unat (sampler_precision smp) * 100 div 100"
    by (rule div_le_mono [OF mult_le_mono2])
  moreover have "2 ^ unat (sampler_precision smp) * unat (f64_to_u64 (f64_mul p (Fin 100 0))) div 100
      \<le> 2 ^ unat (sampler_precision smp) * unat (f64_to_u64 (f64_mul q (Fin 100 0))) div 100"
    by (rule div_le_mono [OF mult_le_mono2 [OF le]])
  ultimately show ?thesis
    unfolding calculate_threshold_def Let_def by simp
qed

theorem calculate_threshold_mono_witness:
  "calculate_threshold (sampler_new 512) (Fin 1 (-2)) \<le> calculate_threshold (sampler_new 512) (Fin 1 (-1))"
  using calculate_threshold_mono [of "Fin 1 (-2)" "1 / 4" "Fin 1 (-1)" "1 / 2" "sampler_new 512"]
  by (simp add: power_int_minus)

text \<open>The truncation after the product drops a percent: for the probability 0.29 the threshold
  is 28 hundredths of the range, for every precision.\<close>

theorem calculate_threshold_29:
  "calculate_threshold smp (Fin 5224175567749775 (-54)) =
     28 * 2 ^ unat (sampler_precision smp) div 100"
proof -
  have "bitlen 522417556774977500 = Suc 58"
    by (rule bitlen_unique) simp_all
  then have mag: "round_mag f64_format 522417556774977500 (-54) = (8162774324609023, -48)"
    by (simp add: round_mag_def round_half_even_def)
  have "bitlen 8162774324609023 = Suc 52"
    by (rule bitlen_unique) simp_all
  then have "f64_mul (Fin 5224175567749775 (-54)) (Fin 100 0) = Fin 8162774324609023 (-48)"
    by (simp add: round_float_def mag)
  then have "f64_to_u64 (f64_mul (Fin 5224175567749775 (-54)) (Fin 100 0)) = 28"
    by (simp only: f64_to_u64.simps) (simp add: trunc_int_def saturate_u64_def)
  then show ?thesis by (simp add: calculate_threshold_def mult.commute)
qed

end
