(* ===== verification/Node_Config.thy ===== *)
theory Node_Config
  imports Prelude
begin

text \<open>
  Configuration of the operator: the address and key checks of
  \<open>crates/tools/src/helper.rs\<close>, the configuration records, their validation and loading from
  \<open>operator/node_api/src/config.rs\<close>, the error codes of \<open>operator/node_api/src/error.rs\<close>, and
  the way \<open>construct_node_config\<close> of \<open>operator/runer/src/cli/operator.rs\<close> turns a load
  result into a running process, an exit code or a panic. The file system and the YAML parser are
  parameters.
\<close>

section \<open>Address and key checks\<close>

definition remove_0x_prefix :: "string \<Rightarrow> string" where
  "remove_0x_prefix s = (if starts_with ''0x'' s then drop 2 s else s)"

definition validate_addr :: "string \<Rightarrow> bool" where
  "validate_addr i =
     (let i' = remove_0x_prefix i in
      if length i' \<noteq> 40 then False
      else if \<not> list_all is_ascii_hexdigit i' then False
      else True)"

definition validate_key :: "string \<Rightarrow> bool" where
  "validate_key i =
     (let i' = remove_0x_prefix i in
      if length i' \<noteq> 64 then False
      else if \<not> list_all is_ascii_hexdigit i' then False
      else True)"

section \<open>Configuration records\<close>

record db_config =
  storage_root_path :: "string option"
  pg_db_url :: string
  pg_db_name :: string
  max_connect_pool :: u32
  min_connect_pool :: u32
  connect_timeout :: u64
  acquire_timeout :: u64

record q_config =
  queue_url :: string

record network_config =
  rest_url :: string
  outer_url :: string
  dispatcher_url :: string
  callback_url :: string
  tee_llm_cid :: u32
  tee_llm_port :: u32

record node_config =
  nc_node_id :: string
  nc_signer_key :: string
  nc_vrf_key :: string
  dispatcher_address :: string
  nc_node_type :: string
  cache_msg_maximum :: u64
  heartbeat_interval :: u64
  ai_models :: "string list"

record chain_config =
  chain_rpc_url :: string
  vrf_range_contract :: string
  vrf_sort_precision :: u16

record api_config =
  read_maximum :: u64

record operator_config =
  oc_db :: db_config
  oc_queue :: q_config
  oc_net :: network_config
  oc_node :: node_config
  oc_chain :: chain_config
  oc_api :: api_config

section \<open>Errors\<close>

datatype io_error = NotFound | OtherIo string

datatype config_error =
    ConfigMissing string
  | SerializationError string
  | IoError io_error
  | IllegalNodeId
  | IllegalSignerKey

fun config_error_code :: "config_error \<Rightarrow> nat" where
  "config_error_code (ConfigMissing p) = 1001"
| "config_error_code (SerializationError e) = 1002"
| "config_error_code (IoError e) = 1003"
| "config_error_code IllegalNodeId = 1004"
| "config_error_code IllegalSignerKey = 1005"

definition PROCESS_EXIT :: int where
  "PROCESS_EXIT = 42"

section \<open>Validation and loading\<close>

definition validate_config :: "operator_config \<Rightarrow> (operator_config, config_error) outcome" where
  "validate_config config =
     (if \<not> validate_addr (nc_node_id (oc_node config)) then Err IllegalNodeId
      else if \<not> validate_key (nc_signer_key (oc_node config)) then Err IllegalSignerKey
      else Ok config)"

definition load_config ::
  "(string \<Rightarrow> (string, io_error) outcome) \<Rightarrow> (string \<Rightarrow> (operator_config, string) outcome) \<Rightarrow>
   string \<Rightarrow> (operator_config, config_error) outcome" where
  "load_config read_to_string from_yaml path =
     and_then
       (map_err (\<lambda>e. if e = NotFound then ConfigMissing path else IoError e) (read_to_string path))
       (\<lambda>config_yaml.
          and_then (map_err SerializationError (from_yaml config_yaml)) validate_config)"

text \<open>
  \<open>construct_node_config\<close>: \<open>Err c\<close> is \<open>std::process::exit(c)\<close>; the last arm of the
  match calls \<open>expect\<close>, which panics on the errors that have no arm of their own.
\<close>

definition construct_node_config ::
  "(string \<Rightarrow> (string, io_error) outcome) \<Rightarrow> (string \<Rightarrow> (operator_config, string) outcome) \<Rightarrow>
   string \<Rightarrow> (operator_config, int) outcome" where
  "construct_node_config read_to_string from_yaml config_path =
     (case load_config read_to_string from_yaml config_path of
        Err (ConfigMissing p) \<Rightarrow> Err PROCESS_EXIT
      | Err (SerializationError e) \<Rightarrow> Err PROCESS_EXIT
      | Err IllegalNodeId \<Rightarrow> Err PROCESS_EXIT
      | result \<Rightarrow> unwrap ''failed to load zhronod config'' result)"

section \<open>Lemmas\<close>

lemma validate_addr_iff:
  "validate_addr i \<longleftrightarrow>
     length (remove_0x_prefix i) = 40 \<and> list_all is_ascii_hexdigit (remove_0x_prefix i)"
  by (simp add: validate_addr_def Let_def)

lemma validate_key_iff:
  "validate_key i \<longleftrightarrow>
     length (remove_0x_prefix i) = 64 \<and> list_all is_ascii_hexdigit (remove_0x_prefix i)"
  by (simp add: validate_key_def Let_def)

lemma starts_with_append: "starts_with p (p @ s)"
  by (simp add: starts_with_def)

lemma remove_0x_prefix_cases:
  "remove_0x_prefix s = t \<longleftrightarrow> s = ''0x'' @ t \<or> (s = t \<and> \<not> starts_with ''0x'' s)"
proof (cases "starts_with ''0x'' s")
  case True
  then have "s = ''0x'' @ drop 2 s"
    by (metis append_take_drop_id starts_with_def length_Cons list.size(3) numeral_2_eq_2)
  then show ?thesis using True by (auto simp: remove_0x_prefix_def)
next
  case False
  then show ?thesis using starts_with_append [of "''0x''" t] by (auto simp: remove_0x_prefix_def)
qed

lemma hexdigits_no_0x: "list_all is_ascii_hexdigit s \<Longrightarrow> \<not> starts_with ''0x'' s"
proof
  assume h: "list_all is_ascii_hexdigit s" and "starts_with ''0x'' s"
  then obtain t where "s = CHR ''0'' # CHR ''x'' # t"
    using remove_0x_prefix_cases [of s "drop 2 s"] by (auto simp: remove_0x_prefix_def)
  with h show False by (simp add: is_ascii_hexdigit_def)
qed

text \<open>Two strings of \<open>n\<close> hexadecimal digits, with and without the prefix, are what is accepted.\<close>

lemma prefixed_hex_cases:
  "length (remove_0x_prefix s) = n \<and> list_all is_ascii_hexdigit (remove_0x_prefix s) \<longleftrightarrow>
   (\<exists>d. length d = n \<and> list_all is_ascii_hexdigit d \<and> (s = d \<or> s = ''0x'' @ d))"
  using remove_0x_prefix_cases [of s "remove_0x_prefix s"]
    remove_0x_prefix_cases [of s] hexdigits_no_0x
  by metis

section \<open>Properties\<close>

text \<open>A configuration is accepted, unchanged, exactly when the node id is 40 and the signer
  key 64 hexadecimal digits, each with or without \<open>0x\<close> in front; otherwise the first of the two
  that is wrong determines the error.\<close>

theorem validate_config_accepts:
  "validate_config c =
     (if \<nexists>d. length d = 40 \<and> list_all is_ascii_hexdigit d \<and>
            (nc_node_id (oc_node c) = d \<or> nc_node_id (oc_node c) = ''0x'' @ d)
      then Err IllegalNodeId
      else if \<nexists>d. length d = 64 \<and> list_all is_ascii_hexdigit d \<and>
            (nc_signer_key (oc_node c) = d \<or> nc_signer_key (oc_node c) = ''0x'' @ d)
      then Err IllegalSignerKey
      else Ok c)"
  unfolding validate_config_def validate_addr_iff validate_key_iff prefixed_hex_cases ..

text \<open>\<open>construct_node_config\<close> has no arm for a bad signer key: for a file that reads and
  parses to a configuration with a good node id and a bad signer key it panics instead of exiting
  with code 42, as it does for a bad node id.\<close>

theorem bad_signer_key_panics:
  assumes "read_to_string path = Ok yaml" "from_yaml yaml = Ok c"
  shows "(\<not> validate_addr (nc_node_id (oc_node c)) \<longrightarrow>
            construct_node_config read_to_string from_yaml path = Err 42)
    \<and> (validate_addr (nc_node_id (oc_node c)) \<and> \<not> validate_key (nc_signer_key (oc_node c)) \<longrightarrow>
            is_panic (construct_node_config read_to_string from_yaml path))
    \<and> (validate_addr (nc_node_id (oc_node c)) \<and> validate_key (nc_signer_key (oc_node c)) \<longrightarrow>
            construct_node_config read_to_string from_yaml path = Ok c)"
  using assms
  by (simp add: construct_node_config_def load_config_def validate_config_def PROCESS_EXIT_def)

definition sample_config :: "string \<Rightarrow> string \<Rightarrow> operator_config" where
  "sample_config nid key =
     \<lparr>oc_db = \<lparr>storage_root_path = None, pg_db_url = ''u'', pg_db_name = ''n'', max_connect_pool = 30,
        min_connect_pool = 10, connect_timeout = 30, acquire_timeout = 60\<rparr>,
      oc_queue = \<lparr>queue_url = ''redis''\<rparr>,
      oc_net = \<lparr>rest_url = ''r'', outer_url = ''o'', dispatcher_url = ''d'', callback_url = ''c'',
        tee_llm_cid = 15, tee_llm_port = 5005\<rparr>,
      oc_node = \<lparr>nc_node_id = nid, nc_signer_key = key, nc_vrf_key = key, dispatcher_address = ''a'',
        nc_node_type = ''opml'', cache_msg_maximum = 500, heartbeat_interval = 10, ai_models = []\<rparr>,
      oc_chain = \<lparr>chain_rpc_url = ''h'', vrf_range_contract = ''v'', vrf_sort_precision = 6\<rparr>,
      oc_api = \<lparr>read_maximum = 20\<rparr>\<rparr>"

theorem bad_signer_key_panics_witness:
  "let c = sample_config (replicate 40 CHR ''a'') ''short''
   in is_panic (construct_node_config (\<lambda>p. Ok ''yaml'') (\<lambda>y. Ok c) ''config.yaml'')"
proof -
  let ?c = "sample_config (replicate 40 CHR ''a'') ''short''"
  have "validate_addr (nc_node_id (oc_node ?c))" "\<not> validate_key (nc_signer_key (oc_node ?c))"
    by (simp_all add: sample_config_def validate_addr_def validate_key_def remove_0x_prefix_def
        starts_with_def is_ascii_hexdigit_def list_all_iff)
  then show ?thesis
    using bad_signer_key_panics [of "\<lambda>p. Ok ''yaml''" "''config.yaml''" "''yaml''" "\<lambda>y. Ok ?c" ?c]
    by simp
qed

end
