(* ===== verification/Compute_Vrf.thy ===== *)
theory Compute_Vrf
  imports Vrf_Selection Node_Config Errors
begin

text \<open>
  From a job to a VRF reply: the queries to the range contract of
  \<open>crates/alloy-wrapper/src/contracts/vrf_range.rs\<close> and \<open>compute_vrf\<close> of
  \<open>operator/runer/src/api/msg_handler.rs\<close>. The contract on the chain is a parameter, the record of
  the results its calls return; \<open>U256\<close> of the package \<open>ruint\<close> is a 256-bit word, whose
  subtraction wraps around.
\<close>

section \<open>The range contract\<close>

record range_contract =
  call_num_operators :: "(u256, string) outcome"
  call_max_range :: "(u256, string) outcome"
  call_operators_in_range :: "u256 \<Rightarrow> (bytes list, string) outcome"
  call_operator_ranges :: "bytes \<Rightarrow> (u256 \<times> u256, string) outcome"

definition u64_try_from :: "u256 \<Rightarrow> (u64, string) outcome" where
  "u64_try_from x =
     (if unat x < 2 ^ 64 then Ok (ucast x) else Err ''value does not fit in u64'')"

definition new_vrf_range_backend ::
  "(string \<Rightarrow> ('u, string) outcome) \<Rightarrow> (string \<Rightarrow> (bytes, string) outcome) \<Rightarrow>
   string \<Rightarrow> string \<Rightarrow> ('u \<times> bytes, string) outcome" where
  "new_vrf_range_backend parse_url parse_address rpc address =
     and_then (parse_url rpc) (\<lambda>endpoint.
     and_then (parse_address address) (\<lambda>a. Ok (endpoint, a)))"

definition get_num_operators :: "range_contract \<Rightarrow> (u256, string) outcome" where
  "get_num_operators ct = and_then (call_num_operators ct) (\<lambda>n. Ok n)"

definition get_max_range :: "range_contract \<Rightarrow> (u64, string) outcome" where
  "get_max_range ct = and_then (call_max_range ct) u64_try_from"

definition get_operator_range_by_seed ::
  "range_contract \<Rightarrow> u64 \<Rightarrow> (bytes list, string) outcome" where
  "get_operator_range_by_seed ct random_seed =
     and_then (call_operators_in_range ct (ucast random_seed)) (\<lambda>l. Ok l)"

definition get_range_len_by_address :: "range_contract \<Rightarrow> bytes \<Rightarrow> (u64, string) outcome" where
  "get_range_len_by_address ct query_addr =
     and_then (call_operator_ranges ct query_addr) (\<lambda>(start, stop).
       let threshold = start - stop in u64_try_from threshold)"

definition get_range_by_address :: "range_contract \<Rightarrow> bytes \<Rightarrow> (u64 \<times> u64, string) outcome" where
  "get_range_by_address ct query_addr =
     and_then (call_operator_ranges ct query_addr) (\<lambda>(start, stop).
     and_then (u64_try_from start) (\<lambda>s.
     and_then (u64_try_from stop) (\<lambda>e. Ok (s, e))))"

section \<open>The selection window\<close>

text \<open>The literals \<open>0.03\<close> and \<open>0.1\<close> of type \<open>f64\<close>.\<close>

definition f64_0_03 :: float where "f64_0_03 = Fin 8646911284551352 (-58)"
definition f64_0_1 :: float where "f64_0_1 = Fin 7205759403792794 (-56)"

definition widen :: "float \<Rightarrow> float \<Rightarrow> float \<Rightarrow> float \<Rightarrow> u64 \<times> u64" where
  "widen start stop max_range ratio =
     (f64_to_u64 (f64_sub start (f64_mul max_range ratio)),
      f64_to_u64 (f64_add stop (f64_mul max_range ratio)))"

definition adjust_range ::
  "string \<Rightarrow> string \<Rightarrow> float \<Rightarrow> float \<Rightarrow> float \<Rightarrow> (u64 \<times> u64, operator_error) outcome" where
  "adjust_range tag position start stop max_range =
     (if tag = ''suspicion'' then Ok (widen start stop max_range f64_0_03)
      else if tag = ''malicious'' then
        (if position = ''before'' then Ok (widen start stop max_range f64_0_1)
         else if position = ''after'' then Ok (widen start stop max_range f64_0_03)
         else Err (OPUnsupportedTagError position))
      else Ok (f64_to_u64 start, f64_to_u64 stop))"

section \<open>\<open>compute_vrf\<close>\<close>

text \<open>\<open>&node_id[2..]\<close> followed by \<open><[u8; 20]>::from_hex\<close>, the parameter.\<close>

definition operator_address ::
  "(string \<Rightarrow> (bytes, string) outcome) \<Rightarrow> string \<Rightarrow> (bytes, operator_error) outcome" where
  "operator_address address_from_hex node_id =
     and_then (str_slice 2 (length node_id) node_id) (\<lambda>t.
       map_err OPFromHexError (address_from_hex t))"

text \<open>The part of \<open>compute_vrf\<close> up to the threshold.\<close>

definition vrf_window ::
  "(string \<Rightarrow> (bytes, string) outcome) \<Rightarrow> range_contract \<Rightarrow> string \<Rightarrow> string \<Rightarrow> string \<Rightarrow>
   (u64 \<times> u64, operator_error) outcome" where
  "vrf_window address_from_hex ct node_id tag position =
     and_then (operator_address address_from_hex node_id) (\<lambda>addr.
     and_then (map_err OPNewVrfRangeContractError (get_range_by_address ct addr)) (\<lambda>(x, y).
     let start = f64_of_u64 x; stop = f64_of_u64 y;
         max_range = f64_of_u64 (case get_max_range ct of Ok r \<Rightarrow> r | _ \<Rightarrow> 0xffffffff)
     in adjust_range tag position start stop max_range))"

definition compute_vrf ::
  "profile \<Rightarrow> ('p, 's) curve \<Rightarrow> (bytes \<Rightarrow> string) \<Rightarrow> (string \<Rightarrow> nat option) \<Rightarrow>
   (string \<Rightarrow> (bytes, string) outcome) \<Rightarrow> range_contract \<Rightarrow> operator_config \<Rightarrow> vrf_private_key \<Rightarrow>
   string \<Rightarrow> string \<Rightarrow> string \<Rightarrow> (vrf_reply, operator_error) outcome option" where
  "compute_vrf b C hex_encode big_from_hex address_from_hex ct config vrf_key tag position prompt =
     bind_running
       (Some (vrf_window address_from_hex ct (nc_node_id (oc_node config)) tag position))
       (\<lambda>range.
     bind_running (Some (sub_op b (snd range) (fst range))) (\<lambda>vrf_threshold.
     let vrf_precision = ucast (vrf_sort_precision (oc_chain config)) :: u64;
         vrf_prompt_hash = hex_lower (sha512 C (string_bytes prompt))
     in map_option (map_err OPIoError)
          (run_vrf b C hex_encode big_from_hex vrf_key vrf_prompt_hash vrf_precision
             vrf_threshold)))"

section \<open>Lemmas: the window\<close>

abbreviation u64_value :: "u64 \<Rightarrow> real" where
  "u64_value x \<equiv> rounded f64_format (uint x) 0"

lemma product_value:
  assumes "float_is c v" "0 \<le> v" "v \<le> 1"
  shows "\<exists>p. float_is (f64_mul (f64_of_u64 r) c) p \<and> 0 \<le> p \<and> p \<le> 2 ^ 64"
proof -
  note r = f64_of_u64_value [of r]
  have nonneg: "0 \<le> u64_value r * v" using r(2) assms(2) by simp
  moreover have "u64_value r * v \<le> 2 ^ 64 * 1"
    using r(2,3) assms(2,3) by (intro mult_mono) simp_all
  ultimately have b: "\<bar>u64_value r * v\<bar> \<le> 2 ^ 64" by simp
  obtain m e where me: "of_int m * 2 powi e = u64_value r * v"
      "float_is (f64_mul (f64_of_u64 r) c) (rounded f64_format m e)"
    using f64_mul_value [OF r(1) assms(1) b] by auto
  have "0 \<le> m" using nonneg me(1) by (metis pow2_not_le not_le mult_less_0_iff of_int_less_0_iff)
  then have "0 \<le> rounded f64_format m e" by (rule rounded_nonneg)
  moreover have "\<bar>rounded f64_format m e\<bar> \<le> 2 ^ 64"
    using b unfolding me(1) [symmetric] by (rule rounded_bound)
  ultimately show ?thesis using me(2) by auto
qed

lemma widen_ordered:
  assumes "x \<le> y" "float_is c v" "0 \<le> v" "v \<le> 1"
  shows "fst (widen (f64_of_u64 x) (f64_of_u64 y) (f64_of_u64 r) c)
    \<le> snd (widen (f64_of_u64 x) (f64_of_u64 y) (f64_of_u64 r) c)"
proof -
  obtain p where p: "float_is (f64_mul (f64_of_u64 r) c) p" "0 \<le> p" "p \<le> 2 ^ 64"
    using product_value [OF assms(2-4)] by blast
  note x = f64_of_u64_value [of x] and y = f64_of_u64_value [of y]
  have b: "\<bar>u64_value x + - p\<bar> \<le> 2 ^ 65" "\<bar>u64_value y + p\<bar> \<le> 2 ^ 65"
    using x y p by (simp_all add: abs_le_iff)
  obtain m e where lo: "of_int m * 2 powi e = u64_value x + - p"
      "float_is (f64_sub (f64_of_u64 x) (f64_mul (f64_of_u64 r) c)) (rounded f64_format m e)"
    using f64_add_value [OF x(1) float_neg_is [OF p(1)] b(1)] by (auto simp: f64_sub_def)
  obtain m' e' where hi: "of_int m' * 2 powi e' = u64_value y + p"
      "float_is (f64_add (f64_of_u64 y) (f64_mul (f64_of_u64 r) c)) (rounded f64_format m' e')"
    using f64_add_value [OF y(1) p(1) b(2)] by auto
  have "u64_value x + - p \<le> u64_value y + p"
    using f64_of_u64_mono [OF assms(1)] p(2) by simp
  then have "rounded f64_format m e \<le> rounded f64_format m' e'"
    by (intro rounded_mono) (simp_all add: lo hi)
  then show ?thesis
    using lo(2) hi(2) by (simp add: widen_def f64_to_u64_mono)
qed

lemma literal_values:
  "float_is f64_0_03 (8646911284551352 / 2 ^ 58)" "float_is f64_0_1 (7205759403792794 / 2 ^ 56)"
  by (simp_all add: f64_0_03_def f64_0_1_def power_int_minus)

lemma adjust_range_ordered:
  assumes "x \<le> y"
    "adjust_range tag position (f64_of_u64 x) (f64_of_u64 y) (f64_of_u64 r) = Ok (lo, hi)"
  shows "lo \<le> hi"
proof -
  have "f64_to_u64 (f64_of_u64 x) \<le> f64_to_u64 (f64_of_u64 y)"
    by (rule f64_to_u64_mono [OF f64_of_u64_value(1) f64_of_u64_value(1) f64_of_u64_mono [OF assms(1)]])
  moreover have "fst (widen (f64_of_u64 x) (f64_of_u64 y) (f64_of_u64 r) c)
      \<le> snd (widen (f64_of_u64 x) (f64_of_u64 y) (f64_of_u64 r) c)" if "c = f64_0_03 \<or> c = f64_0_1" for c
    using that widen_ordered [OF assms(1)] literal_values by fastforce
  ultimately show ?thesis
    using assms(2) by (auto simp: adjust_range_def split: if_splits) (metis fst_conv snd_conv)+
qed

section \<open>Lemmas: an operator without a range\<close>

lemma round_float_zero [simp]: "round_float f64_format 0 e = Fin 0 (e + int (nat (- 1074 - e)))"
  by (simp add: round_float_def round_mag_def max_def)

lemma f64_of_0 [simp]: "f64_of_u64 0 = Fin 0 0"
  by (simp add: f64_of_u64_def)

lemma saturate_trunc_zero [simp]: "saturate_u64 (trunc_int 0 e) = 0"
  by (simp add: trunc_int_def saturate_u64_def)

text \<open>The window of the empty range under the fallback value of the maximal range.\<close>

lemma fallback_widen: "widen (Fin 0 0) (Fin 0 0) (f64_of_u64 0xffffffff) f64_0_03 = (0, 128849018)"
proof -
  have "bitlen 4294967295 = Suc 31" by (rule bitlen_unique) simp_all
  then have r: "f64_of_u64 0xffffffff = Fin 4294967295 0"
    by (simp add: f64_of_u64_def round_float_def round_mag_def)
  have "bitlen 37138201169914495588032840 = Suc 84" by (rule bitlen_unique) simp_all
  then have mag: "round_mag f64_format 37138201169914495588032840 (- 58) = (8646911282538086, - 26)"
    by (simp add: round_mag_def round_half_even_def)
  have l: "bitlen 8646911282538086 = Suc 52" by (rule bitlen_unique) simp_all
  then have p: "f64_mul (f64_of_u64 0xffffffff) f64_0_03 = Fin 8646911282538086 (- 26)"
    unfolding r f64_0_03_def by (simp add: round_float_def mag)
  have mag2: "round_mag f64_format 8646911282538086 (- 26) = (8646911282538086, - 26)"
    by (simp add: round_mag_def l)
  show ?thesis
    unfolding widen_def p
    by (simp add: f64_sub_def align_def round_float_def mag2 l trunc_int_def saturate_u64_def)
qed

definition sample_contract :: "u256 \<Rightarrow> u256 \<Rightarrow> (u256, string) outcome \<Rightarrow> range_contract" where
  "sample_contract x y mx =
     \<lparr>call_num_operators = Ok 1, call_max_range = mx, call_operators_in_range = (\<lambda>s. Ok []),
      call_operator_ranges = (\<lambda>a. Ok (x, y))\<rparr>"

section \<open>Properties\<close>

text \<open>C32. The window of an operator whose registered range is ordered is ordered, for every tag,
  position and maximal range, through all conversions and roundings of \<open>f64\<close>: the threshold
  subtraction of \<open>compute_vrf\<close> does not overflow.\<close>

theorem vrf_window_ordered:
  assumes "operator_address h node_id = Ok addr" "get_range_by_address ct addr = Ok (x, y)" "x \<le> y"
    and "vrf_window h ct node_id tag position = Ok (lo, hi)"
  shows "lo \<le> hi \<and> sub_op b hi lo = Ok (hi - lo)"
proof -
  have "lo \<le> hi"
    using assms adjust_range_ordered [OF assms(3)] by (auto simp: vrf_window_def)
  then show ?thesis by (simp add: sub_op_fits word_le_nat_alt)
qed

theorem vrf_window_ordered_witness:
  "let w = widen (f64_of_u64 100) (f64_of_u64 200) (f64_of_u64 1000) f64_0_03 in fst w \<le> snd w"
proof -
  let ?ct = "sample_contract 100 200 (Ok 1000)"
  have "operator_address (\<lambda>s. Ok [1]) ''0xab'' = Ok [1]" "get_range_by_address ?ct [1] = Ok (100, 200)"
    "vrf_window (\<lambda>s. Ok [1]) ?ct ''0xab'' ''suspicion'' [] =
       Ok (fst (widen (f64_of_u64 100) (f64_of_u64 200) (f64_of_u64 1000) f64_0_03),
           snd (widen (f64_of_u64 100) (f64_of_u64 200) (f64_of_u64 1000) f64_0_03))"
    by (simp_all add: operator_address_def str_slice_def is_char_boundary_def sample_contract_def
        get_range_by_address_def u64_try_from_def vrf_window_def adjust_range_def get_max_range_def)
  from vrf_window_ordered [OF this(1,2) _ this(3), where b = Debug] show ?thesis
    unfolding Let_def by (rule conjunct1) simp
qed

lemma unregistered_window:
  assumes "operator_address h node_id = Ok addr" "call_operator_ranges ct addr = Ok (0, 0)"
  shows "tag \<noteq> ''suspicion'' \<Longrightarrow> tag \<noteq> ''malicious'' \<Longrightarrow> vrf_window h ct node_id tag position = Ok (0, 0)"
    and "call_max_range ct = Err e \<Longrightarrow> vrf_window h ct node_id ''suspicion'' position = Ok (0, 128849018)"
  using assms
  by (simp_all add: vrf_window_def get_range_by_address_def u64_try_from_def adjust_range_def
      get_max_range_def fallback_widen)

lemma compute_vrf_runs:
  assumes "curve_laws C" "hex_laws hex_encode big_from_hex"
    and "prove b C sk (string_bytes (hex_lower (sha512 C (string_bytes prompt)))) = Some (Ok pf)"
    and "vrf_sort_precision (oc_chain config) = p" "0 < unat p" "unat p \<le> 128"
    and "vrf_window h ct (nc_node_id (oc_node config)) tag position = Ok (lo, hi)" "lo \<le> hi"
  shows "\<exists>r. compute_vrf b C hex_encode big_from_hex h ct config sk tag position prompt = Some (Ok r) \<and>
     vr_selected r = (le_val (rev (output_from C pf)) mod 16 ^ unat p < unat hi - unat lo)"
proof -
  have p: "unat (ucast p :: u64) = unat p"
    using assms(6) by (simp add: unsigned_ucast_eq take_bit_nat_eq_self)
  have s: "sub_op b hi lo = Ok (hi - lo)" "unat (hi - lo) = unat hi - unat lo"
    using assms(8) by (simp_all add: sub_op_fits word_le_nat_alt unat_sub)
  show ?thesis
    using assms(5,6) run_vrf_reply [OF assms(1-3), of "ucast p" "hi - lo"]
    by (simp add: compute_vrf_def bind_running_def assms(4,7) s p Let_def)
qed

text \<open>An operator without a registered range (its range on the chain is 0 to 0) is never selected
  for a job with an ordinary tag; but when the maximal range cannot be read, the fallback value
  selects it for every \<open>suspicion\<close> job, with any sort precision from 1 to 6.\<close>

theorem unregistered_operator_selection:
  assumes "curve_laws C" "hex_laws hex_encode big_from_hex"
    and "prove b C sk (string_bytes (hex_lower (sha512 C (string_bytes prompt)))) = Some (Ok pf)"
    and "operator_address h (nc_node_id (oc_node config)) = Ok addr"
    and "call_operator_ranges ct addr = Ok (0, 0)"
    and "vrf_sort_precision (oc_chain config) = p" "0 < unat p" "unat p \<le> 128"
  shows "(tag \<noteq> ''suspicion'' \<and> tag \<noteq> ''malicious'' \<longrightarrow>
      (\<exists>r. compute_vrf b C hex_encode big_from_hex h ct config sk tag position prompt = Some (Ok r) \<and>
        \<not> vr_selected r)) \<and>
    (call_max_range ct = Err e \<and> unat p \<le> 6 \<longrightarrow>
      (\<exists>r. compute_vrf b C hex_encode big_from_hex h ct config sk ''suspicion'' position prompt
             = Some (Ok r) \<and> vr_selected r))"
proof (intro conjI impI)
  note w = unregistered_window [OF assms(4,5)]
  note runs = compute_vrf_runs [OF assms(1-3,6-8)]
  show "\<exists>r. compute_vrf b C hex_encode big_from_hex h ct config sk tag position prompt = Some (Ok r) \<and>
      \<not> vr_selected r" if "tag \<noteq> ''suspicion'' \<and> tag \<noteq> ''malicious''"
    using runs [OF w(1)] that by fastforce
  show "\<exists>r. compute_vrf b C hex_encode big_from_hex h ct config sk ''suspicion'' position prompt
      = Some (Ok r) \<and> vr_selected r" if fallback: "call_max_range ct = Err e \<and> unat p \<le> 6"
  proof -
    have "le_val (rev (output_from C pf)) mod 16 ^ unat p < 16 ^ unat p" by simp
    also have "\<dots> \<le> (16 :: nat) ^ 6" using fallback by (intro power_increasing) simp_all
    finally have "le_val (rev (output_from C pf)) mod 16 ^ unat p < 128849018" by simp
    then show ?thesis using runs [OF w(2)] fallback by fastforce
  qed
qed

theorem unregistered_operator_selection_witness:
  "\<exists>r. compute_vrf Debug sample_curve hex_lower sample_big_from_hex (\<lambda>s. Ok [1])
        (sample_contract 0 0 (Err ''rpc'')) (sample_config ''0xab'' ''key'') (replicate 32 7)
        ''suspicion'' [] ''prompt'' = Some (Ok r) \<and> vr_selected r"
proof -
  let ?ct = "sample_contract 0 0 (Err ''rpc'')" and ?cfg = "sample_config ''0xab'' ''key''"
  obtain pf where pf: "prove Debug sample_curve (replicate 32 7)
      (string_bytes (hex_lower (sha512 sample_curve (string_bytes ''prompt'')))) = Some (Ok pf)"
    using sample_prove by blast
  have "operator_address (\<lambda>s. Ok [1]) (nc_node_id (oc_node ?cfg)) = Ok [1]"
    "call_operator_ranges ?ct [1] = Ok (0, 0)" "vrf_sort_precision (oc_chain ?cfg) = 6"
    "call_max_range ?ct = Err ''rpc''"
    by (simp_all add: operator_address_def str_slice_def is_char_boundary_def sample_contract_def
        sample_config_def)
  with unregistered_operator_selection
    [OF sample_curve_laws sample_hex_laws pf this(1-3), where e = "''rpc''" and position = "[]"]
  show ?thesis by simp
qed

text \<open>The reader of 20 bytes is documented to take exactly 40 hexadecimal digits.\<close>

definition address_reader :: "(string \<Rightarrow> (bytes, string) outcome) \<Rightarrow> bool" where
  "address_reader h \<longleftrightarrow>
     (\<forall>s. length s \<noteq> 40 \<longrightarrow> (\<exists>e. h s = Err e)) \<and>
     (\<forall>s. length s = 40 \<and> list_all is_ascii_hexdigit s \<longrightarrow> (\<exists>a. h s = Ok a \<and> length a = 20))"

definition sample_address_reader :: "string \<Rightarrow> (bytes, string) outcome" where
  "sample_address_reader s =
     (if length s = 40 \<and> list_all is_ascii_hexdigit s then Ok (replicate 20 0)
      else Err ''invalid string length'')"

lemma sample_address_reader: "address_reader sample_address_reader"
  by (simp add: address_reader_def sample_address_reader_def)

text \<open>A configuration may give the node id with or without \<open>0x\<close>, but \<open>compute_vrf\<close> always
  drops two characters: for an accepted configuration, the address is obtained when the prefix is
  there, and when it is missing every job fails with \<open>OPFromHexError\<close>.\<close>

theorem operator_address_needs_prefix:
  assumes "validate_config c = Ok c'" "address_reader h"
  shows "if starts_with ''0x'' (nc_node_id (oc_node c))
    then \<exists>a. operator_address h (nc_node_id (oc_node c)) = Ok a \<and> length a = 20
    else \<exists>e. operator_address h (nc_node_id (oc_node c)) = Err (OPFromHexError e)"
proof -
  let ?id = "nc_node_id (oc_node c)"
  have "validate_addr ?id" using assms(1) by (auto simp: validate_config_def split: if_splits)
  then obtain d where d: "length d = 40" "list_all is_ascii_hexdigit d" "?id = d \<or> ?id = ''0x'' @ d"
    unfolding validate_addr_iff prefixed_hex_cases by blast
  show ?thesis
  proof (cases "?id = d")
    case True
    then have "str_slice 2 (length ?id) ?id = (Ok (drop 2 d) :: (string, operator_error) outcome)"
      using d by (simp add: str_slice_ascii is_ascii_hexdigits)
    moreover have "length (drop 2 d) \<noteq> 40" using d(1) by simp
    then obtain e where "h (drop 2 d) = Err e"
      using assms(2) unfolding address_reader_def by blast
    ultimately show ?thesis
      using hexdigits_no_0x [OF d(2)] True by (simp add: operator_address_def)
  next
    case False
    then have id: "?id = ''0x'' @ d" using d(3) by simp
    moreover have "is_ascii (''0x'' @ d)"
      using is_ascii_hexdigits [OF d(2)] by (simp add: is_ascii_def)
    then have "str_slice 2 (length (''0x'' @ d)) (''0x'' @ d) = (Ok d :: (string, operator_error) outcome)"
      by (subst str_slice_ascii) simp_all
    moreover obtain a where "h d = Ok a" "length a = 20"
      using assms(2) d(1,2) unfolding address_reader_def by blast
    ultimately show ?thesis
      using starts_with_append [of "''0x''" d] by (simp add: operator_address_def)
  qed
qed

theorem operator_address_needs_prefix_witness:
  "\<exists>e. operator_address sample_address_reader (replicate 40 CHR ''a'') = Err (OPFromHexError e)"
proof -
  let ?c = "sample_config (replicate 40 CHR ''a'') (replicate 64 CHR ''b'')"
  have "validate_config ?c = Ok ?c"
    by (simp add: validate_config_def sample_config_def validate_addr_def validate_key_def
        remove_0x_prefix_def starts_with_def list_all_iff is_ascii_hexdigit_def)
  from operator_address_needs_prefix [OF this sample_address_reader] show ?thesis
    by (simp add: sample_config_def starts_with_def)
qed

text \<open>\<open>get_range_len_by_address\<close> subtracts the end of a range from its start: for a proper range
  it always fails, and it returns 0 for the empty range, never a length.\<close>

theorem range_len_fails:
  assumes "call_operator_ranges ct a = Ok (x, y)" "x \<le> y" "unat y < 2 ^ 64"
  shows "get_range_len_by_address ct a =
     (if x = y then Ok 0 else Err ''value does not fit in u64'')"
proof (cases "x = y")
  case False
  have "x < y" using assms(2) False by simp
  then have "unat x < unat y" by (simp add: word_less_nat_alt)
  then have "unat (x - y) = 2 ^ 256 + unat x - unat y"
    by (simp add: unat_sub_if_size word_size)
  then have "\<not> unat (x - y) < 2 ^ 64" using assms(3) by simp
  then show ?thesis
    using assms(1) False by (simp add: get_range_len_by_address_def u64_try_from_def)
qed (use assms(1) in \<open>simp add: get_range_len_by_address_def u64_try_from_def\<close>)

theorem range_len_fails_witness:
  "get_range_len_by_address (sample_contract 100 200 (Ok 1)) [] = Err ''value does not fit in u64''"
  using range_len_fails [of "sample_contract 100 200 (Ok 1)" "[]" 100 200]
  by (simp add: sample_contract_def)

end
