(* ===== verification/Msg_Queue.thy ===== *)
theory Msg_Queue
  imports Prelude "HOL-Library.Product_Lexorder"
begin

text \<open>
  The job queue of \<open>operator/runer/src/queue/msg_queue.rs\<close>: the trait \<open>MessageQueue\<close>, which
  is the locale \<open>message_queue\<close>, and its implementation over a Redis stream. The Redis server is a
  parameter, a record of the three commands the source sends; \<open>redis_laws\<close> is what its
  documentation says of them. \<open>log_server\<close> is a server with these laws, on which the locale is
  interpreted.
\<close>

section \<open>Messages\<close>

record redis_message =
  rm_id :: string
  rm_data :: string

datatype redis_queue_error =
    RedisError string
  | QueueJsonError string
  | TimeError string

text \<open>
  \<open>RedisMessage::new\<close>: \<open>now\<close> is the time since the epoch in milliseconds, or the error of
  a clock set before it; \<open>json\<close> is the serialised payload.
\<close>

definition redis_message_new ::
  "(nat, string) outcome \<Rightarrow> (string, string) outcome \<Rightarrow> (redis_message, redis_queue_error) outcome"
  where
  "redis_message_new now json =
     and_then (map_err TimeError now) (\<lambda>ms.
     and_then (map_err QueueJsonError json) (\<lambda>data.
       Ok \<lparr>rm_id = nat_to_string ms @ ''-0'', rm_data = data\<rparr>))"

section \<open>The stream server\<close>

type_synonym stream_entry = "string \<times> (string \<times> string) list"

record 'st redis =
  xadd :: "'st \<Rightarrow> string \<Rightarrow> string \<Rightarrow> (string \<times> string) list \<Rightarrow> 'st \<times> (unit, string) outcome"
  xread :: "'st \<Rightarrow> string list \<Rightarrow> string list \<Rightarrow> nat \<Rightarrow>
              ((string \<times> stream_entry list) list, string) outcome"
  xdel :: "'st \<Rightarrow> string \<Rightarrow> string list \<Rightarrow> 'st \<times> (unit, string) outcome"

section \<open>Operations\<close>

definition produce ::
  "'st redis \<Rightarrow> 'st \<Rightarrow> string \<Rightarrow> redis_message \<Rightarrow> 'st \<times> (unit, redis_queue_error) outcome" where
  "produce R st topic message =
     (let (st', res) = xadd R st topic (rm_id message) [(''data'', rm_data message)]
      in (st', and_then (map_err RedisError res) (\<lambda>_. Ok ())))"

text \<open>Entries without a \<open>data\<close> field are left out of the answer.\<close>

definition message_of :: "stream_entry \<Rightarrow> redis_message option" where
  "message_of vs =
     map_option (\<lambda>v. \<lparr>rm_id = fst vs, rm_data = v\<rparr>) (map_of (snd vs) ''data'')"

definition consume ::
  "'st redis \<Rightarrow> 'st \<Rightarrow> string \<Rightarrow> (redis_message list, redis_queue_error) outcome" where
  "consume R st topic =
     and_then (map_err RedisError (xread R st [topic] [''0''] 1)) (\<lambda>keys.
       case keys of
         [] \<Rightarrow> Ok []
       | stream_key # _ \<Rightarrow> Ok (List.map_filter message_of (snd stream_key)))"

definition acknowledge ::
  "'st redis \<Rightarrow> 'st \<Rightarrow> string \<Rightarrow> string \<Rightarrow> 'st \<times> (unit, redis_queue_error) outcome" where
  "acknowledge R st topic message_id =
     (let (st', res) = xdel R st topic [message_id]
      in (st', and_then (map_err RedisError res) (\<lambda>_. Ok ())))"

section \<open>What the server documents\<close>

text \<open>
  An entry id is two numbers, \<open>ms-seq\<close>; \<open>id_key\<close> reads it. \<open>XADD\<close> refuses an id that is
  not above the last one ever added, deleted entries included. A command that fails changes nothing.
  \<open>entries\<close> and \<open>last_id\<close> are the contents of a stream and its last id.
\<close>

definition redis_laws ::
  "'st redis \<Rightarrow> (string \<Rightarrow> nat \<times> nat) \<Rightarrow> ('st \<Rightarrow> string \<Rightarrow> stream_entry list) \<Rightarrow>
   ('st \<Rightarrow> string \<Rightarrow> nat \<times> nat) \<Rightarrow> bool" where
  "redis_laws R id_key entries last_id \<longleftrightarrow>
     (\<forall>ms. id_key (nat_to_string ms @ ''-0'') = (ms, 0)) \<and>
     (\<forall>st topic i fs st' res. xadd R st topic i fs = (st', res) \<longrightarrow>
        (res = Ok () \<and> last_id st topic < id_key i \<and>
           entries st' topic = entries st topic @ [(i, fs)] \<and> last_id st' topic = id_key i) \<or>
        (\<exists>e. res = Err e) \<and> st' = st) \<and>
     (\<forall>st topic keys. xread R st [topic] [''0''] 1 = Ok keys \<longrightarrow>
        keys = (if entries st topic = [] then [] else [(topic, take 1 (entries st topic))])) \<and>
     (\<forall>st topic i st' res. xdel R st topic [i] = (st', res) \<longrightarrow>
        (res = Ok () \<and> entries st' topic = filter (\<lambda>e. fst e \<noteq> i) (entries st topic) \<and>
           last_id st' topic = last_id st topic) \<or>
        (\<exists>e. res = Err e) \<and> st' = st)"

section \<open>The interface of a queue\<close>

text \<open>A consumer that takes the first message, acknowledges it and goes on, for \<open>n\<close> rounds.\<close>

fun drain ::
  "('st \<Rightarrow> ('m list, 'e) outcome) \<Rightarrow> ('st \<Rightarrow> 'm \<Rightarrow> 'st \<times> (unit, 'e) outcome) \<Rightarrow> nat \<Rightarrow> 'st \<Rightarrow>
   'm list \<times> 'st" where
  "drain take_some ack 0 st = ([], st)"
| "drain take_some ack (Suc n) st =
     (case take_some st of
        Ok (m # _) \<Rightarrow>
          let (ms, st') = drain take_some ack n (fst (ack st m)) in (m # ms, st')
      | _ \<Rightarrow> ([], st))"

locale message_queue =
  fixes pending :: "'st \<Rightarrow> string \<Rightarrow> 'm list"
    and msg_id :: "'m \<Rightarrow> string"
    and well_formed :: "'st \<Rightarrow> string \<Rightarrow> bool"
    and mq_produce :: "'st \<Rightarrow> string \<Rightarrow> 'm \<Rightarrow> 'st \<times> (unit, 'e) outcome"
    and mq_consume :: "'st \<Rightarrow> string \<Rightarrow> ('m list, 'e) outcome"
    and mq_acknowledge :: "'st \<Rightarrow> string \<Rightarrow> string \<Rightarrow> 'st \<times> (unit, 'e) outcome"
  assumes distinct_ids: "well_formed st t \<Longrightarrow> distinct (map msg_id (pending st t))"
    and produce_appends: "well_formed st t \<Longrightarrow> mq_produce st t m = (st', Ok ()) \<Longrightarrow>
          well_formed st' t \<and> pending st' t = pending st t @ [m]"
    and consume_head: "well_formed st t \<Longrightarrow> mq_consume st t = Ok ms \<Longrightarrow> ms = take 1 (pending st t)"
    and acknowledge_removes: "well_formed st t \<Longrightarrow> mq_acknowledge st t i = (st', Ok ()) \<Longrightarrow>
          well_formed st' t \<and> pending st' t = filter (\<lambda>m. msg_id m \<noteq> i) (pending st t)"
begin

lemma acknowledge_first:
  assumes "well_formed st t" "pending st t = m # ms" "mq_acknowledge st t (msg_id m) = (st', Ok ())"
  shows "well_formed st' t \<and> pending st' t = ms"
proof -
  have "msg_id m \<notin> msg_id ` set ms"
    using distinct_ids [OF assms(1)] assms(2) by simp
  then have "filter (\<lambda>x. msg_id x \<noteq> msg_id m) ms = ms"
    by (intro filter_True ballI) (metis image_eqI)
  then show ?thesis using acknowledge_removes [OF assms(1,3)] assms(2) by simp
qed

lemma drain_in_order:
  assumes "well_formed st t" "length (pending st t) \<le> n"
    and "\<And>st. \<exists>ms. mq_consume st t = Ok ms" "\<And>st i. snd (mq_acknowledge st t i) = Ok ()"
  shows "\<exists>st'. drain (\<lambda>st. mq_consume st t) (\<lambda>st m. mq_acknowledge st t (msg_id m)) n st
           = (pending st t, st') \<and> pending st' t = []"
  using assms(1,2)
proof (induction n arbitrary: st)
  case (Suc n)
  obtain ms where c: "mq_consume st t = Ok ms" using assms(3) by blast
  then have ms: "ms = take 1 (pending st t)" using consume_head Suc.prems(1) by blast
  show ?case
  proof (cases "pending st t")
    case Nil
    then show ?thesis using c ms by simp
  next
    case (Cons m rest)
    obtain st1 where a: "mq_acknowledge st t (msg_id m) = (st1, Ok ())"
      using assms(4) [of st "msg_id m"] by (metis prod.collapse)
    then have "well_formed st1 t" "pending st1 t = rest"
      using acknowledge_first [OF Suc.prems(1) Cons a] by simp_all
    then show ?thesis using Suc.IH [of st1] Suc.prems(2) Cons c ms a by fastforce
  qed
qed simp

end

section \<open>The stream as a queue\<close>

definition stream_messages :: "('st \<Rightarrow> string \<Rightarrow> stream_entry list) \<Rightarrow> 'st \<Rightarrow> string \<Rightarrow> redis_message list" where
  "stream_messages entries st topic = List.map_filter message_of (entries st topic)"

definition stream_ok ::
  "(string \<Rightarrow> nat \<times> nat) \<Rightarrow> ('st \<Rightarrow> string \<Rightarrow> stream_entry list) \<Rightarrow> ('st \<Rightarrow> string \<Rightarrow> nat \<times> nat) \<Rightarrow>
   'st \<Rightarrow> string \<Rightarrow> bool" where
  "stream_ok id_key entries last_id st topic \<longleftrightarrow>
     (\<forall>e \<in> set (entries st topic). message_of e \<noteq> None \<and> id_key (fst e) \<le> last_id st topic) \<and>
     sorted_wrt (\<lambda>a b. id_key (fst a) < id_key (fst b)) (entries st topic)"

locale redis_stream =
  fixes R :: "'st redis" and id_key :: "string \<Rightarrow> nat \<times> nat"
    and entries :: "'st \<Rightarrow> string \<Rightarrow> stream_entry list" and last_id :: "'st \<Rightarrow> string \<Rightarrow> nat \<times> nat"
  assumes laws: "redis_laws R id_key entries last_id"
begin

lemma id_key_millis: "id_key (nat_to_string ms @ ''-0'') = (ms, 0)"
  using laws unfolding redis_laws_def by blast

lemma xadd_ok:
  assumes "xadd R st topic i fs = (st', Ok ())"
  shows "last_id st topic < id_key i \<and> entries st' topic = entries st topic @ [(i, fs)] \<and>
    last_id st' topic = id_key i"
  using laws assms unfolding redis_laws_def by blast

lemma xadd_stale:
  assumes "\<not> last_id st topic < id_key i"
  shows "\<exists>e. xadd R st topic i fs = (st, Err e)"
proof (cases "xadd R st topic i fs")
  case (Pair st' res)
  then show ?thesis using laws assms unfolding redis_laws_def by blast
qed

lemma xread_ok:
  "xread R st [topic] [''0''] 1 = Ok keys \<Longrightarrow>
     keys = (if entries st topic = [] then [] else [(topic, take 1 (entries st topic))])"
  using laws unfolding redis_laws_def by blast

lemma xdel_ok:
  "xdel R st topic [i] = (st', Ok ()) \<Longrightarrow>
     entries st' topic = filter (\<lambda>e. fst e \<noteq> i) (entries st topic) \<and> last_id st' topic = last_id st topic"
  using laws unfolding redis_laws_def by blast

end

lemma stream_message_ids:
  "\<forall>e \<in> set es. message_of e \<noteq> None \<Longrightarrow>
     map rm_id (List.map_filter message_of es) = map fst es"
  by (induction es) (auto simp: message_of_def List.map_filter_simps)

lemma map_filter_take_1:
  "\<forall>e \<in> set es. f e \<noteq> None \<Longrightarrow> List.map_filter f (take 1 es) = take 1 (List.map_filter f es)"
  by (cases es) (auto simp: List.map_filter_simps)

lemma map_filter_remove:
  "List.map_filter message_of (filter (\<lambda>e. fst e \<noteq> i) es) =
     filter (\<lambda>m. rm_id m \<noteq> i) (List.map_filter message_of es)"
  by (induction es) (auto simp: List.map_filter_simps message_of_def split: option.splits)

lemma message_of_data [simp]: "message_of (i, [(''data'', d)]) = Some \<lparr>rm_id = i, rm_data = d\<rparr>"
  by (simp add: message_of_def)

context redis_stream
begin

lemma stream_distinct:
  assumes "stream_ok id_key entries last_id st t"
  shows "distinct (map rm_id (stream_messages entries st t))"
proof -
  have "sorted_wrt (\<lambda>a b. id_key (fst a) < id_key (fst b)) es \<Longrightarrow> distinct (map fst es)" for es :: "stream_entry list"
    by (induction es) force+
  then show ?thesis
    using assms by (simp add: stream_ok_def stream_messages_def stream_message_ids)
qed

lemma stream_produce:
  assumes "stream_ok id_key entries last_id st t" "produce R st t m = (st', Ok ())"
  shows "stream_ok id_key entries last_id st' t \<and>
    stream_messages entries st' t = stream_messages entries st t @ [m]"
proof -
  have "xadd R st t (rm_id m) [(''data'', rm_data m)] = (st', Ok ())"
    using assms(2) by (auto simp: produce_def outcome_simps split: prod.splits)
  then have x: "last_id st t < id_key (rm_id m)" "last_id st' t = id_key (rm_id m)"
    "entries st' t = entries st t @ [(rm_id m, [(''data'', rm_data m)])]"
    using xadd_ok by blast+
  have "id_key (fst e) < id_key (rm_id m)" if "e \<in> set (entries st t)" for e
    using that assms(1) x(1) by (fastforce simp: stream_ok_def)
  then show ?thesis
    using assms(1) x(2,3)
    by (auto simp: stream_ok_def stream_messages_def map_filter_append List.map_filter_simps
        sorted_wrt_append less_imp_le)
qed

lemma stream_consume:
  assumes "stream_ok id_key entries last_id st t" "consume R st t = Ok ms"
  shows "ms = take 1 (stream_messages entries st t)"
proof (cases "xread R st [t] [''0''] 1")
  case (Ok keys)
  have "keys = (if entries st t = [] then [] else [(t, take 1 (entries st t))])"
    using xread_ok [OF Ok] .
  then have "ms = List.map_filter message_of (take 1 (entries st t))"
    using assms(2) Ok by (cases "entries st t") (auto simp: consume_def List.map_filter_simps)
  moreover have "\<forall>e \<in> set (entries st t). message_of e \<noteq> None"
    using assms(1) by (simp add: stream_ok_def)
  ultimately show ?thesis
    by (simp only: stream_messages_def map_filter_take_1)
qed (use assms(2) in \<open>auto simp: consume_def\<close>)

lemma stream_acknowledge:
  assumes "stream_ok id_key entries last_id st t" "acknowledge R st t i = (st', Ok ())"
  shows "stream_ok id_key entries last_id st' t \<and>
    stream_messages entries st' t = filter (\<lambda>m. rm_id m \<noteq> i) (stream_messages entries st t)"
proof -
  have "xdel R st t [i] = (st', Ok ())"
    using assms(2) by (auto simp: acknowledge_def outcome_simps split: prod.splits)
  then show ?thesis
    using xdel_ok [of st t i st'] assms(1)
    by (auto simp: stream_ok_def stream_messages_def map_filter_remove sorted_wrt_filter)
qed

end

sublocale redis_stream \<subseteq> mq: message_queue "stream_messages entries" rm_id
  "stream_ok id_key entries last_id" "produce R" "consume R" "acknowledge R"
  by unfold_locales
    (rule stream_distinct stream_produce stream_consume stream_acknowledge, assumption+)+

context redis_stream
begin

lemmas stream_drain = mq.drain_in_order

text \<open>An id of the same or an earlier millisecond than the last message is refused.\<close>

lemma produce_stale:
  assumes "produce R st t \<lparr>rm_id = nat_to_string ms1 @ ''-0'', rm_data = d1\<rparr> = (st1, Ok ())" "ms2 \<le> ms1"
  shows "\<exists>e. produce R st1 t \<lparr>rm_id = nat_to_string ms2 @ ''-0'', rm_data = d2\<rparr> = (st1, Err e)"
proof -
  have "xadd R st t (nat_to_string ms1 @ ''-0'') [(''data'', d1)] = (st1, Ok ())"
    using assms(1) by (auto simp: produce_def outcome_simps split: prod.splits)
  then have "last_id st1 t = (ms1, 0)" using xadd_ok id_key_millis by metis
  then have "\<not> last_id st1 t < id_key (nat_to_string ms2 @ ''-0'')"
    using assms(2) id_key_millis by auto
  then obtain e where "xadd R st1 t (nat_to_string ms2 @ ''-0'') [(''data'', d2)] = (st1, Err e)"
    using xadd_stale by blast
  then show ?thesis by (simp add: produce_def)
qed

end

section \<open>A server with the documented behaviour\<close>

definition decimal_value :: "string \<Rightarrow> nat" where
  "decimal_value s = foldl (\<lambda>a c. a * 10 + (of_char c - 48)) 0 s"

definition log_key :: "string \<Rightarrow> nat \<times> nat" where
  "log_key i =
     (decimal_value (takeWhile (\<lambda>c. c \<noteq> CHR ''-'') i),
      decimal_value (tl (dropWhile (\<lambda>c. c \<noteq> CHR ''-'') i)))"

type_synonym log_state = "string \<Rightarrow> stream_entry list \<times> nat \<times> nat"

definition log_server :: "log_state redis" where
  "log_server =
     \<lparr>xadd = (\<lambda>st topic i fs.
        if snd (st topic) < log_key i
        then (st(topic := (fst (st topic) @ [(i, fs)], log_key i)), Ok ())
        else (st, Err ''The ID specified in XADD is equal or smaller than the target stream top item'')),
      xread = (\<lambda>st topics from n. Ok (List.map_filter
        (\<lambda>t. if fst (st t) = [] then None else Some (t, take n (fst (st t)))) topics)),
      xdel = (\<lambda>st topic ids.
        (st(topic := (filter (\<lambda>e. fst e \<notin> set ids) (fst (st topic)), snd (st topic))), Ok ()))\<rparr>"

lemma decimal_value_to_string: "decimal_value (nat_to_string n) = n"
proof (induction n rule: nat_to_string.induct)
  case (1 n)
  then show ?case
    by (cases "n < 10") (subst nat_to_string.simps, simp add: decimal_value_def)+
qed

lemma digit_not_dash: "d < 10 \<Longrightarrow> CHR ''-'' \<noteq> char_of (48 + d :: nat)"
proof
  assume "d < 10" "CHR ''-'' = char_of (48 + d)"
  then have "(of_char CHR ''-'' :: nat) = of_char (char_of (48 + d) :: char)" by simp
  then show False using \<open>d < 10\<close> by simp
qed

lemma nat_to_string_no_dash: "CHR ''-'' \<notin> set (nat_to_string n)"
proof (induction n rule: nat_to_string.induct)
  case (1 n)
  then show ?case
    using digit_not_dash [of n] digit_not_dash [of "n mod 10"]
    by (subst nat_to_string.simps) simp
qed

lemma log_key_millis: "log_key (nat_to_string ms @ ''-0'') = (ms, 0)"
proof -
  have "takeWhile (\<lambda>c. c \<noteq> CHR ''-'') (nat_to_string ms @ ''-0'') = nat_to_string ms"
    "dropWhile (\<lambda>c. c \<noteq> CHR ''-'') (nat_to_string ms @ ''-0'') = ''-0''"
    using nat_to_string_no_dash [of ms] by (auto simp: takeWhile_append dropWhile_append)
  then show ?thesis by (simp add: log_key_def decimal_value_to_string) (simp add: decimal_value_def)
qed

interpretation log: redis_stream log_server log_key "\<lambda>st t. fst (st t)" "\<lambda>st t. snd (st t)"
  by unfold_locales
    (auto simp: redis_laws_def log_key_millis log_server_def List.map_filter_simps split: if_splits)

section \<open>Properties\<close>

text \<open>C19. The queue is first in, first out: on any server with the documented behaviour that answers
  its commands, a consumer that acknowledges each message it takes receives the waiting messages in
  the order in which they were produced, each once, and leaves the stream empty.\<close>

theorem queue_fifo:
  assumes "redis_laws R id_key entries last_id" "stream_ok id_key entries last_id st t"
    and "produce R st t m = (st', Ok ())" "length (stream_messages entries st t) < n"
    and "\<And>st. \<exists>ms. consume R st t = Ok ms" "\<And>st i. snd (acknowledge R st t i) = Ok ()"
  shows "\<exists>st''. drain (\<lambda>st. consume R st t) (\<lambda>st m. acknowledge R st t (rm_id m)) n st'
       = (stream_messages entries st t @ [m], st'') \<and> stream_messages entries st'' t = []"
proof -
  have rs: "redis_stream R id_key entries last_id" using assms(1) by (rule redis_stream.intro)
  have "stream_ok id_key entries last_id st' t"
    "stream_messages entries st' t = stream_messages entries st t @ [m]"
    using redis_stream.stream_produce [OF rs assms(2,3)] by simp_all
  then show ?thesis
    using redis_stream.stream_drain [OF rs, of st' t n] assms(4-6) by simp
qed

lemma log_server_available: "\<exists>ms. consume log_server st t = Ok ms"
  "snd (acknowledge log_server st t i) = Ok ()"
  by (auto simp: consume_def acknowledge_def log_server_def split: list.splits)

lemma log_produce:
  "snd (st t) < log_key (rm_id m) \<Longrightarrow>
     produce log_server st t m =
       (st(t := (fst (st t) @ [(rm_id m, [(''data'', rm_data m)])], log_key (rm_id m))), Ok ())"
  by (simp add: produce_def log_server_def)

theorem queue_fifo_witness:
  "let m1 = \<lparr>rm_id = nat_to_string 1 @ ''-0'', rm_data = ''a''\<rparr>;
       m2 = \<lparr>rm_id = nat_to_string 2 @ ''-0'', rm_data = ''b''\<rparr>;
       st1 = (\<lambda>t. ([(rm_id m1, [(''data'', ''a'')])], 1, 0));
       st2 = fst (produce log_server st1 ''task'' m2)
   in fst (drain (\<lambda>st. consume log_server st ''task'')
        (\<lambda>st m. acknowledge log_server st ''task'' (rm_id m)) 2 st2) = [m1, m2]"
proof -
  define m1 m2 st1 where "m1 = \<lparr>rm_id = nat_to_string 1 @ ''-0'', rm_data = ''a''\<rparr>"
    and "m2 = \<lparr>rm_id = nat_to_string 2 @ ''-0'', rm_data = ''b''\<rparr>"
    and "st1 = (\<lambda>t :: string. ([(rm_id m1, [(''data'', ''a'')])], 1 :: nat, 0 :: nat))"
  have keys: "log_key (rm_id m1) = (1, 0)" "log_key (rm_id m2) = (2, 0)"
    unfolding m1_def m2_def redis_message.simps by (rule log_key_millis)+
  have "stream_ok log_key (\<lambda>st t. fst (st t)) (\<lambda>st t. snd (st t)) st1 ''task''"
    by (simp add: stream_ok_def st1_def keys)
  moreover have "produce log_server st1 ''task'' m2 =
      (st1(''task'' := (fst (st1 ''task'') @ [(rm_id m2, [(''data'', rm_data m2)])], log_key (rm_id m2))), Ok ())"
    by (rule log_produce) (simp add: keys st1_def)
  moreover have msgs: "stream_messages (\<lambda>st t. fst (st t)) st1 ''task'' = [m1]"
    by (simp add: stream_messages_def st1_def List.map_filter_simps m1_def)
  ultimately show ?thesis
    using queue_fifo [OF log.laws, of st1 "''task''" m2 _ 2] log_server_available
    unfolding m1_def [symmetric] m2_def [symmetric] st1_def [symmetric] Let_def by fastforce
qed

text \<open>Two messages made in the same millisecond, or the second after the clock went back, have ids
  the stream refuses: once the first is in, producing the second fails and changes nothing, even
  when the first has been acknowledged and deleted meanwhile.\<close>

theorem produce_same_millisecond:
  assumes "redis_laws R id_key entries last_id"
    and "redis_message_new (Ok ms1) (Ok d1) = Ok m1" "redis_message_new (Ok ms2) (Ok d2) = Ok m2"
    and "ms2 \<le> ms1" "produce R st t m1 = (st1, Ok ())" "acknowledge R st1 t i = (st2, Ok ())"
  shows "(\<exists>e. produce R st1 t m2 = (st1, Err e)) \<and> (\<exists>e. produce R st2 t m2 = (st2, Err e))"
proof -
  have rs: "redis_stream R id_key entries last_id" using assms(1) by (rule redis_stream.intro)
  have ids: "id_key (rm_id m1) = (ms1, 0)" "id_key (rm_id m2) = (ms2, 0)"
    using assms(2,3) redis_stream.id_key_millis [OF rs] by (auto simp: redis_message_new_def)
  have "xadd R st t (rm_id m1) [(''data'', rm_data m1)] = (st1, Ok ())"
    using assms(5) by (auto simp: produce_def outcome_simps split: prod.splits)
  then have "last_id st1 t = (ms1, 0)"
    using redis_stream.xadd_ok [OF rs] ids(1) by metis
  moreover have "xdel R st1 t [i] = (st2, Ok ())"
    using assms(6) by (auto simp: acknowledge_def outcome_simps split: prod.splits)
  then have "last_id st2 t = last_id st1 t" using redis_stream.xdel_ok [OF rs] by blast
  ultimately have "\<not> last_id st1 t < id_key (rm_id m2)" "\<not> last_id st2 t < id_key (rm_id m2)"
    using assms(4) ids(2) by auto
  then show ?thesis
    using redis_stream.xadd_stale [OF rs, of st1 t "rm_id m2" "[(''data'', rm_data m2)]"]
      redis_stream.xadd_stale [OF rs, of st2 t "rm_id m2" "[(''data'', rm_data m2)]"]
    by (auto simp: produce_def)
qed

theorem produce_same_millisecond_witness:
  "let m1 = \<lparr>rm_id = nat_to_string 5 @ ''-0'', rm_data = ''a''\<rparr>;
       m2 = \<lparr>rm_id = nat_to_string 5 @ ''-0'', rm_data = ''b''\<rparr>;
       st1 = fst (produce log_server (\<lambda>t. ([], 0, 0)) ''task'' m1)
   in \<exists>e. produce log_server st1 ''task'' m2 = (st1, Err e)"
proof -
  define m1 m2 st1 where "m1 = \<lparr>rm_id = nat_to_string 5 @ ''-0'', rm_data = ''a''\<rparr>"
    and "m2 = \<lparr>rm_id = nat_to_string 5 @ ''-0'', rm_data = ''b''\<rparr>"
    and "st1 = fst (produce log_server (\<lambda>t. ([], 0, 0)) ''task'' m1)"
  have "log_key (rm_id m1) = (5, 0)" unfolding m1_def redis_message.simps by (rule log_key_millis)
  then have "produce log_server (\<lambda>t. ([], 0, 0)) ''task'' m1 = (st1, Ok ())"
    unfolding st1_def by (subst (1 2) log_produce) simp_all
  moreover have "acknowledge log_server st1 ''task'' ''x'' =
      (fst (acknowledge log_server st1 ''task'' ''x''), Ok ())"
    by (simp add: acknowledge_def log_server_def)
  moreover have "redis_message_new (Ok 5) (Ok ''a'') = Ok m1" "redis_message_new (Ok 5) (Ok ''b'') = Ok m2"
    by (simp_all add: redis_message_new_def m1_def m2_def)
  ultimately show ?thesis
    using produce_same_millisecond [OF log.laws]
    unfolding m1_def [symmetric] m2_def [symmetric] st1_def [symmetric] Let_def by blast
qed

text \<open>An entry without a \<open>data\<close> field at the head of the stream is never delivered: a consumer
  that acknowledges what it receives gets no message at all from then on, and the messages behind
  the entry wait.\<close>

theorem consume_stuck:
  assumes "redis_laws R id_key entries last_id" "entries st t = e # es" "message_of e = None"
  shows "fst (drain (\<lambda>st. consume R st t) (\<lambda>st m. acknowledge R st t (rm_id m)) n st) = [] \<and>
    snd (drain (\<lambda>st. consume R st t) (\<lambda>st m. acknowledge R st t (rm_id m)) n st) = st"
proof -
  have rs: "redis_stream R id_key entries last_id" using assms(1) by (rule redis_stream.intro)
  have "consume R st t = Ok ms \<Longrightarrow> ms = []" for ms
    using redis_stream.xread_ok [OF rs, of st t] assms(2,3)
    by (auto simp: consume_def outcome_simps List.map_filter_simps)
  then show ?thesis by (cases n) (auto split: outcome.splits list.splits)
qed

theorem consume_stuck_witness:
  "let st = (\<lambda>t. ([(''1-0'', [(''payload'', ''x'')]), (''2-0'', [(''data'', ''y'')])], 2, 0))
   in fst (drain (\<lambda>st. consume log_server st ''task'')
        (\<lambda>st m. acknowledge log_server st ''task'' (rm_id m)) 10 st) = []"
  unfolding Let_def
  by (rule consume_stuck [THEN conjunct1, OF log.laws]) (auto simp: message_of_def)

end
