(* ===== verification/Job_Handler.thy ===== *)
theory Job_Handler
  imports Compute_Vrf Verify_Hub Msg_Queue
begin

text \<open>
  The life of a job in the operator: the messages of \<open>operator/runer/src/api/msg.rs\<close> and the
  handlers of \<open>operator/runer/src/api/msg_handler.rs\<close> from the queue to the reply:
  \<open>add_queue_req\<close>, \<open>handle_dispatchjobs\<close>, \<open>do_job\<close>, \<open>do_opml_job\<close>, \<open>do_tee_job\<close>,
  the worker status queries, \<open>connect_dispatcher\<close> and \<open>job_result\<close>.

  The clock of a job is a \<open>HashMap\<close>: here a list of its entries in the order in which the map
  iterates, which the language leaves open. What the outside replies (worker status by attempt, the
  hub's answer to a question, the websocket, JSON) is in the record \<open>job_env\<close>.
\<close>

section \<open>Messages\<close>

type_synonym job_clock = "(string \<times> string) list"

record connect_param =
  cp_operator :: string
  cp_workers :: "string list"
  cp_hash :: string
  cp_signature :: string

record job_params =
  jp_temperature :: float
  jp_top_p :: float
  jp_max_tokens :: u64

record job =
  job_model :: string
  job_prompt :: string
  job_tag :: string
  job_parameters :: job_params

record dispatch_job_param =
  dj_user :: string
  dj_seed :: string
  dj_tag :: string
  dj_position :: string
  dj_signature :: string
  dj_clock :: job_clock
  dj_job_id :: string
  dj_job :: job

record job_result_param =
  jr_user :: string
  jr_job_id :: string
  jr_output :: string
  jr_vrf :: vrf_reply
  jr_tag :: string
  jr_clock :: job_clock
  jr_operator :: string
  jr_signature :: string

record ws_response =
  wr_code :: u16
  wr_message :: string

definition QUEUE_TOPIC :: string where
  "QUEUE_TOPIC = ''task''"

section \<open>Worker status\<close>

record http_response =
  hr_status :: status_code
  hr_text :: "(string, string) outcome"

record 'v json_lib =
  json_parse :: "string \<Rightarrow> ('v, string) outcome"
  json_get :: "'v \<Rightarrow> string \<Rightarrow> 'v option"
  json_as_string :: "'v \<Rightarrow> (string, string) outcome"
  json_as_u32 :: "'v \<Rightarrow> (u32, string) outcome"

definition worker_status_field ::
  "'v json_lib \<Rightarrow> (http_response, string) outcome \<Rightarrow> string \<Rightarrow> string \<Rightarrow> ('v, operator_error) outcome"
  where
  "worker_status_field J reply field failure =
     and_then (map_err OPSetupRegister reply) (\<lambda>response.
       if status_success (hr_status response) then
         and_then (map_err OPSetupRegister (hr_text response)) (\<lambda>body.
         and_then (map_err JsonError (json_parse J body)) (\<lambda>parsed.
           ok_or (json_get J parsed field) (CustomError ''parse msg error'')))
       else Err (CustomError (failure @ snd (hr_status response))))"

definition get_opml_worker_status ::
  "'v json_lib \<Rightarrow> (http_response, string) outcome \<Rightarrow> (string, operator_error) outcome" where
  "get_opml_worker_status J reply =
     and_then (worker_status_field J reply ''msg'' ''Opml server responded with status: '') (\<lambda>msg.
       map_err JsonError (json_as_string J msg))"

definition get_tee_worker_status ::
  "'v json_lib \<Rightarrow> (http_response, string) outcome \<Rightarrow> (u32, operator_error) outcome" where
  "get_tee_worker_status J reply =
     and_then (worker_status_field J reply ''remain_task'' ''Tee server responded with status: '')
       (\<lambda>msg. map_err JsonError (json_as_u32 J msg))"

text \<open>
  The waiting loop at the head of both job functions: \<open>status i\<close> is the reply to the query of
  round \<open>i\<close>; a failed query and a busy worker both count as a retry. The result is the number
  of retries.
\<close>

function wait_for_worker ::
  "(nat \<Rightarrow> ('s, operator_error) outcome) \<Rightarrow> ('s \<Rightarrow> bool) \<Rightarrow> nat \<Rightarrow> (nat, operator_error) outcome" where
  "wait_for_worker status ready retry_send_count =
     (if retry_send_count \<ge> 600 then Err (OPTimeoutError ''opml question timeout'')
      else case status retry_send_count of
             Err e \<Rightarrow> wait_for_worker status ready (retry_send_count + 1)
           | Panic m \<Rightarrow> Panic m
           | Ok v \<Rightarrow> if ready v then Ok retry_send_count
                     else wait_for_worker status ready (retry_send_count + 1))"
  by auto
termination by (relation "measure (\<lambda>(s, r, n). 600 - n)") auto

declare wait_for_worker.simps [simp del]

section \<open>Clock of a reply\<close>

text \<open>The last entry of the map, with its value increased.\<close>

definition bump_clock :: "string \<Rightarrow> job_clock \<Rightarrow> (job_clock, operator_error) outcome" where
  "bump_clock missing clock =
     and_then (ok_or (if clock = [] then None else Some (last clock)) (CustomError missing))
       (\<lambda>(clk_id, clk_val).
     and_then (map_err OPParseIntError (parse_u32 clk_val)) (\<lambda>n.
     and_then (ok_or (checked_add n 1) (CustomError ''checked_add error'')) (\<lambda>n'.
       Ok [(clk_id, nat_to_string (unat n'))])))"

definition result_param ::
  "string \<Rightarrow> string \<Rightarrow> string \<Rightarrow> string \<Rightarrow> vrf_reply \<Rightarrow> job_clock \<Rightarrow> job_result_param" where
  "result_param user job_id tag result vrf clock =
     \<lparr>jr_user = user, jr_job_id = job_id, jr_output = result, jr_vrf = vrf, jr_tag = tag,
      jr_clock = clock, jr_operator = [], jr_signature = []\<rparr>"

section \<open>Jobs for a worker\<close>

text \<open>An error of the hub: its time-out has an error of its own.\<close>

fun hub_failure :: "string \<Rightarrow> verify_hub_error \<Rightarrow> operator_error" where
  "hub_failure text RequestTimeoutError = OPTimeoutError text"
| "hub_failure text e = OPVerifyHubError e"

definition do_opml_job ::
  "(nat \<Rightarrow> (string, operator_error) outcome) \<Rightarrow>
   (opml_request \<Rightarrow> (opml_answer, verify_hub_error) outcome) \<Rightarrow> string \<Rightarrow>
   string \<Rightarrow> string \<Rightarrow> string \<Rightarrow> string \<Rightarrow> string \<Rightarrow> string \<Rightarrow> job_clock \<Rightarrow>
   (job_result_param list, operator_error) outcome" where
  "do_opml_job status ask uuid model prompt user job_id tag callback clock =
     and_then (wait_for_worker status (\<lambda>s. s = ''0'') 0) (\<lambda>_.
     let request = \<lparr>oq_model = model, oq_prompt = prompt, oq_req_id = uuid, oq_callback = callback\<rparr> in
     and_then (map_err (hub_failure ''opml question timeout'') (ask request)) (\<lambda>worker_result.
     and_then (bump_clock ''opml clock value missing'' clock) (\<lambda>clock'.
       Ok [result_param user job_id tag (oa_answer worker_result) default_vrf_reply clock'])))"

definition do_tee_job ::
  "(nat \<Rightarrow> (u32, operator_error) outcome) \<Rightarrow>
   (operator_req \<Rightarrow> (answer_req, verify_hub_error) outcome) \<Rightarrow> string \<Rightarrow>
   string \<Rightarrow> string \<Rightarrow> string \<Rightarrow> string \<Rightarrow> string \<Rightarrow> float \<Rightarrow> float \<Rightarrow> u64 \<Rightarrow> job_clock \<Rightarrow>
   (job_result_param list, operator_error) outcome" where
  "do_tee_job status ask uuid model prompt user job_id tag temperature top_p max_tokens clock =
     and_then (wait_for_worker status (\<lambda>s. s > 0) 0) (\<lambda>_.
     let request =
       \<lparr>or_request_id = uuid, or_node_id = [], or_model = model, or_prompt = prompt,
        or_prompt_hash = [], or_signature = [],
        or_params = \<lparr>tp_temperature = f64_to_f32 temperature, tp_top_p = f64_to_f32 top_p,
                     tp_max_tokens = ucast max_tokens\<rparr>\<rparr> in
     and_then (map_err (hub_failure ''tee question timeout'') (ask request)) (\<lambda>worker_result.
     and_then (bump_clock ''tee clock value missing'' clock) (\<lambda>clock'.
       Ok [result_param user job_id tag (ar_answer worker_result) default_vrf_reply clock'])))"

section \<open>\<open>do_job\<close>\<close>

record job_env =
  je_config :: operator_config
  je_hub_ready :: bool
  je_compute_vrf :: "string \<Rightarrow> string \<Rightarrow> string \<Rightarrow> (vrf_reply, operator_error) outcome option"
  je_opml_status :: "nat \<Rightarrow> (string, operator_error) outcome"
  je_tee_status :: "nat \<Rightarrow> (u32, operator_error) outcome"
  je_ask_opml :: "opml_request \<Rightarrow> (opml_answer, verify_hub_error) outcome"
  je_ask_tee :: "operator_req \<Rightarrow> (answer_req, verify_hub_error) outcome"
  je_uuid :: string
  je_clock_json :: "job_clock \<Rightarrow> (string, string) outcome"
  je_send :: "job_result_param list \<Rightarrow> (unit, operator_error) outcome"

text \<open>What a job does outside: the row stored and the reply sent.\<close>

datatype job_effect =
    SinkJob string string string string string
  | SendResult "job_result_param list"

definition job_reply ::
  "job_env \<Rightarrow> dispatch_job_param \<Rightarrow> vrf_reply \<Rightarrow> (job_result_param list, operator_error) outcome" where
  "job_reply env params vrf_result =
     (let node_type = nc_node_type (oc_node (je_config env));
          j = dj_job params; user = dj_user params; job_id = dj_job_id params; tag = dj_tag params in
      if job_tag j \<noteq> node_type then
        and_then (bump_clock ''Clock value missing'' (dj_clock params)) (\<lambda>clock.
          Ok [result_param user job_id tag
                (''unsupported worker type, need '' @ node_type @ '', got '' @ job_tag j)
                vrf_result clock])
      else if \<not> vr_selected vrf_result then
        and_then (bump_clock ''Clock value missing'' (dj_clock params)) (\<lambda>clock.
          Ok [result_param user job_id tag [] vrf_result clock])
      else if job_tag j = ''opml'' then
        do_opml_job (je_opml_status env) (je_ask_opml env) (je_uuid env) (job_model j) (job_prompt j)
          user job_id tag (callback_url (oc_net (je_config env))) (dj_clock params)
      else if job_tag j = ''tee'' then
        do_tee_job (je_tee_status env) (je_ask_tee env) (je_uuid env) (job_model j) (job_prompt j)
          user job_id tag (jp_temperature (job_parameters j)) (jp_top_p (job_parameters j))
          (jp_max_tokens (job_parameters j)) (dj_clock params)
      else Err (OPUnsupportedTagError (job_tag j)))"

text \<open>Storing and sending; an error of the store or of the websocket is only logged.\<close>

definition finish_job ::
  "job_env \<Rightarrow> job_result_param list \<Rightarrow> job_effect list \<times> (unit, operator_error) outcome" where
  "finish_job env res =
     (case res of
        [] \<Rightarrow> ([], Panic ''index out of bounds'')
      | r # _ \<Rightarrow>
          (case map_err JsonError (je_clock_json env (jr_clock r)) of
             Err e \<Rightarrow> ([], Err e)
           | Panic m \<Rightarrow> ([], Panic m)
           | Ok clock \<Rightarrow>
               (let stored = SinkJob (jr_job_id r) (jr_user r) (jr_output r) (jr_tag r) clock in
                case je_send env res of
                  Panic m \<Rightarrow> ([stored, SendResult res], Panic m)
                | _ \<Rightarrow> ([stored, SendResult res], Ok ()))))"

definition do_job ::
  "job_env \<Rightarrow> dispatch_job_param list \<Rightarrow> (job_effect list \<times> (unit, operator_error) outcome) option"
  where
  "do_job env msg =
     (if \<not> je_hub_ready env then Some ([], Err (CustomError ''SharedState clone error''))
      else case msg of
        [] \<Rightarrow> Some ([], Panic ''index out of bounds'')
      | params # _ \<Rightarrow>
          (case je_compute_vrf env (dj_tag params) (dj_position params) (job_prompt (dj_job params)) of
             None \<Rightarrow> None
           | Some (Err e) \<Rightarrow> Some ([], Err e)
           | Some (Panic m) \<Rightarrow> Some ([], Panic m)
           | Some (Ok vrf_result) \<Rightarrow>
               (case job_reply env params vrf_result of
                  Err e \<Rightarrow> Some ([], Err e)
                | Panic m \<Rightarrow> Some ([], Panic m)
                | Ok res \<Rightarrow> Some (finish_job env res))))"

section \<open>Requests to the dispatcher\<close>

text \<open>\<open>request\<close> is \<open>request_timeout\<close> of the websocket: method, parameters, seconds.\<close>

definition dispatcher_call ::
  "(string \<Rightarrow> 'v \<Rightarrow> nat \<Rightarrow> ('v, ws_error) outcome) \<Rightarrow> ('v \<Rightarrow> (ws_response, string) outcome) \<Rightarrow>
   string \<Rightarrow> 'v \<Rightarrow> nat \<Rightarrow> (unit, operator_error) outcome" where
  "dispatcher_call request from_value f v seconds =
     and_then (map_err OPWsError (request f v seconds)) (\<lambda>res.
     and_then (map_err JsonError (from_value res)) (\<lambda>_. Ok ()))"

definition connect_dispatcher ::
  "(string \<Rightarrow> 'v \<Rightarrow> nat \<Rightarrow> ('v, ws_error) outcome) \<Rightarrow> ('v \<Rightarrow> (ws_response, string) outcome) \<Rightarrow>
   (connect_param list \<Rightarrow> 'v) \<Rightarrow> node_config \<Rightarrow> (unit, operator_error) outcome" where
  "connect_dispatcher request from_value to_json node =
     dispatcher_call request from_value ''connect''
       (to_json [\<lparr>cp_operator = nc_node_id node, cp_workers = [nc_node_type node], cp_hash = [],
                  cp_signature = []\<rparr>]) 5"

definition job_result ::
  "(string \<Rightarrow> 'v \<Rightarrow> nat \<Rightarrow> ('v, ws_error) outcome) \<Rightarrow> ('v \<Rightarrow> (ws_response, string) outcome) \<Rightarrow>
   'v \<Rightarrow> (unit, operator_error) outcome" where
  "job_result request from_value msg = dispatcher_call request from_value ''job_result'' msg 50"

section \<open>Queue and dispatch\<close>

definition add_queue_req ::
  "'st redis \<Rightarrow> (nat, string) outcome \<Rightarrow> (string \<times> 'v \<Rightarrow> (string, string) outcome) \<Rightarrow> 'st \<Rightarrow>
   string \<Rightarrow> 'v \<Rightarrow> 'st \<times> (unit, operator_error) outcome" where
  "add_queue_req R now to_json st rid p =
     (case redis_message_new now (to_json (rid, p)) of
        Err e \<Rightarrow> (st, Err (CustomError ''redis msg new error''))
      | Panic m \<Rightarrow> (st, Panic m)
      | Ok redis_msg \<Rightarrow>
          (case produce R st QUEUE_TOPIC redis_msg of
             (st', Err e) \<Rightarrow> (st', Err (CustomError ''redis queue produce error''))
           | (st', Panic m) \<Rightarrow> (st', Panic m)
           | (st', Ok u) \<Rightarrow> (st', Ok ())))"

datatype task_status = Continues | TaskPanicked string

text \<open>
  One pass over the messages that were consumed. \<open>decode_entry\<close> and \<open>decode_job\<close> are the two
  JSON conversions; the result of an acknowledgement is only logged. \<open>None\<close>: a job never
  returns.
\<close>

fun process_messages ::
  "'st redis \<Rightarrow> job_env \<Rightarrow> (string \<Rightarrow> (string \<times> 'v, string) outcome) \<Rightarrow>
   ('v \<Rightarrow> (dispatch_job_param list, string) outcome) \<Rightarrow> 'st \<Rightarrow> redis_message list \<Rightarrow>
   ('st \<times> job_effect list \<times> task_status) option" where
  "process_messages R env decode_entry decode_job st [] = Some (st, [], Continues)"
| "process_messages R env decode_entry decode_job st (m # ms) =
     (let next = (\<lambda>effects.
            map_option (\<lambda>(st', effs, status). (st', effects @ effs, status))
              (process_messages R env decode_entry decode_job
                 (fst (acknowledge R st QUEUE_TOPIC (rm_id m))) ms))
      in case and_then (decode_entry (rm_data m)) (\<lambda>(rid, msg). decode_job msg) of
           Err e \<Rightarrow> next []
         | Panic p \<Rightarrow> Some (st, [], TaskPanicked p)
         | Ok job \<Rightarrow>
             (case do_job env job of
                None \<Rightarrow> None
              | Some (effects, Panic p) \<Rightarrow> Some (st, effects, TaskPanicked p)
              | Some (effects, _) \<Rightarrow> next effects))"

definition dispatch_round ::
  "'st redis \<Rightarrow> job_env \<Rightarrow> (string \<Rightarrow> (string \<times> 'v, string) outcome) \<Rightarrow>
   ('v \<Rightarrow> (dispatch_job_param list, string) outcome) \<Rightarrow> 'st \<Rightarrow>
   ('st \<times> job_effect list \<times> task_status) option" where
  "dispatch_round R env decode_entry decode_job st =
     (case consume R st QUEUE_TOPIC of
        Ok msgs \<Rightarrow> process_messages R env decode_entry decode_job st msgs
      | Err e \<Rightarrow> Some (st, [], Continues)
      | Panic p \<Rightarrow> Some (st, [], TaskPanicked p))"

text \<open>The loop of \<open>handle_dispatchjobs\<close>, for \<open>n\<close> rounds.\<close>

fun handle_dispatchjobs ::
  "'st redis \<Rightarrow> job_env \<Rightarrow> (string \<Rightarrow> (string \<times> 'v, string) outcome) \<Rightarrow>
   ('v \<Rightarrow> (dispatch_job_param list, string) outcome) \<Rightarrow> nat \<Rightarrow> 'st \<Rightarrow>
   ('st \<times> job_effect list \<times> task_status) option" where
  "handle_dispatchjobs R env decode_entry decode_job 0 st = Some (st, [], Continues)"
| "handle_dispatchjobs R env decode_entry decode_job (Suc n) st =
     (case dispatch_round R env decode_entry decode_job st of
        None \<Rightarrow> None
      | Some (st', effects, TaskPanicked p) \<Rightarrow> Some (st', effects, TaskPanicked p)
      | Some (st', effects, Continues) \<Rightarrow>
          map_option (\<lambda>(st'', effs, status). (st'', effects @ effs, status))
            (handle_dispatchjobs R env decode_entry decode_job n st'))"

section \<open>Lemmas\<close>

text \<open>A query that answers without finding the worker ready.\<close>

definition not_ready :: "(nat \<Rightarrow> ('s, operator_error) outcome) \<Rightarrow> ('s \<Rightarrow> bool) \<Rightarrow> nat \<Rightarrow> bool" where
  "not_ready status ready i \<longleftrightarrow> (case status i of Ok v \<Rightarrow> \<not> ready v | Err e \<Rightarrow> True | Panic m \<Rightarrow> False)"

lemma wait_for_worker_skip:
  "n \<le> 600 \<Longrightarrow> \<forall>i<n. not_ready status ready i \<Longrightarrow>
     wait_for_worker status ready 0 = wait_for_worker status ready n"
proof (induction n)
  case (Suc n)
  then have "not_ready status ready n" "wait_for_worker status ready 0 = wait_for_worker status ready n"
    by simp_all
  then show ?case
    using Suc.prems(1)
    by (simp add: wait_for_worker.simps [of status ready n] not_ready_def split: outcome.splits)
qed simp

lemma bump_clock_Ok:
  "bump_clock missing clock = Ok clock' \<longleftrightarrow>
     (\<exists>k v n. clock \<noteq> [] \<and> last clock = (k, v) \<and> parse_u32 v = Ok n \<and> unat n + 1 < 2 ^ 32 \<and>
        clock' = [(k, nat_to_string (unat n + 1))])"
proof
  assume "bump_clock missing clock = Ok clock'"
  then obtain k v n n' where *: "clock \<noteq> []" "last clock = (k, v)" "parse_u32 v = Ok n"
      "checked_add n 1 = Some n'" "clock' = [(k, nat_to_string (unat n'))]"
    by (auto simp: bump_clock_def outcome_simps split: if_splits)
  moreover have "unat n' = unat n + 1" using checked_add_Some [OF *(4)] by simp
  moreover have "unat n + 1 < 2 ^ 32" using *(4) by (auto simp: checked_add_def split: if_splits)
  ultimately show "\<exists>k v n. clock \<noteq> [] \<and> last clock = (k, v) \<and> parse_u32 v = Ok n \<and>
      unat n + 1 < 2 ^ 32 \<and> clock' = [(k, nat_to_string (unat n + 1))]"
    by simp
next
  assume "\<exists>k v n. clock \<noteq> [] \<and> last clock = (k, v) \<and> parse_u32 v = Ok n \<and> unat n + 1 < 2 ^ 32 \<and>
      clock' = [(k, nat_to_string (unat n + 1))]"
  then obtain k v n where *: "clock \<noteq> []" "last clock = (k, v)" "parse_u32 v = Ok n"
      "unat n + 1 < 2 ^ 32" "clock' = [(k, nat_to_string (unat n + 1))]"
    by blast
  have "unat (n + 1) = unat n + 1" using *(4) unat_add_no_overflow [of n 1] by simp
  then show "bump_clock missing clock = Ok clock'"
    using * by (simp add: bump_clock_def checked_add_def)
qed

lemma do_worker_job_Ok:
  "do_opml_job status ask uuid model prompt user job_id tag callback clock = Ok rs \<Longrightarrow>
     \<exists>out clock'. rs = [result_param user job_id tag out default_vrf_reply clock'] \<and>
       bump_clock ''opml clock value missing'' clock = Ok clock'"
  "do_tee_job status' ask' uuid model prompt user job_id tag t p mt clock = Ok rs \<Longrightarrow>
     \<exists>out clock'. rs = [result_param user job_id tag out default_vrf_reply clock'] \<and>
       bump_clock ''tee clock value missing'' clock = Ok clock'"
  by (auto simp: do_opml_job_def do_tee_job_def outcome_simps Let_def)

text \<open>The shape of every reply, whichever branch makes it.\<close>

lemma job_reply_Ok:
  assumes "job_reply env params vrf = Ok rs"
  shows "\<exists>out w clock' missing. rs = [result_param (dj_user params) (dj_job_id params) (dj_tag params) out w clock'] \<and>
    bump_clock missing (dj_clock params) = Ok clock' \<and>
    w = (if job_tag (dj_job params) = nc_node_type (oc_node (je_config env)) \<and> vr_selected vrf
         then default_vrf_reply else vrf)"
proof -
  let ?r = "\<lambda>out w clock'. result_param (dj_user params) (dj_job_id params) (dj_tag params) out w clock'"
  consider "job_tag (dj_job params) \<noteq> nc_node_type (oc_node (je_config env))"
    | "job_tag (dj_job params) = nc_node_type (oc_node (je_config env))" "\<not> vr_selected vrf"
    | "job_tag (dj_job params) = nc_node_type (oc_node (je_config env))" "vr_selected vrf" by blast
  then show ?thesis
  proof cases
    case 3
    then have "job_tag (dj_job params) = ''opml'' \<or> job_tag (dj_job params) = ''tee''"
      using assms by (auto simp: job_reply_def Let_def split: if_splits)
    then show ?thesis
      using 3 assms do_worker_job_Ok
      by (auto simp: job_reply_def Let_def split: if_splits) (metis, metis)
  qed (use assms in \<open>auto simp: job_reply_def Let_def outcome_simps\<close>)
qed

lemma finish_job_Err: "finish_job env rs = (effects, Err e) \<Longrightarrow> effects = []"
  by (auto simp: finish_job_def Let_def split: list.splits outcome.splits)

lemma do_job_Err: "do_job env msg = Some (effects, Err e) \<Longrightarrow> effects = []"
  by (auto simp: do_job_def finish_job_Err split: if_splits list.splits option.splits outcome.splits)

context redis_stream
begin

lemma stream_acknowledge_first:
  assumes "stream_ok id_key entries last_id st t" "stream_messages entries st t = m # ms"
    and "snd (acknowledge R st t (rm_id m)) = Ok ()"
  shows "stream_messages entries (fst (acknowledge R st t (rm_id m))) t = ms"
  using mq.acknowledge_first [OF assms(1,2)] assms(3) by (metis prod.collapse)

lemma stream_consume_first:
  assumes "stream_ok id_key entries last_id st t" "stream_messages entries st t = m # ms"
    and "consume R st t = Ok l"
  shows "l = [m]"
  using mq.consume_head [OF assms(1,3)] assms(2) by simp

end

section \<open>Properties\<close>

text \<open>C30. Waiting for a worker is bounded: unless a query panics, the loop ends after at most 600
  queries, with the number of the first one that found the worker ready, or with the time-out error
  when there is none.\<close>

theorem wait_for_worker_result:
  assumes "\<forall>i<600. \<forall>m. status i \<noteq> Panic m"
  shows "wait_for_worker status ready 0 =
    (case find (\<lambda>i. \<exists>v. status i = Ok v \<and> ready v) [0..<600] of
       Some i \<Rightarrow> Ok i
     | None \<Rightarrow> Err (OPTimeoutError ''opml question timeout''))"
proof (cases "find (\<lambda>i. \<exists>v. status i = Ok v \<and> ready v) [0..<600]")
  case None
  then have "not_ready status ready i" if "i < 600" for i
    using assms that by (auto simp: find_None_iff not_ready_def split: outcome.splits)
  then show ?thesis
    using wait_for_worker_skip [of 600 status ready] None
    by (simp add: wait_for_worker.simps [of _ _ 600])
next
  case (Some i)
  then have i: "i < 600" "\<exists>v. status i = Ok v \<and> ready v"
      "\<forall>j<i. \<not> (\<exists>v. status j = Ok v \<and> ready v)"
    by (auto simp: find_Some_iff)
  then have "not_ready status ready j" if "j < i" for j
    using assms that by (auto simp: not_ready_def split: outcome.splits)
  then have "wait_for_worker status ready 0 = wait_for_worker status ready i"
    using wait_for_worker_skip [of i status ready] i(1) by simp
  then show ?thesis using Some i(1,2) by (auto simp: wait_for_worker.simps [of _ _ i])
qed

theorem wait_for_worker_result_witness:
  "wait_for_worker (\<lambda>i. if i < 3 then Err OPChannelError else Ok ''0'') (\<lambda>s. s = ''0'') 0 = Ok 3"
proof -
  let ?status = "\<lambda>i. if i < 3 then Err OPChannelError else Ok ''0''" and ?ready = "\<lambda>s. s = ''0''"
  have "find (\<lambda>i. \<exists>v. ?status i = Ok v \<and> ?ready v) [0..<600] = Some 3"
    by (subst find_Some_iff) (rule exI [of _ 3], simp)
  then show ?thesis using wait_for_worker_result [of ?status ?ready] by simp
qed

text \<open>C5. What a successful job does: it stores one row and sends one reply, in this order; the reply
  names the user, the job and the tag of the request, its clock is the last entry of the request's
  clock increased by one without overflow, and nothing else is in it. The reply has the VRF result
  exactly when the job was not given to a worker: the reply of a selected operator has an empty
  one.\<close>

theorem do_job_reply:
  assumes "do_job env (params # rest) = Some (effects, Ok ())"
  shows "\<exists>vrf k v n r clock.
    je_compute_vrf env (dj_tag params) (dj_position params) (job_prompt (dj_job params)) = Some (Ok vrf) \<and>
    dj_clock params \<noteq> [] \<and> last (dj_clock params) = (k, v) \<and> parse_u32 v = Ok n \<and> unat n + 1 < 2 ^ 32 \<and>
    effects = [SinkJob (dj_job_id params) (dj_user params) (jr_output r) (dj_tag params) clock, SendResult [r]] \<and>
    jr_user r = dj_user params \<and> jr_job_id r = dj_job_id params \<and> jr_tag r = dj_tag params \<and>
    jr_clock r = [(k, nat_to_string (unat n + 1))] \<and>
    jr_vrf r = (if job_tag (dj_job params) = nc_node_type (oc_node (je_config env)) \<and> vr_selected vrf
                then default_vrf_reply else vrf)"
proof -
  obtain vrf rs where vrf: "je_compute_vrf env (dj_tag params) (dj_position params)
        (job_prompt (dj_job params)) = Some (Ok vrf)"
      and rs: "job_reply env params vrf = Ok rs" and fin: "finish_job env rs = (effects, Ok ())"
    using assms by (auto simp: do_job_def split: if_splits option.splits outcome.splits)
  obtain out w clock' missing where r:
      "rs = [result_param (dj_user params) (dj_job_id params) (dj_tag params) out w clock']"
      "bump_clock missing (dj_clock params) = Ok clock'"
      "w = (if job_tag (dj_job params) = nc_node_type (oc_node (je_config env)) \<and> vr_selected vrf
            then default_vrf_reply else vrf)"
    using job_reply_Ok [OF rs] by blast
  show ?thesis
    using vrf r(2,3) fin
    by (auto simp: bump_clock_Ok r(1) finish_job_def result_param_def outcome_simps Let_def
        split: outcome.splits)
qed

definition sample_env :: job_env where
  "sample_env =
     \<lparr>je_config = sample_config ''0xab'' ''key'', je_hub_ready = True,
      je_compute_vrf = (\<lambda>t p q. Some (Ok (default_vrf_reply\<lparr>vr_selected := True\<rparr>))),
      je_opml_status = (\<lambda>i. Ok ''0''), je_tee_status = (\<lambda>i. Ok 1),
      je_ask_opml = (\<lambda>q. Ok \<lparr>oa_req_id = oq_req_id q, oa_node_id = [], oa_model = oq_model q,
         oa_prompt = oq_prompt q, oa_answer = ''42'', oa_state_root = []\<rparr>),
      je_ask_tee = (\<lambda>q. Err RequestTimeoutError), je_uuid = ''u-1'',
      je_clock_json = (\<lambda>c. Ok ''{}''), je_send = (\<lambda>r. Ok ())\<rparr>"

definition sample_job :: dispatch_job_param where
  "sample_job =
     \<lparr>dj_user = ''alice'', dj_seed = [], dj_tag = ''suspicion'', dj_position = [], dj_signature = [],
      dj_clock = [(''1'', nat_to_string (unat (41 :: u32)))], dj_job_id = ''j1'',
      dj_job = \<lparr>job_model = ''m'', job_prompt = ''p'', job_tag = ''opml'',
        job_parameters = \<lparr>jp_temperature = Fin 1 0, jp_top_p = Fin 1 0, jp_max_tokens = 70000\<rparr>\<rparr>\<rparr>"

lemma sample_do_job: "\<exists>effects. do_job sample_env [sample_job] = Some (effects, Ok ())"
proof -
  have ready: "wait_for_worker (\<lambda>i. Ok ''0'') (\<lambda>s. s = ''0'') 0 = Ok 0"
    by (simp add: wait_for_worker.simps)
  have "bump_clock mis [(''1'', nat_to_string (unat (41 :: u32)))] = Ok [(''1'', nat_to_string 42)]" for mis
    unfolding bump_clock_Ok using parse_u32_to_string [of 41] by fastforce
  then show ?thesis
    by (simp add: do_job_def sample_env_def sample_job_def job_reply_def sample_config_def do_opml_job_def
        ready finish_job_def)
qed

theorem do_job_reply_witness:
  "\<exists>r clock. do_job sample_env [sample_job] =
      Some ([SinkJob ''j1'' ''alice'' (jr_output r) ''suspicion'' clock, SendResult [r]], Ok ()) \<and>
    jr_clock r = [(''1'', nat_to_string 42)] \<and> jr_vrf r = default_vrf_reply"
proof -
  obtain effects where e: "do_job sample_env [sample_job] = Some (effects, Ok ())"
    using sample_do_job by blast
  from do_job_reply [OF this] obtain vrf k v n r clock where
    *: "je_compute_vrf sample_env (dj_tag sample_job) (dj_position sample_job)
          (job_prompt (dj_job sample_job)) = Some (Ok vrf)"
      "last (dj_clock sample_job) = (k, v)" "parse_u32 v = Ok n"
      "effects = [SinkJob (dj_job_id sample_job) (dj_user sample_job) (jr_output r)
         (dj_tag sample_job) clock, SendResult [r]]"
      "jr_clock r = [(k, nat_to_string (unat n + 1))]"
      "jr_vrf r = (if job_tag (dj_job sample_job) = nc_node_type (oc_node (je_config sample_env)) \<and>
          vr_selected vrf then default_vrf_reply else vrf)"
    by blast
  have "k = ''1''" "n = 41" using *(2,3) parse_u32_to_string [of 41] by (auto simp: sample_job_def)
  moreover have "jr_vrf r = default_vrf_reply"
    using *(1,6) by (auto simp: sample_env_def sample_job_def sample_config_def)
  ultimately show ?thesis using e *(4,5) by (simp add: sample_job_def)
qed

text \<open>C7. One round of the dispatcher on a queue whose first message is \<open>m\<close>: the message is removed
  when it cannot be read and when its job ends with a result or an error - in the last two cases of
  failure nothing is stored or sent, so the job is gone without a reply - and it stays the first one
  when the job panics.\<close>

theorem dispatch_round_result:
  assumes "redis_laws R id_key entries last_id" "stream_ok id_key entries last_id st QUEUE_TOPIC"
    and "stream_messages entries st QUEUE_TOPIC = m # ms" "consume R st QUEUE_TOPIC = Ok l"
    and "acknowledge R st QUEUE_TOPIC (rm_id m) = (st1, Ok ())"
  shows "dispatch_round R env decode_entry decode_job st =
      (case and_then (decode_entry (rm_data m)) (\<lambda>(rid, msg). decode_job msg) of
         Err e \<Rightarrow> Some (st1, [], Continues)
       | Panic p \<Rightarrow> Some (st, [], TaskPanicked p)
       | Ok job \<Rightarrow>
           (case do_job env job of
              None \<Rightarrow> None
            | Some (effects, Ok u) \<Rightarrow> Some (st1, effects, Continues)
            | Some (effects, Err e) \<Rightarrow> Some (st1, [], Continues)
            | Some (effects, Panic p) \<Rightarrow> Some (st, effects, TaskPanicked p))) \<and>
    stream_messages entries st1 QUEUE_TOPIC = ms"
proof -
  have rs: "redis_stream R id_key entries last_id" using assms(1) by (rule redis_stream.intro)
  have "l = [m]" using redis_stream.stream_consume_first [OF rs assms(2-4)] .
  moreover have "stream_messages entries st1 QUEUE_TOPIC = ms"
    using redis_stream.stream_acknowledge_first [OF rs assms(2,3)] assms(5) by simp
  ultimately show ?thesis
    using assms(4,5)
    by (auto simp: dispatch_round_def Let_def dest: do_job_Err
        split: outcome.splits option.splits prod.splits)
qed

definition sample_queue :: log_state where
  "sample_queue = (\<lambda>t. ([(''1-0'', [(''data'', ''x'')])], (9, 0)))"

lemma sample_queue_facts:
  "stream_ok log_key (\<lambda>st t. fst (st t)) (\<lambda>st t. snd (st t)) sample_queue QUEUE_TOPIC"
  "stream_messages (\<lambda>st t. fst (st t)) sample_queue QUEUE_TOPIC = [\<lparr>rm_id = ''1-0'', rm_data = ''x''\<rparr>]"
  "consume log_server sample_queue QUEUE_TOPIC = Ok [\<lparr>rm_id = ''1-0'', rm_data = ''x''\<rparr>]"
  "acknowledge log_server sample_queue QUEUE_TOPIC ''1-0'' =
     (sample_queue(QUEUE_TOPIC := ([], (9, 0))), Ok ())"
proof -
  have "log_key (nat_to_string 1 @ ''-0'') = (1, 0)" by (rule log_key_millis)
  moreover have "nat_to_string 1 @ ''-0'' = ''1-0''" by code_simp
  ultimately have "log_key ''1-0'' = (1, 0)" by simp
  then show "stream_ok log_key (\<lambda>st t. fst (st t)) (\<lambda>st t. snd (st t)) sample_queue QUEUE_TOPIC"
    by (simp add: stream_ok_def sample_queue_def)
qed (simp_all add: sample_queue_def stream_messages_def List.map_filter_simps consume_def
      acknowledge_def log_server_def)

theorem dispatch_round_result_witness:
  "dispatch_round log_server sample_env (\<lambda>d. Err ''not JSON'') (\<lambda>v :: unit. Ok []) sample_queue =
     Some (sample_queue(QUEUE_TOPIC := ([], (9, 0))), [], Continues)"
  using dispatch_round_result [OF log.laws sample_queue_facts(1-3), where env = sample_env
      and decode_entry = "\<lambda>d. Err ''not JSON''" and decode_job = "\<lambda>v :: unit. Ok []"]
    sample_queue_facts(4)
  by simp

text \<open>A message whose request is the empty list stops the dispatcher for good: the task panics
  before it acknowledges, the queue keeps the message in front, and every later run of the
  dispatcher on this queue panics again, without any effect.\<close>

theorem empty_request_poisons:
  assumes "redis_laws R id_key entries last_id" "stream_ok id_key entries last_id st QUEUE_TOPIC"
    and "stream_messages entries st QUEUE_TOPIC = m # ms" "consume R st QUEUE_TOPIC = Ok l"
    and "decode_entry (rm_data m) = Ok (rid, msg)" "decode_job msg = Ok []" "je_hub_ready env"
  shows "handle_dispatchjobs R env decode_entry decode_job (Suc n) st =
    Some (st, [], TaskPanicked ''index out of bounds'')"
proof -
  have rs: "redis_stream R id_key entries last_id" using assms(1) by (rule redis_stream.intro)
  have "l = [m]" using redis_stream.stream_consume_first [OF rs assms(2-4)] .
  then show ?thesis
    using assms(4-7) by (simp add: dispatch_round_def do_job_def)
qed

theorem empty_request_poisons_witness:
  "handle_dispatchjobs log_server sample_env (\<lambda>d. Ok (''7'', ())) (\<lambda>v. Ok []) (Suc 4) sample_queue =
     Some (sample_queue, [], TaskPanicked ''index out of bounds'')"
  by (rule empty_request_poisons [OF log.laws sample_queue_facts(1-3)])
    (simp_all add: sample_env_def)

end
