(* ===== verification/Storage.thy ===== *)
theory Storage
  imports Prelude
begin

text \<open>
  Persistence: \<open>operator/runer/src/storage.rs\<close>, the schema of the two tables in
  \<open>operator/db_sql/src/pg/migrator\<close> and the set-up of a database in
  \<open>operator/db_sql/src/pg/pg_client.rs\<close>. The database server is a parameter; what it documents is
  that an insertion fails when a column declared \<open>NOT NULL\<close> has no value or a unique one has a
  value that is already there, and appends the row otherwise. An \<open>ActiveModel\<close> is the list of the
  columns that are set.
\<close>

section \<open>Schema\<close>

datatype column_type = BigInteger | BigUnsigned | StringColumn | CharLen nat | Binary | Timestamp

record column_def =
  col_name :: string
  col_type :: column_type
  col_not_null :: bool
  col_unique :: bool
  col_auto :: bool

definition column :: "string \<Rightarrow> column_type \<Rightarrow> bool \<Rightarrow> bool \<Rightarrow> bool \<Rightarrow> column_def" where
  "column name ty not_null uniq auto =
     \<lparr>col_name = name, col_type = ty, col_not_null = not_null, col_unique = uniq, col_auto = auto\<rparr>"

definition job_result_columns :: "column_def list" where
  "job_result_columns =
     [column ''id'' BigInteger True True True,
      column ''username'' StringColumn True False False,
      column ''job_id'' StringColumn True True False,
      column ''result'' StringColumn True False False,
      column ''tag'' StringColumn True False False,
      column ''clock'' StringColumn True False False,
      column ''operator'' StringColumn True False False,
      column ''signature'' StringColumn True False False]"

definition clock_infos_columns :: "column_def list" where
  "clock_infos_columns =
     [column ''id'' BigInteger True True True,
      column ''clock'' StringColumn True False False,
      column ''clock_hash'' (CharLen 64) True True False,
      column ''node_id'' (CharLen 64) True False False,
      column ''message_id'' (CharLen 64) True False False,
      column ''raw_message'' Binary True False False,
      column ''event_count'' BigUnsigned True False False,
      column ''create_at'' Timestamp False False False]"

text \<open>Statements a migration sends; the second component says \<open>IF NOT EXISTS\<close>.\<close>

datatype statement =
    CreateDatabase string bool
  | DropDatabase string
  | CreateTable string bool "column_def list"
  | DropTable string
  | CreateIndex string string string bool

definition job_result_up :: "statement list" where
  "job_result_up = [CreateTable ''job_result_param'' True job_result_columns]"

definition job_result_down :: "statement list" where
  "job_result_down = [DropTable ''job_result_param'']"

definition clock_infos_up :: "statement list" where
  "clock_infos_up =
     [CreateTable ''clock_infos'' False clock_infos_columns,
      CreateIndex ''idx-clockinfos-messageid'' ''clock_infos'' ''message_id'' True,
      CreateIndex ''idx-clockinfos-nodeid'' ''clock_infos'' ''node_id'' True]"

definition clock_infos_down :: "statement list" where
  "clock_infos_down = [DropTable ''clock_infos'']"

definition migrations :: "statement list list" where
  "migrations = [job_result_up, clock_infos_up]"

section \<open>Database set-up\<close>

datatype backend = MySql | Postgres | Sqlite

record 'db db_server =
  db_connect :: "string \<Rightarrow> ('db, string) outcome"
  db_backend :: "'db \<Rightarrow> backend"
  db_execute :: "'db \<Rightarrow> statement \<Rightarrow> ('db, string) outcome"
  db_has_table :: "'db \<Rightarrow> string \<Rightarrow> (bool, string) outcome"

definition select_db ::
  "'db db_server \<Rightarrow> string \<Rightarrow> string \<Rightarrow> 'db \<Rightarrow> ('db, string) outcome" where
  "select_db D request_url db_name db =
     (case db_backend D db of
        MySql \<Rightarrow>
          and_then (db_execute D db (CreateDatabase db_name True)) (\<lambda>_.
            db_connect D (request_url @ ''/'' @ db_name))
      | Postgres \<Rightarrow>
          and_then (db_execute D db (DropDatabase db_name)) (\<lambda>db1.
          and_then (db_execute D db1 (CreateDatabase db_name False)) (\<lambda>_.
            db_connect D (request_url @ ''/'' @ db_name)))
      | Sqlite \<Rightarrow> Ok db)"

definition setup_db :: "'db db_server \<Rightarrow> string \<Rightarrow> string \<Rightarrow> ('db, string) outcome" where
  "setup_db D request_url db_name =
     and_then (db_connect D request_url) (\<lambda>db0.
     and_then (select_db D request_url db_name db0) (\<lambda>db.
     and_then (fold_outcome (db_execute D) db (concat migrations)) (\<lambda>db'.
     and_then (db_has_table D db' ''clock_infos'') (\<lambda>present.
       if present then Ok db' else Panic ''assertion failed''))))"

text \<open>\<open>init_db\<close>: \<open>parse\<close> gives the path and the text of a URL, or nothing.\<close>

function trim_end_matches :: "string \<Rightarrow> string \<Rightarrow> string" where
  "trim_end_matches p s =
     (if p \<noteq> [] \<and> length p \<le> length s \<and> drop (length s - length p) s = p
      then trim_end_matches p (take (length s - length p) s) else s)"
  by auto
termination
proof (relation "measure (\<lambda>(p, s). length s)")
  fix p s :: string
  assume "p \<noteq> [] \<and> length p \<le> length s \<and> drop (length s - length p) s = p"
  then have "length s - length p < length s" by (intro diff_less) auto
  then show "((p, take (length s - length p) s), p, s) \<in> measure (\<lambda>(p, s). length s)"
    by simp
qed simp

declare trim_end_matches.simps [simp del]

definition init_db ::
  "'db db_server \<Rightarrow> (string \<Rightarrow> (string \<times> string) option) \<Rightarrow> string \<Rightarrow> (bool, string) outcome" where
  "init_db D parse conn_str =
     (case parse conn_str of
        None \<Rightarrow> Ok False
      | Some (path, text) \<Rightarrow>
          let db_name = dropWhile (\<lambda>c. c = CHR ''/'') path;
              base_url = trim_end_matches db_name text
          in if db_name = [] then Ok False
             else (case setup_db D base_url db_name of
                     Err e \<Rightarrow> Ok False
                   | Panic m \<Rightarrow> Panic m
                   | Ok conn \<Rightarrow> Ok True))"

section \<open>Insertions\<close>

type_synonym 'v active_model = "(string \<times> 'v) list"
type_synonym 'v table = "'v active_model list"

definition violates :: "column_def list \<Rightarrow> 'v table \<Rightarrow> 'v active_model \<Rightarrow> bool" where
  "violates cols rows model \<longleftrightarrow>
     (\<exists>c \<in> set cols. \<not> col_auto c \<and>
        (col_not_null c \<and> map_of model (col_name c) = None \<or>
         col_unique c \<and> map_of model (col_name c) \<noteq> None \<and>
           (\<exists>r \<in> set rows. map_of r (col_name c) = map_of model (col_name c))))"

definition insert_law ::
  "(column_def list \<Rightarrow> 'v table \<Rightarrow> 'v active_model \<Rightarrow> ('v table, string) outcome) \<Rightarrow> bool" where
  "insert_law ins \<longleftrightarrow>
     (\<forall>cols rows model.
        if violates cols rows model then \<exists>e. ins cols rows model = Err e
        else ins cols rows model = Ok (rows @ [model]) \<or> (\<exists>e. ins cols rows model = Err e))"

datatype sql_value = Text string | Blob bytes

text \<open>The sinkers log an error and return nothing: the table after the call.\<close>

definition sink ::
  "(column_def list \<Rightarrow> 'v table \<Rightarrow> 'v active_model \<Rightarrow> ('v table, string) outcome) \<Rightarrow>
   column_def list \<Rightarrow> 'v table \<Rightarrow> 'v active_model \<Rightarrow> 'v table" where
  "sink ins cols rows model = (case ins cols rows model of Ok rows' \<Rightarrow> rows' | _ \<Rightarrow> rows)"

definition sinker_clock ::
  "(column_def list \<Rightarrow> sql_value table \<Rightarrow> sql_value active_model \<Rightarrow> (sql_value table, string) outcome) \<Rightarrow>
   sql_value table \<Rightarrow> string \<Rightarrow> bytes \<Rightarrow> sql_value table" where
  "sinker_clock ins rows message_id raw_message =
     sink ins clock_infos_columns rows
       [(''message_id'', Text message_id), (''raw_message'', Blob raw_message)]"

definition sinker_job ::
  "(column_def list \<Rightarrow> sql_value table \<Rightarrow> sql_value active_model \<Rightarrow> (sql_value table, string) outcome) \<Rightarrow>
   sql_value table \<Rightarrow> string \<Rightarrow> string \<Rightarrow> string \<Rightarrow> string \<Rightarrow> string \<Rightarrow> sql_value table" where
  "sinker_job ins rows job_id username result tag clock =
     sink ins job_result_columns rows
       [(''username'', Text username), (''job_id'', Text job_id), (''result'', Text result),
        (''tag'', Text tag), (''clock'', Text clock), (''operator'', Text []),
        (''signature'', Text [])]"

definition get_clocks_counts :: "('v table, string) outcome \<Rightarrow> (nat, string) outcome" where
  "get_clocks_counts clock_rows = and_then clock_rows (\<lambda>rows. Ok (length rows))"

definition job_ids :: "sql_value table \<Rightarrow> sql_value option list" where
  "job_ids rows = map (\<lambda>r. map_of r ''job_id'') rows"

section \<open>Lemmas\<close>

lemma sink_cases:
  assumes "insert_law ins"
  shows "violates cols rows model \<Longrightarrow> sink ins cols rows model = rows"
    and "sink ins cols rows model = rows \<or>
      \<not> violates cols rows model \<and> sink ins cols rows model = rows @ [model]"
proof -
  have law: "if violates cols rows model then \<exists>e. ins cols rows model = Err e
      else ins cols rows model = Ok (rows @ [model]) \<or> (\<exists>e. ins cols rows model = Err e)"
    using assms by (simp add: insert_law_def)
  then show "violates cols rows model \<Longrightarrow> sink ins cols rows model = rows"
    by (auto simp: sink_def)
  show "sink ins cols rows model = rows \<or>
      \<not> violates cols rows model \<and> sink ins cols rows model = rows @ [model]"
    using law by (auto simp: sink_def split: if_splits)
qed

lemma job_violates:
  assumes "map_of model ''job_id'' = Some v" "Some v \<in> set (job_ids rows)"
  shows "violates job_result_columns rows model"
  unfolding violates_def
  by (rule bexI [of _ "column ''job_id'' StringColumn True True False"])
    (use assms in \<open>auto simp: column_def job_result_columns_def job_ids_def\<close>)

text \<open>A server that keeps the constraints and always has room.\<close>

definition sample_insert ::
  "column_def list \<Rightarrow> 'v table \<Rightarrow> 'v active_model \<Rightarrow> ('v table, string) outcome" where
  "sample_insert cols rows model =
     (if violates cols rows model then Err ''constraint'' else Ok (rows @ [model]))"

lemma sample_insert_law: "insert_law sample_insert"
  by (simp add: insert_law_def sample_insert_def)

section \<open>Properties\<close>

text \<open>A job result is stored at most once per job id: storing a second result for a job id, even a
  different one, leaves the table as it was, and the caller is not told.\<close>

theorem sinker_job_once:
  assumes "insert_law ins" "distinct (job_ids rows)"
  shows "distinct (job_ids (sinker_job ins rows job_id user res tag clock)) \<and>
    (Some (Text job_id) \<in> set (job_ids rows) \<longrightarrow> sinker_job ins rows job_id user res tag clock = rows)"
proof -
  let ?m = "[(''username'', Text user), (''job_id'', Text job_id), (''result'', Text res),
        (''tag'', Text tag), (''clock'', Text clock), (''operator'', Text []), (''signature'', Text [])]"
  have id: "map_of ?m ''job_id'' = Some (Text job_id)" by simp
  show ?thesis
    using sink_cases [OF assms(1), of job_result_columns rows ?m] job_violates [OF id, of rows] assms(2)
    unfolding sinker_job_def by (auto simp: job_ids_def)
qed

theorem sinker_job_once_witness:
  "let rows = [[(''job_id'', Text ''j1''), (''result'', Text ''a'')]]
   in sinker_job sample_insert rows ''j1'' ''u'' ''b'' ''t'' ''c'' = rows"
proof -
  let ?rows = "[[(''job_id'', Text ''j1''), (''result'', Text ''a'')]]"
  have "distinct (job_ids ?rows)" "Some (Text ''j1'') \<in> set (job_ids ?rows)"
    by (simp_all add: job_ids_def)
  then show ?thesis
    using sinker_job_once [OF sample_insert_law] unfolding Let_def by blast
qed

text \<open>\<open>sinker_clock\<close> never stores anything: four columns without a default are declared
  \<open>NOT NULL\<close> and not set.\<close>

theorem sinker_clock_never_stores:
  assumes "insert_law ins"
  shows "sinker_clock ins rows message_id raw_message = rows"
proof -
  have "violates clock_infos_columns rows
      [(''message_id'', Text message_id), (''raw_message'', Blob raw_message)]"
    unfolding violates_def
    by (rule bexI [of _ "column ''clock'' StringColumn True False False"])
      (auto simp: column_def clock_infos_columns_def)
  then show ?thesis using sink_cases(1) [OF assms] by (simp add: sinker_clock_def)
qed

theorem sinker_clock_never_stores_witness:
  "sinker_clock sample_insert [] ''m'' [1, 2] = []"
  by (rule sinker_clock_never_stores [OF sample_insert_law])

end
