(* ===== verification/Connection.thy ===== *)
theory Connection
  imports Job_Handler Storage
begin

text \<open>
  Start and life of an operator: \<open>OperatorFactory\<close> of \<open>operator/runer/src/node_factory.rs\<close>, the
  state of \<open>operator/runer/src/operator.rs\<close>, the command line of
  \<open>operator/runer/src/cli/operator.rs\<close>, and \<open>handle_connection\<close> of \<open>msg_handler.rs\<close> with its
  receiving task, its reconnection loop and its delays.

  The loop is modelled on the sequence of what happens in its rounds: a connection attempt that
  fails, or a session with the way it ends. Of a session's tasks the receiving one is
  \<open>receive_request_task\<close> below, the sending one is \<open>handle_dispatchjobs\<close>.
\<close>

section \<open>Operator state\<close>

record server_state =
  ss_signer_key :: bytes
  ss_message_ids :: "string list"
  ss_cache_maximum :: u64

definition server_state_new :: "bytes \<Rightarrow> string \<Rightarrow> u64 \<Rightarrow> server_state" where
  "server_state_new signer node_id cache_maximum =
     \<lparr>ss_signer_key = signer, ss_message_ids = [], ss_cache_maximum = cache_maximum\<rparr>"

record ('u, 'db) operator_state =
  op_config :: operator_config
  op_storage :: 'db
  op_state :: server_state
  op_vrf_key :: vrf_private_key
  op_contract :: "'u \<times> bytes"
  op_hub_state :: "server option"

record ('u, 'db) factory_env =
  fe_parse_url :: "string \<Rightarrow> ('u, string) outcome"
  fe_parse_address :: "string \<Rightarrow> (bytes, string) outcome"
  fe_b256_from_hex :: "string \<Rightarrow> (bytes, string) outcome"
  fe_connect_db :: "string \<Rightarrow> ('db, string) outcome"
  fe_bind :: "string \<Rightarrow> (unit, string) outcome"

definition crypto_error_text :: "crypto_material_error \<Rightarrow> string" where
  "crypto_error_text e =
     (case e of
        DeserializationError \<Rightarrow> ''DeserializationError''
      | ValidationError \<Rightarrow> ''ValidationError''
      | WrongLengthError \<Rightarrow> ''WrongLengthError''
      | CanonicalRepresentationError \<Rightarrow> ''CanonicalRepresentationError''
      | SmallSubgroupError \<Rightarrow> ''SmallSubgroupError''
      | PointNotOnCurveError \<Rightarrow> ''PointNotOnCurveError'')"

text \<open>\<open>Storage::new\<close> panics when the database cannot be reached.\<close>

definition storage_new ::
  "('u, 'db) factory_env \<Rightarrow> operator_config \<Rightarrow> ('db, operator_error) outcome" where
  "storage_new F config =
     unwrap ''failed to connect to database''
       (fe_connect_db F (pg_db_url (oc_db config) @ ''/'' @ pg_db_name (oc_db config)))"

definition create_operator ::
  "('u, 'db) factory_env \<Rightarrow> operator_config \<Rightarrow> (('u, 'db) operator_state, operator_error) outcome"
  where
  "create_operator F config =
     and_then (map_err OPNewVrfRangeContractError
       (new_vrf_range_backend (fe_parse_url F) (fe_parse_address F)
          (chain_rpc_url (oc_chain config)) (vrf_range_contract (oc_chain config)))) (\<lambda>contract.
     and_then (map_err (\<lambda>e. OPVrfMaterialError (crypto_error_text e))
       (private_try_from_str (nc_vrf_key (oc_node config)))) (\<lambda>vrf_key.
     and_then (map_err OPDecodeSignerKeyError
       (fe_b256_from_hex F (nc_signer_key (oc_node config)))) (\<lambda>signer_key.
     and_then (storage_new F config) (\<lambda>storage.
       Ok \<lparr>op_config = config, op_storage = storage,
           op_state = server_state_new signer_key (nc_node_id (oc_node config))
                        (cache_msg_maximum (oc_node config)),
           op_vrf_key = vrf_key, op_contract = contract, op_hub_state = None\<rparr>))))"

text \<open>
  \<open>server::run\<close> hands the state out before it binds its address: the state, and how the task
  goes on.
\<close>

definition hub_run :: "('u, 'db) factory_env \<Rightarrow> string \<Rightarrow> server \<times> (unit, string) outcome" where
  "hub_run F url =
     (server_new, unwrap ''called Result::unwrap on an Err value'' (fe_bind F url))"

definition initialize_node ::
  "('u, 'db) factory_env \<Rightarrow> operator_config \<Rightarrow> (('u, 'db) operator_state, operator_error) outcome"
  where
  "initialize_node F config =
     and_then (create_operator F config) (\<lambda>arc_operator.
       let (server, hub_task) = hub_run F (rest_url (oc_net config))
       in Ok (arc_operator\<lparr>op_hub_state := Some server\<rparr>))"

definition build_operator ::
  "('u, 'db) factory_env \<Rightarrow> operator_config \<Rightarrow> (('u, 'db) operator_state, operator_error) outcome"
  where
  "build_operator F config =
     unwrap ''called Result::unwrap on an Err value'' (initialize_node F config)"

section \<open>Receiving task\<close>

definition success_response :: ws_response where
  "success_response = \<lparr>wr_code = 200, wr_message = ''success''\<rparr>"

text \<open>A request of the dispatcher: the queue afterwards, and the reply.\<close>

definition receive_request_task ::
  "'st redis \<Rightarrow> (nat, string) outcome \<Rightarrow> (string \<times> 'v \<Rightarrow> (string, string) outcome) \<Rightarrow> 'st \<Rightarrow>
   string \<Rightarrow> string \<Rightarrow> 'v \<Rightarrow> ('st \<times> ws_response, string) outcome" where
  "receive_request_task R now to_json st rid meth params =
     (if meth = ''dispatch_job'' then
        (case add_queue_req R now to_json st rid params of
           (st', Panic m) \<Rightarrow> Panic m
         | (st', _) \<Rightarrow> Ok (st', success_response))
      else Ok (st, success_response))"

section \<open>Reconnection\<close>

record ('key, 'socket) connect_lib =
  key_from_hex :: "string \<Rightarrow> (bytes, string) outcome"
  signer_from_slice :: "bytes \<Rightarrow> ('key, string) outcome"
  socket_from_str :: "string \<Rightarrow> ('socket, string) outcome"

text \<open>The checks at the head of every round.\<close>

definition connection_setup ::
  "('key, 'socket) connect_lib \<Rightarrow> operator_config \<Rightarrow> ('key \<times> 'socket, operator_error) outcome" where
  "connection_setup K config =
     and_then (map_err (\<lambda>e. CustomError (''key_bytes from hex error: '' @ e))
       (key_from_hex K (nc_signer_key (oc_node config)))) (\<lambda>key_bytes.
     and_then (map_err (\<lambda>e. CustomError ''32 bytes, within curve order'')
       (signer_from_slice K key_bytes)) (\<lambda>secret_key.
     and_then (map_err (\<lambda>e. CustomError ''Websocket address parse error'')
       (socket_from_str K (dispatcher_url (oc_net config)))) (\<lambda>socket.
       Ok (secret_key, socket))))"

datatype session_end =
    DispatcherRefused
  | SenderReturned
  | SenderPanicked
  | ReceiverReturned
  | ReceiverPanicked

datatype round_event = ConnectFailed | Session session_end

definition retry_max :: nat where
  "retry_max = 8"

text \<open>
  The loop: the delays in seconds, and the result when it ends. \<open>2_u64.pow(retry_count)\<close> is at
  most \<open>2 ^ 8\<close>.
\<close>

fun connection_loop ::
  "('a, operator_error) outcome \<Rightarrow> nat \<Rightarrow> round_event list \<Rightarrow>
   nat list \<times> (unit, operator_error) outcome option" where
  "connection_loop checks retry_count [] = ([], None)"
| "connection_loop checks retry_count (ev # evs) =
     (case checks of
        Err e \<Rightarrow> ([], Some (Err e))
      | Panic m \<Rightarrow> ([], Some (Panic m))
      | Ok _ \<Rightarrow>
          (case ev of
             Session DispatcherRefused \<Rightarrow> ([], Some (Ok ()))
           | Session SenderPanicked \<Rightarrow> ([], Some (Ok ()))
           | Session _ \<Rightarrow> connection_loop checks 0 evs
           | ConnectFailed \<Rightarrow>
               (let retry' = (if retry_count < retry_max then retry_count + 1 else retry_count);
                    (delays, result) = connection_loop checks retry' evs
                in (2 ^ retry' # delays, result))))"

definition handle_connection ::
  "(unit, string) outcome \<Rightarrow> ('key, 'socket) connect_lib \<Rightarrow> operator_config \<Rightarrow> round_event list \<Rightarrow>
   nat list \<times> (unit, operator_error) outcome option" where
  "handle_connection redis_init K config evs =
     (case redis_init of
        Err e \<Rightarrow> ([], Some (Err (CustomError ''redis init error'')))
      | Panic m \<Rightarrow> ([], Some (Panic m))
      | Ok u \<Rightarrow> connection_loop (connection_setup K config) 0 evs)"

section \<open>Command line\<close>

record operator_cli =
  cli_config_path :: "string option"
  cli_init_pg :: "string option"
  cli_eth_account :: bool

datatype cli_action = InitDb string | GenerateAccount | RunOperator string | PrintHelp

text \<open>The actions of a command line; \<open>init_ok\<close> is the result of the first. \<open>eth_account\<close>
  always returns true.\<close>

definition run_cli :: "operator_cli \<Rightarrow> bool \<Rightarrow> cli_action list" where
  "run_cli args init_ok =
     (let init = (case cli_init_pg args of None \<Rightarrow> [] | Some c \<Rightarrow> [InitDb c]) in
      if cli_init_pg args \<noteq> None \<and> \<not> init_ok then init
      else
        (let account = (if cli_eth_account args then [GenerateAccount] else []);
             node = (case cli_config_path args of None \<Rightarrow> [] | Some p \<Rightarrow> [RunOperator p]);
             done = init @ account @ node
         in if done = [] then [PrintHelp] else done))"

section \<open>Lemmas\<close>

lemma connection_loop_failures:
  "connection_loop (Ok x) r (replicate n ConnectFailed @ evs) =
     (let (ds, res) = connection_loop (Ok x) (min retry_max (r + n)) evs
      in (map (\<lambda>i. 2 ^ min retry_max (r + i + 1)) [0..<n] @ ds, res))"
  if "r \<le> retry_max"
  using that
proof (induction n arbitrary: r)
  case 0
  then show ?case by (simp add: min_def split: prod.splits)
next
  case (Suc n)
  define r' where "r' = (if r < retry_max then r + 1 else r)"
  have r': "r' \<le> retry_max" "min retry_max (r' + k) = min retry_max (r + Suc k)" for k
    using Suc.prems by (auto simp: r'_def min_def)
  have "[0..<Suc n] = 0 # map Suc [0..<n]" by (simp add: upt_conv_Cons map_Suc_upt del: upt_Suc)
  moreover have "r' = min retry_max (r + 1)" using Suc.prems by (auto simp: r'_def min_def)
  moreover have "min retry_max (Suc (min retry_max (Suc r) + k)) = min retry_max (Suc (Suc (r + k)))" for k
    by (simp add: min_def)
  ultimately show ?case
    using Suc.IH [OF r'(1)] r'(2) [of n] r'(2)
    by (simp add: r'_def [symmetric] Let_def comp_def add.assoc split: prod.splits)
qed

lemma delay_bounds: "0 < k \<Longrightarrow> k \<le> retry_max \<Longrightarrow> 2 \<le> (2 :: nat) ^ k \<and> (2 :: nat) ^ k \<le> 256"
  using power_increasing [of 1 k "2 :: nat"] power_increasing [of k 8 "2 :: nat"]
  by (simp add: retry_max_def)

lemma connection_loop_delays:
  "r \<le> retry_max \<Longrightarrow> d \<in> set (fst (connection_loop checks r evs)) \<Longrightarrow> 2 \<le> d \<and> d \<le> 256"
proof (induction evs arbitrary: r)
  case (Cons ev evs)
  obtain x where ok: "checks = Ok x" using Cons.prems(2) by (cases checks) auto
  show ?case
  proof (cases ev)
    case ConnectFailed
    define r' where "r' = (if r < retry_max then r + 1 else r)"
    have r': "0 < r'" "r' \<le> retry_max"
      using Cons.prems(1) by (auto simp: r'_def retry_max_def)
    moreover have "d = 2 ^ r' \<or> d \<in> set (fst (connection_loop checks r' evs))"
      using Cons.prems(2) ok ConnectFailed by (auto simp: r'_def Let_def split: prod.splits)
    ultimately show ?thesis using delay_bounds Cons.IH by blast
  next
    case (Session e)
    then have "d \<in> set (fst (connection_loop checks 0 evs))"
      using Cons.prems(2) ok by (cases e) auto
    then show ?thesis using Cons.IH by blast
  qed
qed simp

section \<open>Properties\<close>

text \<open>C31. The delays between connection attempts double from 2 to 256 seconds and stay there, every
  delay of any run lies between these bounds, and the operator never stops trying: after any number
  of failed attempts the loop still runs, with no limit on the number of retries.\<close>

theorem reconnection_backoff:
  assumes "connection_setup K config = Ok ks"
  shows "handle_connection (Ok ()) K config (replicate n ConnectFailed) =
      (map (\<lambda>i. 2 ^ min 8 (i + 1)) [0..<n], None) \<and>
    (\<forall>d \<in> set (fst (handle_connection (Ok ()) K config evs)). 2 \<le> d \<and> d \<le> 256)"
  using connection_loop_failures [of 0 ks n "[]"] connection_loop_delays [of 0 _ "Ok ks" evs] assms
  by (simp add: handle_connection_def retry_max_def)

definition sample_connect :: "(bytes, unit) connect_lib" where
  "sample_connect =
     \<lparr>key_from_hex = (\<lambda>s. if length s = 64 then Ok (replicate 32 1) else Err ''InvalidStringLength''),
      signer_from_slice = (\<lambda>b. Ok b), socket_from_str = (\<lambda>s. Ok ())\<rparr>"

theorem reconnection_backoff_witness:
  "handle_connection (Ok ()) sample_connect (sample_config ''id'' (replicate 64 CHR ''b''))
     (replicate 3 ConnectFailed) = ([2, 4, 8], None)"
proof -
  have "connection_setup sample_connect (sample_config ''id'' (replicate 64 CHR ''b'')) = Ok (replicate 32 1, ())"
    by (simp add: connection_setup_def sample_connect_def sample_config_def)
  from reconnection_backoff [OF this, of 3 "[]"] show ?thesis
    by (simp add: upt_rec)
qed

text \<open>A signer key written with \<open>0x\<close> passes the validation of the configuration but not the
  reader of \<open>handle_connection\<close>, which takes 64 digits: the operator ends in the first round with
  \<open>CustomError\<close> and never tries to connect.\<close>

theorem prefixed_signer_key_fails:
  assumes "validate_config config = Ok c" "starts_with ''0x'' (nc_signer_key (oc_node config))"
    and "\<And>s. length s \<noteq> 64 \<Longrightarrow> \<exists>e. key_from_hex K s = Err e"
  shows "\<exists>e. handle_connection (Ok ()) K config (ev # evs) = ([], Some (Err (CustomError e)))"
proof -
  let ?k = "nc_signer_key (oc_node config)"
  have "validate_key ?k" using assms(1) by (auto simp: validate_config_def split: if_splits)
  then have "length (drop 2 ?k) = 64"
    using assms(2) by (simp add: validate_key_iff remove_0x_prefix_def)
  then have "length ?k \<noteq> 64" by auto
  then obtain e where "key_from_hex K ?k = Err e" using assms(3) by blast
  then show ?thesis by (simp add: handle_connection_def connection_setup_def)
qed

theorem prefixed_signer_key_fails_witness:
  "\<exists>e. handle_connection (Ok ()) sample_connect
     (sample_config (replicate 40 CHR ''a'') (''0x'' @ replicate 64 CHR ''b'')) [ConnectFailed]
     = ([], Some (Err (CustomError e)))"
proof (rule prefixed_signer_key_fails)
  let ?c = "sample_config (replicate 40 CHR ''a'') (''0x'' @ replicate 64 CHR ''b'')"
  show "validate_config ?c = Ok ?c"
    by (simp add: validate_config_def sample_config_def validate_addr_def validate_key_def
        remove_0x_prefix_def starts_with_def list_all_iff is_ascii_hexdigit_def)
  show "starts_with ''0x'' (nc_signer_key (oc_node ?c))"
    by (simp add: sample_config_def starts_with_def)
qed (simp add: sample_connect_def)



end
