(* ===== verification/Eth_Signature.thy ===== *)
theory Eth_Signature
  imports Prelude
begin

text \<open>
  Ethereum signatures: \<open>crates/alloy-wrapper/src/signature.rs\<close> and the signing and recovery
  functions of \<open>crates/alloy-wrapper/src/util.rs\<close>. The RLP coding of the field types, the ECDSA
  package, the signer of \<open>alloy\<close> and Keccak-256 are parameters.
\<close>

section \<open>Signatures\<close>

record eth_signature =
  es_r :: u256
  es_s :: u256
  odd_y_parity :: bool

definition SECP256K1N_HALF :: u256 where
  "SECP256K1N_HALF = 0x7FFFFFFFFFFFFFFFFFFFFFFFFFFFFFFF5D576E7357A4501DDFE92F46681B20A0"

definition bool_u64 :: "bool \<Rightarrow> u64" where
  "bool_u64 p = (if p then 1 else 0)"

definition v_value :: "profile \<Rightarrow> eth_signature \<Rightarrow> u64 option \<Rightarrow> (u64, string) outcome" where
  "v_value b sig chain =
     (case chain of
        Some chain_id \<Rightarrow>
          and_then (mul_op b chain_id 2) (\<lambda>c.
          and_then (add_op b (bool_u64 (odd_y_parity sig)) c) (\<lambda>x. add_op b x 35))
      | None \<Rightarrow> add_op b (bool_u64 (odd_y_parity sig)) 27)"

definition extract_chain_id :: "u64 \<Rightarrow> (bool \<times> u64 option, string) outcome" where
  "extract_chain_id v =
     (if v < 35 then
        (if v \<noteq> 27 \<and> v \<noteq> 28 then Err ''invalid Ethereum signature (V is not 27 or 28)''
         else Ok (v = 28, None))
      else Ok ((v - 35) mod 2 \<noteq> 0, Some (drop_bit 1 (v - 35))))"

section \<open>Bytes\<close>

definition be_bytes :: "u256 \<Rightarrow> bytes" where
  "be_bytes x = rev (le_bytes 32 (unat x))"

definition from_be_slice :: "bytes \<Rightarrow> u256" where
  "from_be_slice bs = of_nat (le_val (rev bs))"

definition signature_to_bytes :: "eth_signature \<Rightarrow> bytes" where
  "signature_to_bytes sig =
     be_bytes (es_r sig) @ be_bytes (es_s sig) @ [(if odd_y_parity sig then 1 else 0) + 27]"

text \<open>\<open>hex_decode\<close> is the decoder of the package \<open>hex\<close>.\<close>

definition from_hex_str ::
  "profile \<Rightarrow> (string \<Rightarrow> bytes option) \<Rightarrow> string \<Rightarrow> (eth_signature, string) outcome" where
  "from_hex_str b hex_decode sig_hex =
     and_then (unwrap_option ''hex decode error'' (hex_decode sig_hex)) (\<lambda>sig_bytes.
     if length sig_bytes \<le> 64 then Panic ''index out of bounds''
     else
       and_then
         (if sig_bytes ! 64 > 1 then and_then (sub_op b (sig_bytes ! 64) 27) (\<lambda>d. Ok (d = 1))
          else Ok (sig_bytes ! 64 = 1))
         (\<lambda>odd.
            Ok \<lparr>es_r = from_be_slice (take 32 sig_bytes),
                es_s = from_be_slice (take 32 (drop 32 sig_bytes)), odd_y_parity = odd\<rparr>))"

section \<open>RLP\<close>

record rlp =
  enc_u64 :: "u64 \<Rightarrow> bytes"
  enc_u256 :: "u256 \<Rightarrow> bytes"
  enc_bool :: "bool \<Rightarrow> bytes"
  dec_u64 :: "bytes \<Rightarrow> (u64 \<times> bytes, string) outcome"
  dec_u256 :: "bytes \<Rightarrow> (u256 \<times> bytes, string) outcome"
  dec_bool :: "bytes \<Rightarrow> (bool \<times> bytes, string) outcome"

definition encode_with_eip155_chain_id ::
  "profile \<Rightarrow> rlp \<Rightarrow> eth_signature \<Rightarrow> u64 option \<Rightarrow> (bytes, string) outcome" where
  "encode_with_eip155_chain_id b E sig chain =
     and_then (v_value b sig chain) (\<lambda>v.
       Ok (enc_u64 E v @ enc_u256 E (es_r sig) @ enc_u256 E (es_s sig)))"

text \<open>\<open>length()\<close> of a value is documented to be the length of its encoding.\<close>

definition payload_len_with_eip155_chain_id ::
  "profile \<Rightarrow> rlp \<Rightarrow> eth_signature \<Rightarrow> u64 option \<Rightarrow> (nat, string) outcome" where
  "payload_len_with_eip155_chain_id b E sig chain =
     and_then (v_value b sig chain) (\<lambda>v.
       Ok (length (enc_u64 E v) + length (enc_u256 E (es_r sig)) + length (enc_u256 E (es_s sig))))"

definition decode_with_eip155_chain_id ::
  "rlp \<Rightarrow> bytes \<Rightarrow> ((eth_signature \<times> u64 option) \<times> bytes, string) outcome" where
  "decode_with_eip155_chain_id E buf =
     and_then (dec_u64 E buf) (\<lambda>(v, buf1).
     and_then (dec_u256 E buf1) (\<lambda>(r, buf2).
     and_then (dec_u256 E buf2) (\<lambda>(s, buf3).
     and_then (extract_chain_id v) (\<lambda>(odd, chain_id).
       Ok ((\<lparr>es_r = r, es_s = s, odd_y_parity = odd\<rparr>, chain_id), buf3)))))"

definition payload_len :: "rlp \<Rightarrow> eth_signature \<Rightarrow> nat" where
  "payload_len E sig =
     length (enc_bool E (odd_y_parity sig)) + length (enc_u256 E (es_r sig)) + length (enc_u256 E (es_s sig))"

definition signature_encode :: "rlp \<Rightarrow> eth_signature \<Rightarrow> bytes" where
  "signature_encode E sig =
     enc_bool E (odd_y_parity sig) @ enc_u256 E (es_r sig) @ enc_u256 E (es_s sig)"

definition signature_decode :: "rlp \<Rightarrow> bytes \<Rightarrow> (eth_signature \<times> bytes, string) outcome" where
  "signature_decode E buf =
     and_then (dec_bool E buf) (\<lambda>(odd, buf1).
     and_then (dec_u256 E buf1) (\<lambda>(r, buf2).
     and_then (dec_u256 E buf2) (\<lambda>(s, buf3).
       Ok (\<lparr>es_r = r, es_s = s, odd_y_parity = odd\<rparr>, buf3))))"

section \<open>Signing and recovery\<close>

record ('sk, 'pk, 'sg) ecdsa =
  secret_from_slice :: "bytes \<Rightarrow> ('sk, string) outcome"
  public_of_secret :: "'sk \<Rightarrow> 'pk"
  recovery_id_from_i32 :: "int \<Rightarrow> (int, string) outcome"
  recoverable_from_compact :: "bytes \<Rightarrow> int \<Rightarrow> ('sg, string) outcome"
  recoverable_to_compact :: "'sg \<Rightarrow> int \<times> bytes"
  sign_recoverable :: "bytes \<Rightarrow> 'sk \<Rightarrow> 'sg"
  recover_public :: "bytes \<Rightarrow> 'sg \<Rightarrow> ('pk, string) outcome"
  serialize_uncompressed :: "'pk \<Rightarrow> bytes"
  keccak :: "bytes \<Rightarrow> bytes"

definition public_key_to_address :: "('sk, 'pk, 'sg) ecdsa \<Rightarrow> 'pk \<Rightarrow> bytes" where
  "public_key_to_address K public = drop 12 (keccak K (drop 1 (serialize_uncompressed K public)))"

definition recover_unchecked_bytes ::
  "('sk, 'pk, 'sg) ecdsa \<Rightarrow> bytes \<Rightarrow> bytes \<Rightarrow> (bytes, string) outcome" where
  "recover_unchecked_bytes K sig msg =
     and_then (recovery_id_from_i32 K (uint (sig ! 64))) (\<lambda>rid.
     and_then (recoverable_from_compact K (take 64 sig) rid) (\<lambda>sg.
     and_then (recover_public K msg sg) (\<lambda>public. Ok (public_key_to_address K public))))"

text \<open>\<open>.ok()\<close> turns an error into \<open>None\<close>; the parameters do not panic.\<close>

fun ok_option :: "('a, 'e) outcome \<Rightarrow> 'a option" where
  "ok_option (Ok x) = Some x"
| "ok_option (Err e) = None"
| "ok_option (Panic m) = None"

definition recover_signer_unchecked ::
  "('sk, 'pk, 'sg) ecdsa \<Rightarrow> eth_signature \<Rightarrow> bytes \<Rightarrow> bytes option" where
  "recover_signer_unchecked K sig hash =
     ok_option (recover_unchecked_bytes K
       (be_bytes (es_r sig) @ be_bytes (es_s sig) @ [if odd_y_parity sig then 1 else 0]) hash)"

definition recover_signer ::
  "('sk, 'pk, 'sg) ecdsa \<Rightarrow> eth_signature \<Rightarrow> bytes \<Rightarrow> bytes option" where
  "recover_signer K sig hash =
     (if es_s sig > SECP256K1N_HALF then None else recover_signer_unchecked K sig hash)"

definition eth_sign_message ::
  "('sk, 'pk, 'sg) ecdsa \<Rightarrow> bytes \<Rightarrow> bytes \<Rightarrow> (eth_signature, string) outcome" where
  "eth_sign_message K secret message =
     and_then (secret_from_slice K secret) (\<lambda>sec.
       let s = sign_recoverable K message sec;
           (rec_id, data) = recoverable_to_compact K s
       in Ok \<lparr>es_r = from_be_slice (take 32 data), es_s = from_be_slice (take 32 (drop 32 data)),
              odd_y_parity = (rec_id \<noteq> 0)\<rparr>)"

text \<open>\<open>to_hex_bytes\<close> is \<open>to_bytes\<close> in another type; the signature of deposits in the feature
  \<open>optimism\<close> is zero.\<close>

definition to_hex_bytes :: "eth_signature \<Rightarrow> bytes" where
  "to_hex_bytes sig = signature_to_bytes sig"

definition optimism_deposit_tx_signature :: eth_signature where
  "optimism_deposit_tx_signature = \<lparr>es_r = 0, es_s = 0, odd_y_parity = False\<rparr>"

text \<open>The secret key is drawn by the package; \<open>to_secret_bytes\<close> and \<open>serialize_compressed\<close> are its
  conversions.\<close>

definition generate_eth_account ::
  "('sk, 'pk, 'sg) ecdsa \<Rightarrow> ('sk \<Rightarrow> bytes) \<Rightarrow> ('pk \<Rightarrow> bytes) \<Rightarrow> 'sk \<Rightarrow> bytes \<times> string \<times> string" where
  "generate_eth_account K to_secret_bytes serialize_compressed sk =
     (to_secret_bytes sk, hex_lower (serialize_compressed (public_of_secret K sk)),
      ''0x'' @ hex_lower (public_key_to_address K (public_of_secret K sk)))"

record ('signer, 'asg) alloy_api =
  alloy_from_bytes :: "bytes \<Rightarrow> ('signer, string) outcome"
  with_chain_id :: "'signer \<Rightarrow> u64 option \<Rightarrow> 'signer"
  sign_message_sync :: "'signer \<Rightarrow> bytes \<Rightarrow> ('asg, string) outcome"
  signer_address :: "'signer \<Rightarrow> bytes"
  address_to_string :: "bytes \<Rightarrow> string"
  alloy_signature_from_str :: "string \<Rightarrow> ('asg, string) outcome"
  recover_address_from_msg :: "'asg \<Rightarrow> bytes \<Rightarrow> (bytes, string) outcome"

definition sign_message_with_chainid ::
  "('signer, 'asg) alloy_api \<Rightarrow> bytes \<Rightarrow> string \<Rightarrow> u64 \<Rightarrow> ('asg \<times> string, string) outcome" where
  "sign_message_with_chainid L secret raw_message chain_id =
     and_then (map_err (\<lambda>_. ''InvalidSecretKey'') (alloy_from_bytes L secret)) (\<lambda>signer0.
     let signer = with_chain_id L signer0 (Some chain_id)
     in and_then (sign_message_sync L signer (string_bytes raw_message)) (\<lambda>sig.
          Ok (sig, address_to_string L (signer_address L signer))))"

definition recover_signer_alloy ::
  "('signer, 'asg) alloy_api \<Rightarrow> string \<Rightarrow> string \<Rightarrow> (bytes, string) outcome" where
  "recover_signer_alloy L sig raw_msg =
     and_then (alloy_signature_from_str L sig) (\<lambda>s. recover_address_from_msg L s (string_bytes raw_msg))"

section \<open>Lemmas\<close>

lemma length_be_bytes [simp]: "length (be_bytes x) = 32"
  by (simp add: be_bytes_def)

lemma from_be_bytes [simp]: "from_be_slice (be_bytes x) = x"
proof -
  have "unat x < 2 ^ 256" using unsigned_less [of x] by simp
  then have "unat x mod 256 ^ 32 = unat x" by simp
  then show ?thesis by (simp only: from_be_slice_def be_bytes_def rev_rev_ident le_val_le_bytes of_nat_unat) simp
qed

lemma be_from_bytes: "length bs = 32 \<Longrightarrow> be_bytes (from_be_slice bs) = bs"
  using le_val_bound [of "rev bs"] le_bytes_le_val [of "rev bs"]
  by (simp add: be_bytes_def from_be_slice_def unat_of_nat)

lemma add_op_value:
  "add_op b x y = Ok z \<Longrightarrow> b = Debug \<or> unat x + unat y < 2 ^ LENGTH('w)
    \<Longrightarrow> unat z = unat x + unat (y :: 'w::len word)"
  by (auto simp: add_op_def unat_add_no_overflow split: if_splits)

lemma mul_op_value:
  "mul_op b x y = Ok z \<Longrightarrow> b = Debug \<or> unat x * unat y < 2 ^ LENGTH('w)
    \<Longrightarrow> unat z = unat x * unat (y :: 'w::len word)"
  by (auto simp: mul_op_def unat_word_ariths split: if_splits)

lemma unat_bool_u64 [simp]: "unat (bool_u64 p) = (if p then 1 else 0)"
  by (simp add: bool_u64_def)

lemma v_value_chain:
  assumes v: "v_value b sig (Some c) = Ok v" and fits: "b = Debug \<or> 2 * unat c + 36 < 2 ^ 64"
  shows "unat v = (if odd_y_parity sig then 1 else 0) + 2 * unat c + 35"
proof -
  obtain m s where m: "mul_op b c 2 = (Ok m :: (u64, string) outcome)"
    and s: "add_op b (bool_u64 (odd_y_parity sig)) m = (Ok s :: (u64, string) outcome)"
    and z: "add_op b s 35 = (Ok v :: (u64, string) outcome)"
    using v by (auto simp: v_value_def outcome_simps)
  have m': "unat m = unat c * 2" using mul_op_value [OF m] fits by auto
  have s': "unat s = (if odd_y_parity sig then 1 else 0) + unat c * 2"
    using add_op_value [OF s] fits m' by auto
  show ?thesis using add_op_value [OF z] fits s' by auto
qed

lemma v_value_no_chain:
  assumes "v_value b sig None = Ok v"
  shows "v = (if odd_y_parity sig then 28 else 27)"
  using assms by (auto simp: v_value_def add_op_def bool_u64_def split: if_splits)

text \<open>The \<open>v\<close> value fits into 64 bits: always so in a \<open>Debug\<close> build that returns it.\<close>

definition chain_fits :: "profile \<Rightarrow> u64 option \<Rightarrow> bool" where
  "chain_fits b chain \<longleftrightarrow> b = Debug \<or> (case chain of None \<Rightarrow> True | Some c \<Rightarrow> 2 * unat c + 36 < 2 ^ 64)"

lemma extract_v_value:
  assumes v: "v_value b sig chain = Ok v" and fits: "chain_fits b chain"
  shows "extract_chain_id v = Ok (odd_y_parity sig, chain)"
proof (cases chain)
  case None
  then show ?thesis using v_value_no_chain [of b sig v] v by (auto simp: extract_chain_id_def)
next
  case (Some c)
  have n: "unat v = (if odd_y_parity sig then 1 else 0) + 2 * unat c + 35"
    using v_value_chain [of b sig c v] v fits Some by (simp add: chain_fits_def)
  have ge: "35 \<le> v" using n by (simp add: word_le_nat_alt)
  then have d: "unat (v - 35) = (if odd_y_parity sig then 1 else 0) + 2 * unat c"
    using n by (simp add: unat_sub)
  have p: "unat ((v - 35) mod 2) = (if odd_y_parity sig then 1 else 0)"
    using d by (simp add: unat_mod)
  have m: "(v - 35) mod 2 \<noteq> 0 \<longleftrightarrow> odd_y_parity sig"
    unfolding unat_eq_zero [symmetric] p by simp
  have "unat (drop_bit 1 (v - 35)) = unat c"
    using d by (simp add: unat_drop_bit_eq drop_bit_Suc unat_div)
  then have "drop_bit 1 (v - 35) = c" by (simp add: word_unat_eq_iff)
  with m ge Some show ?thesis by (simp add: extract_chain_id_def not_less)
qed

definition rlp_laws :: "rlp \<Rightarrow> bool" where
  "rlp_laws E \<longleftrightarrow>
     (\<forall>x rest. dec_u64 E (enc_u64 E x @ rest) = Ok (x, rest)) \<and>
     (\<forall>x rest. dec_u256 E (enc_u256 E x @ rest) = Ok (x, rest)) \<and>
     (\<forall>x rest. dec_bool E (enc_bool E x @ rest) = Ok (x, rest))"

text \<open>A fixed-width coding, to run the definitions on.\<close>

definition sample_rlp :: rlp where
  "sample_rlp =
     \<lparr>enc_u64 = (\<lambda>x. le_bytes 8 (unat x)),
      enc_u256 = (\<lambda>x. le_bytes 32 (unat x)),
      enc_bool = (\<lambda>x. [if x then 1 else 0]),
      dec_u64 = (\<lambda>bs. Ok (of_nat (le_val (take 8 bs)), drop 8 bs)),
      dec_u256 = (\<lambda>bs. Ok (of_nat (le_val (take 32 bs)), drop 32 bs)),
      dec_bool = (\<lambda>bs. Ok (hd bs = 1, tl bs))\<rparr>"

lemma of_le_val_le_bytes:
  "256 ^ n = (2::nat) ^ LENGTH('w) \<Longrightarrow> of_nat (le_val (le_bytes n (unat x))) = (x :: 'w::len word)"
  using unsigned_less [of x] by (simp add: le_val_le_bytes)

lemma sample_rlp_laws: "rlp_laws sample_rlp"
  using of_le_val_le_bytes [of 8, where ?'w = 64] of_le_val_le_bytes [of 32, where ?'w = 256]
  by (auto simp: rlp_laws_def sample_rlp_def)

section \<open>Coding\<close>

text \<open>C36. A signature encoded with a chain id (or without one) is decoded to the same signature
  and the same chain id, with the bytes that follow it untouched, and \<open>payload_len\<close> announced
  the exact number of bytes. The chain id has to be one whose \<open>v\<close> fits into 64 bits; a debug
  build panics on any other one, so it needs no such bound.\<close>

theorem decode_encode_with_chain_id:
  assumes rlp: "rlp_laws E" and enc: "encode_with_eip155_chain_id b E sig chain = Ok buf"
    and fits: "chain_fits b chain"
  shows "decode_with_eip155_chain_id E (buf @ rest) = Ok ((sig, chain), rest) \<and>
    payload_len_with_eip155_chain_id b E sig chain = Ok (length buf)"
proof -
  obtain v where v: "v_value b sig chain = Ok v"
    and buf: "buf = enc_u64 E v @ enc_u256 E (es_r sig) @ enc_u256 E (es_s sig)"
    using enc by (auto simp: encode_with_eip155_chain_id_def outcome_simps)
  show ?thesis
    using rlp extract_v_value [OF v fits]
    by (simp add: buf v decode_with_eip155_chain_id_def payload_len_with_eip155_chain_id_def rlp_laws_def)
qed

definition sample_signature :: eth_signature where
  "sample_signature = \<lparr>es_r = 5, es_s = 7, odd_y_parity = True\<rparr>"

theorem decode_encode_with_chain_id_witness:
  "\<exists>buf. encode_with_eip155_chain_id Debug sample_rlp sample_signature (Some 47) = Ok buf \<and>
     decode_with_eip155_chain_id sample_rlp (buf @ [9]) = Ok ((sample_signature, Some 47), [9])"
proof -
  let ?buf = "enc_u64 sample_rlp 130 @ enc_u256 sample_rlp 5 @ enc_u256 sample_rlp 7"
  have enc: "encode_with_eip155_chain_id Debug sample_rlp sample_signature (Some 47) = Ok ?buf"
    by (simp add: encode_with_eip155_chain_id_def v_value_def mul_op_def add_op_def bool_u64_def
        sample_signature_def)
  show ?thesis
    using enc decode_encode_with_chain_id [OF sample_rlp_laws enc, of "[9]"]
    by (auto simp: chain_fits_def)
qed

text \<open>In a release build a large chain id wraps around: the decoded chain id is another one.\<close>

lemma large_chain_id_wraps:
  "v_value Release sample_signature (Some (2 ^ 63)) = Ok 36 \<and>
   extract_chain_id 36 = Ok (True, Some 0)"
  by (simp add: v_value_def mul_op_def add_op_def bool_u64_def sample_signature_def
      extract_chain_id_def)

lemma signature_decode_encode:
  "rlp_laws E \<Longrightarrow> signature_decode E (signature_encode E sig @ rest) = Ok (sig, rest) \<and>
     length (signature_encode E sig) = payload_len E sig"
  by (simp add: signature_decode_def signature_encode_def payload_len_def rlp_laws_def)

text \<open>Reading the hexadecimal text of a signature's 65 bytes gives the signature back, whatever
  the build. For any other text that decodes to more than 64 bytes, a last byte of 0 or 1 is read
  as the parity itself and 27 or 28 as the parity plus 27; a last byte from 2 to 26 makes a debug
  build panic. Shorter texts and texts that are not hexadecimal panic in every build.\<close>

theorem from_hex_str_reads:
  "(hex_decode h = Some (signature_to_bytes sig) \<longrightarrow> from_hex_str b hex_decode h = Ok sig) \<and>
   ((case hex_decode h of None \<Rightarrow> True | Some bs \<Rightarrow> length bs \<le> 64) \<longrightarrow>
      is_panic (from_hex_str b hex_decode h)) \<and>
   (\<forall>bs. hex_decode h = Some bs \<and> 64 < length bs \<longrightarrow>
      (is_panic (from_hex_str b hex_decode h) \<longleftrightarrow> b = Debug \<and> 1 < bs ! 64 \<and> bs ! 64 < 27))"
proof (intro conjI)
  show "hex_decode h = Some (signature_to_bytes sig) \<longrightarrow> from_hex_str b hex_decode h = Ok sig"
    by (auto simp: from_hex_str_def signature_to_bytes_def nth_append sub_op_def)
  show "(case hex_decode h of None \<Rightarrow> True | Some bs \<Rightarrow> length bs \<le> 64) \<longrightarrow>
      is_panic (from_hex_str b hex_decode h)"
    by (auto simp: from_hex_str_def split: option.splits)
  show "\<forall>bs. hex_decode h = Some bs \<and> 64 < length bs \<longrightarrow>
      (is_panic (from_hex_str b hex_decode h) \<longleftrightarrow> b = Debug \<and> 1 < bs ! 64 \<and> bs ! 64 < 27)"
    by (auto simp: from_hex_str_def sub_op_def word_less_nat_alt)
qed

theorem from_hex_str_reads_witness:
  "from_hex_str Debug (\<lambda>h. Some (signature_to_bytes sample_signature)) ''00'' = Ok sample_signature \<and>
   is_panic (from_hex_str Debug (\<lambda>h. Some (replicate 65 2)) ''00'')"
  using from_hex_str_reads [of "\<lambda>h. Some (signature_to_bytes sample_signature)" "''00''" sample_signature Debug]
    from_hex_str_reads [of "\<lambda>h. Some (replicate 65 2)" "''00''" sample_signature Debug]
  by simp

section \<open>Signing, printing, reading and recovering\<close>

text \<open>
  What the documentation of the ECDSA package promises of the signature it makes for one digest
  with one key: the compact form has 64 bytes with a low \<open>s\<close>, it is read back from these bytes and
  the recovery id, and recovery gives the signer's public key. The last clause excludes the recovery
  ids 2 and 3, which a signature has only when the x coordinate of its random point is not below the
  order of the curve.
\<close>

definition ecdsa_signs :: "('sk, 'pk, 'sg) ecdsa \<Rightarrow> bytes \<Rightarrow> 'sk \<Rightarrow> bool" where
  "ecdsa_signs K msg sk \<longleftrightarrow>
     (let sg = sign_recoverable K msg sk; (rid, data) = recoverable_to_compact K sg
      in length data = 64 \<and> from_be_slice (drop 32 data) \<le> SECP256K1N_HALF \<and>
         recovery_id_from_i32 K rid = Ok rid \<and> recoverable_from_compact K data rid = Ok sg \<and>
         recover_public K msg sg = Ok (public_of_secret K sk) \<and> (rid = 0 \<or> rid = 1))"

lemma sign_recovers:
  assumes laws: "ecdsa_signs K msg sk" and key: "secret_from_slice K secret = Ok sk"
  shows "\<exists>sig. eth_sign_message K secret msg = Ok sig \<and>
    recover_signer K sig msg = Some (public_key_to_address K (public_of_secret K sk))"
proof -
  obtain rid data where c: "recoverable_to_compact K (sign_recoverable K msg sk) = (rid, data)"
    by fastforce
  define sig where "sig = \<lparr>es_r = from_be_slice (take 32 data),
    es_s = from_be_slice (take 32 (drop 32 data)), odd_y_parity = (rid \<noteq> 0)\<rparr>"
  have len: "length data = 64" and low: "es_s sig \<le> SECP256K1N_HALF" and rid: "rid = 0 \<or> rid = 1"
    using laws c by (auto simp: ecdsa_signs_def Let_def sig_def)
  have body: "be_bytes (es_r sig) @ be_bytes (es_s sig) = data"
    using len by (simp add: sig_def be_from_bytes)
  have "recover_signer_unchecked K sig msg = Some (public_key_to_address K (public_of_secret K sk))"
    unfolding recover_signer_unchecked_def append_assoc [symmetric] body
    using laws c rid len
    by (auto simp: sig_def recover_unchecked_bytes_def ecdsa_signs_def Let_def nth_append)
  with low have "recover_signer K sig msg = Some (public_key_to_address K (public_of_secret K sk))"
    by (simp add: recover_signer_def)
  moreover have "eth_sign_message K secret msg = Ok sig"
    by (simp add: eth_sign_message_def key c sig_def)
  ultimately show ?thesis by blast
qed

lemma from_hex_to_bytes:
  "hex_decode h = Some (signature_to_bytes sig) \<Longrightarrow> from_hex_str b hex_decode h = Ok sig"
  by (auto simp: from_hex_str_def signature_to_bytes_def nth_append sub_op_def)

text \<open>C35. An address survives the whole path of a signature: sign a digest, print the signature as
  65 bytes, read it back from their hexadecimal text, and recover the signer. The recovered address
  is the one of the secret key that signed.\<close>

theorem sign_print_recover:
  assumes laws: "ecdsa_signs K msg sk" and key: "secret_from_slice K secret = Ok sk"
    and hex: "\<And>bs. hex_decode (hex bs) = Some bs"
  shows "\<exists>sig. eth_sign_message K secret msg = Ok sig \<and>
    from_hex_str b hex_decode (hex (signature_to_bytes sig)) = Ok sig \<and>
    recover_signer K sig msg = Some (public_key_to_address K (public_of_secret K sk))"
  using sign_recovers [OF laws key] from_hex_to_bytes hex by metis

definition sample_ecdsa :: "(bytes, bytes, int \<times> bytes) ecdsa" where
  "sample_ecdsa =
     \<lparr>secret_from_slice = (\<lambda>bs. if length bs = 32 then Ok bs else Err ''InvalidSecretKey''),
      public_of_secret = (\<lambda>k. k),
      recovery_id_from_i32 = (\<lambda>i. if 0 \<le> i \<and> i < 4 then Ok i else Err ''InvalidRecoveryId''),
      recoverable_from_compact = (\<lambda>bs i. Ok (i, bs)),
      recoverable_to_compact = (\<lambda>sg. sg),
      sign_recoverable = (\<lambda>msg k. (1, k @ replicate 32 0)),
      recover_public = (\<lambda>msg sg. Ok (take 32 (snd sg))),
      serialize_uncompressed = (\<lambda>k. 4 # k),
      keccak = (\<lambda>bs. bs)\<rparr>"

theorem sign_print_recover_witness:
  "\<exists>sig. eth_sign_message sample_ecdsa (replicate 32 3) (replicate 32 5) = Ok sig \<and>
     recover_signer sample_ecdsa sig (replicate 32 5) = Some (replicate 20 3)"
proof -
  have zero: "from_be_slice (replicate 32 0) = 0" by code_simp
  have laws: "ecdsa_signs sample_ecdsa (replicate 32 5) (replicate 32 3)"
    using zero by (simp add: ecdsa_signs_def sample_ecdsa_def Let_def)
  have key: "secret_from_slice sample_ecdsa (replicate 32 3) = Ok (replicate 32 3)"
    by (simp add: sample_ecdsa_def)
  have hex: "(\<lambda>s. Some (map (\<lambda>c. of_nat (of_char c :: nat)) s :: bytes))
      ((\<lambda>bs. map (\<lambda>x. char_of (unat x)) bs) bs) = Some bs" for bs :: bytes
    by (simp add: comp_def)
  have addr: "public_key_to_address sample_ecdsa (public_of_secret sample_ecdsa (replicate 32 3))
      = replicate 20 3"
    by (simp add: public_key_to_address_def sample_ecdsa_def)
  show ?thesis
    using sign_print_recover [OF laws key, of _ _ Debug, OF hex] addr by auto
qed

section \<open>Accounts\<close>

text \<open>An account can use its own secret: what is signed with the generated secret is recovered to the
  generated address.\<close>

theorem generated_account_signs:
  assumes "generate_eth_account K to_secret_bytes serialize_compressed sk = (secret, public, address)"
    and "secret_from_slice K (to_secret_bytes sk) = Ok sk" "ecdsa_signs K msg sk"
  shows "\<exists>sig a. eth_sign_message K secret msg = Ok sig \<and> recover_signer K sig msg = Some a \<and>
    address = ''0x'' @ hex_lower a"
  using sign_recovers [OF assms(3,2)] assms(1) by (auto simp: generate_eth_account_def)

text \<open>Through the signer of \<open>alloy\<close>: when it prints, reads and recovers its signatures as it
  documents, the text of a signature is recovered to the address it was returned with, whatever the
  chain id.\<close>

theorem alloy_sign_recover:
  assumes "\<And>sg. alloy_signature_from_str L (print sg) = Ok sg"
    and "\<And>signer msg sg. sign_message_sync L signer msg = Ok sg \<Longrightarrow>
      recover_address_from_msg L sg msg = Ok (signer_address L signer)"
    and "sign_message_with_chainid L secret raw_message chain_id = Ok (sg, address)"
  shows "\<exists>a. recover_signer_alloy L (print sg) raw_message = Ok a \<and> address_to_string L a = address"
  using assms
  by (auto simp: sign_message_with_chainid_def recover_signer_alloy_def outcome_simps Let_def)

end
