(* ===== verification/Crypto_Core.thy ===== *)
theory Crypto_Core
  imports Ordinary_Clock
begin

text \<open>
  Digests and replica signatures: \<open>crates/common/src/crypto/core.rs\<close>. A message type derives
  \<open>Hash\<close>: what the derived code feeds to a hasher is a list of calls, the parameter
  \<open>hash_calls\<close>. SHA-256, \<open>secp256k1\<close>, \<open>schnorrkel\<close> and \<open>hex\<close> are parameters. A schnorrkel
  signature draws randomness, which is an argument here.
\<close>

section \<open>\<open>DigestHasher\<close>\<close>

text \<open>The calls of the trait \<open>Hasher\<close> that \<open>ImplHasher\<close> defines. A signed integer is given by
  its bit pattern; \<open>usize\<close> has 64 bits.\<close>

datatype hasher_call =
    Write bytes | Write_u16 u16 | Write_u32 u32 | Write_u64 u64 | Write_usize u64
  | Write_i16 u16 | Write_i32 u32 | Write_i64 u64 | Write_isize u64

definition to_le_bytes :: "nat \<Rightarrow> 'w::len word \<Rightarrow> bytes" where
  "to_le_bytes k x = le_bytes k (unat x)"

fun impl_hasher :: "hasher_call \<Rightarrow> bytes" where
  "impl_hasher (Write bs) = bs"
| "impl_hasher (Write_u16 i) = to_le_bytes 2 i"
| "impl_hasher (Write_u32 i) = to_le_bytes 4 i"
| "impl_hasher (Write_u64 i) = to_le_bytes 8 i"
| "impl_hasher (Write_usize i) = to_le_bytes 8 i"
| "impl_hasher (Write_i16 i) = to_le_bytes 2 i"
| "impl_hasher (Write_i32 i) = to_le_bytes 4 i"
| "impl_hasher (Write_i64 i) = to_le_bytes 8 i"
| "impl_hasher (Write_isize i) = to_le_bytes 8 i"

text \<open>\<open>DigestHash::hash\<close>: the bytes that reach the digest.\<close>

definition digest_hash :: "('m \<Rightarrow> hasher_call list) \<Rightarrow> 'm \<Rightarrow> bytes" where
  "digest_hash hash_calls message = concat (map impl_hasher (hash_calls message))"

section \<open>Packages\<close>

record ('sk, 'pk, 'sg) secp_api =
  secp_from_slice :: "bytes \<Rightarrow> ('sk, string) outcome"
  secp_public_key :: "'sk \<Rightarrow> 'pk"
  secp_sign_ecdsa :: "bytes \<Rightarrow> 'sk \<Rightarrow> 'sg"
  secp_verify_ecdsa :: "bytes \<Rightarrow> 'sg \<Rightarrow> 'pk \<Rightarrow> (unit, string) outcome"
  secret_bytes :: "'sk \<Rightarrow> bytes"
  serialize_public :: "'pk \<Rightarrow> bytes"

record ('kp, 'spk, 'ssg) schnorrkel_api =
  mini_secret_expand :: "bytes \<Rightarrow> ('kp, string) outcome"
  keypair_public :: "'kp \<Rightarrow> 'spk"
  context_hash256 :: "string \<Rightarrow> bytes \<Rightarrow> bytes"
  keypair_sign :: "bytes \<Rightarrow> 'kp \<Rightarrow> bytes \<Rightarrow> 'ssg"
  schnorrkel_verify :: "'spk \<Rightarrow> bytes \<Rightarrow> 'ssg \<Rightarrow> (unit, string) outcome"
  schnorrkel_verify_batch :: "bytes list \<Rightarrow> 'ssg list \<Rightarrow> 'spk list \<Rightarrow> (unit, string) outcome"

record ('m, 'sk, 'pk, 'sg, 'kp, 'spk, 'ssg) crypto_api =
  hash_calls :: "'m \<Rightarrow> hasher_call list"
  sha256_digest :: "bytes \<Rightarrow> bytes"
  blake2_digest :: "bytes \<Rightarrow> bytes"
  hex_text :: "bytes \<Rightarrow> string"
  secp :: "('sk, 'pk, 'sg) secp_api"
  schnorrkel :: "('kp, 'spk, 'ssg) schnorrkel_api"

definition sha256_of :: "('m, 'sk, 'pk, 'sg, 'kp, 'spk, 'ssg) crypto_api \<Rightarrow> 'm \<Rightarrow> bytes" where
  "sha256_of A message = sha256_digest A (digest_hash (hash_calls A) message)"

definition blake2_of :: "('m, 'sk, 'pk, 'sg, 'kp, 'spk, 'ssg) crypto_api \<Rightarrow> 'm \<Rightarrow> bytes" where
  "blake2_of A message = blake2_digest A (digest_hash (hash_calls A) message)"

section \<open>Keys, providers and signatures\<close>

datatype ('sg, 'ssg) replica_signature = SigPlain string | SigSecp256k1 'sg | SigSchnorrkel 'ssg

record ('m, 'sg, 'ssg) verifiable =
  inner :: 'm
  signature :: "('sg, 'ssg) replica_signature"

datatype crypto_flavor = FlavorPlain | FlavorSecp256k1 | FlavorSchnorrkel

text \<open>The provider of \<open>Schnorrkel\<close> is a \<open>peer::Crypto\<close>: a key pair and a signing context.\<close>

datatype ('sk, 'kp) crypto_provider =
    Insecure string | ProviderSecp256k1 'sk | ProviderSchnorrkel 'kp string

datatype ('pk, 'spk) replica_key = KeyPlain string | KeySecp256k1 'pk | KeySchnorrkel 'spk

record ('sk, 'kp, 'pk, 'spk) crypto =
  provider :: "('sk, 'kp) crypto_provider"
  public_keys :: "('pk, 'spk) replica_key list"

section \<open>Construction\<close>

text \<open>\<open>copy_from_slice\<close> into an array of 32 bytes: the name of a replica has at most 28.\<close>

definition replica_secret :: "nat \<Rightarrow> (bytes, string) outcome" where
  "replica_secret rid =
     (let k1 = string_bytes (''replica-'' @ nat_to_string rid)
      in if length k1 \<le> 32 then Ok (k1 @ replicate (32 - length k1) 0)
         else Panic ''range end index out of range'')"

text \<open>\<open>{:03}\<close>\<close>

definition pad3 :: "nat \<Rightarrow> string" where
  "pad3 n = (let s = nat_to_string n in replicate (3 - length s) (CHR ''0'') @ s)"

definition plain_name :: "nat \<Rightarrow> string" where
  "plain_name i = ''replica-'' @ pad3 i"

definition new_hardcoded ::
  "('m, 'sk, 'pk, 'sg, 'kp, 'spk, 'ssg) crypto_api \<Rightarrow> nat \<Rightarrow> nat \<Rightarrow> crypto_flavor \<Rightarrow>
   (('sk, 'kp, 'pk, 'spk) crypto, string) outcome" where
  "new_hardcoded A n index flavor =
     (case flavor of
        FlavorPlain \<Rightarrow>
          Ok \<lparr>provider = Insecure (plain_name index), public_keys = map (\<lambda>i. KeyPlain (plain_name i)) [0..<n]\<rparr>
      | FlavorSecp256k1 \<Rightarrow>
          and_then (traverse (\<lambda>i. and_then (replica_secret i) (secp_from_slice (secp A))) [0..<n])
            (\<lambda>secret_keys.
               if index < length secret_keys then
                 Ok \<lparr>provider = ProviderSecp256k1 (secret_keys ! index),
                     public_keys = map (\<lambda>k. KeySecp256k1 (secp_public_key (secp A) k)) secret_keys\<rparr>
               else Panic ''index out of bounds'')
      | FlavorSchnorrkel \<Rightarrow>
          and_then (traverse (\<lambda>i. and_then (replica_secret i) (mini_secret_expand (schnorrkel A))) [0..<n])
            (\<lambda>secret_keys.
               if index < length secret_keys then
                 Ok \<lparr>provider = ProviderSchnorrkel (secret_keys ! index) ''default'',
                     public_keys = map (\<lambda>k. KeySchnorrkel (keypair_public (schnorrkel A) k)) secret_keys\<rparr>
               else Panic ''removal index should be < len''))"

text \<open>\<open>{:?}\<close> of a \<open>Vec<u8>\<close>\<close>

fun debug_items :: "bytes \<Rightarrow> string" where
  "debug_items [] = []"
| "debug_items [b] = nat_to_string (unat b)"
| "debug_items (b # bs) = nat_to_string (unat b) @ '', '' @ debug_items bs"

definition debug_bytes :: "bytes \<Rightarrow> string" where
  "debug_bytes bs = ''['' @ debug_items bs @ '']''"

text \<open>The random values drawn are arguments: 32 bytes, or the secret of the flavor.\<close>

definition new_random ::
  "('m, 'sk, 'pk, 'sg, 'kp, 'spk, 'ssg) crypto_api \<Rightarrow> bytes \<Rightarrow> 'sk \<Rightarrow> 'kp \<Rightarrow> crypto_flavor \<Rightarrow>
   (('sk, 'kp, 'pk, 'spk) crypto, string) outcome" where
  "new_random A secret_key sk keypair flavor =
     (case flavor of
        FlavorPlain \<Rightarrow>
          Ok \<lparr>provider = Insecure (debug_bytes secret_key), public_keys = [KeyPlain (hex_lower secret_key)]\<rparr>
      | FlavorSecp256k1 \<Rightarrow>
          Ok \<lparr>provider = ProviderSecp256k1 sk, public_keys = [KeySecp256k1 (secp_public_key (secp A) sk)]\<rparr>
      | FlavorSchnorrkel \<Rightarrow>
          Ok \<lparr>provider = ProviderSchnorrkel keypair ''default'',
              public_keys = [KeySchnorrkel (keypair_public (schnorrkel A) keypair)]\<rparr>)"

definition to_hex ::
  "('m, 'sk, 'pk, 'sg, 'kp, 'spk, 'ssg) crypto_api \<Rightarrow> ('sk, 'kp, 'pk, 'spk) crypto \<Rightarrow>
   (string \<times> string) option" where
  "to_hex A c =
     (case provider c of
        ProviderSecp256k1 sk \<Rightarrow>
          Some (hex_text A (secret_bytes (secp A) sk),
                hex_text A (serialize_public (secp A) (secp_public_key (secp A) sk)))
      | Insecure s \<Rightarrow> None
      | ProviderSchnorrkel kp ctx \<Rightarrow> None)"

section \<open>\<open>peer::Crypto\<close>\<close>

definition peer_sign ::
  "('m, 'sk, 'pk, 'sg, 'kp, 'spk, 'ssg) crypto_api \<Rightarrow> bytes \<Rightarrow> 'kp \<Rightarrow> string \<Rightarrow> 'm \<Rightarrow> 'ssg" where
  "peer_sign A rnd keypair ctx message =
     keypair_sign (schnorrkel A) rnd keypair (context_hash256 (schnorrkel A) ctx (sha256_of A message))"

definition verify_internal ::
  "('m, 'sk, 'pk, 'sg, 'kp, 'spk, 'ssg) crypto_api \<Rightarrow> string \<Rightarrow> 'spk \<Rightarrow> 'm \<Rightarrow> 'ssg \<Rightarrow>
   (unit, string) outcome" where
  "verify_internal A ctx key message sig =
     schnorrkel_verify (schnorrkel A) key (context_hash256 (schnorrkel A) ctx (sha256_of A message)) sig"

text \<open>A peer is a key pair with its context; \<open>new_random\<close> gets the key pair that was drawn.\<close>

definition peer_new_random :: "'kp \<Rightarrow> 'kp \<times> string" where
  "peer_new_random keypair = (keypair, ''default'')"

definition peer_public_key ::
  "('m, 'sk, 'pk, 'sg, 'kp, 'spk, 'ssg) crypto_api \<Rightarrow> 'kp \<times> string \<Rightarrow> 'spk" where
  "peer_public_key A c = keypair_public (schnorrkel A) (fst c)"

definition peer_verify ::
  "('m, 'sk, 'pk, 'sg, 'kp, 'spk, 'ssg) crypto_api \<Rightarrow> 'kp \<times> string \<Rightarrow> 'spk \<Rightarrow> 'm \<times> 'ssg \<Rightarrow>
   (unit, string) outcome" where
  "peer_verify A c key v = verify_internal A (snd c) key (fst v) (snd v)"

text \<open>\<open>Ord\<close> for arrays of bytes, and for the signatures of peers by their bytes.\<close>

fun compare_bytes :: "bytes \<Rightarrow> bytes \<Rightarrow> ordering" where
  "compare_bytes [] [] = Equal"
| "compare_bytes [] (y # ys) = Less"
| "compare_bytes (x # xs) [] = Greater"
| "compare_bytes (x # xs) (y # ys) =
     (if x < y then Less else if y < x then Greater else compare_bytes xs ys)"

definition signature_cmp :: "('ssg \<Rightarrow> bytes) \<Rightarrow> 'ssg \<Rightarrow> 'ssg \<Rightarrow> ordering" where
  "signature_cmp to_bytes a b = compare_bytes (to_bytes a) (to_bytes b)"

definition signature_partial_cmp :: "('ssg \<Rightarrow> bytes) \<Rightarrow> 'ssg \<Rightarrow> 'ssg \<Rightarrow> ordering option" where
  "signature_partial_cmp to_bytes a b = Some (signature_cmp to_bytes a b)"

text \<open>\<open>peer::Crypto::verify_batch\<close> takes all the keys and all the signed messages.\<close>

definition peer_verify_batch ::
  "('m, 'sk, 'pk, 'sg, 'kp, 'spk, 'ssg) crypto_api \<Rightarrow> string \<Rightarrow> 'spk list \<Rightarrow> ('m \<times> 'ssg) list \<Rightarrow>
   (unit, string) outcome" where
  "peer_verify_batch A ctx keys msgs =
     schnorrkel_verify_batch (schnorrkel A)
       (map (\<lambda>(m, sg). context_hash256 (schnorrkel A) ctx (sha256_of A m)) msgs) (map snd msgs) keys"

section \<open>\<open>Crypto\<close>\<close>

definition crypto_sign ::
  "('m, 'sk, 'pk, 'sg, 'kp, 'spk, 'ssg) crypto_api \<Rightarrow> bytes \<Rightarrow> ('sk, 'kp, 'pk, 'spk) crypto \<Rightarrow> 'm \<Rightarrow>
   ('m, 'sg, 'ssg) verifiable" where
  "crypto_sign A rnd c message =
     (case provider c of
        Insecure s \<Rightarrow> \<lparr>inner = message, signature = SigPlain s\<rparr>
      | ProviderSecp256k1 sk \<Rightarrow>
          \<lparr>inner = message, signature = SigSecp256k1 (secp_sign_ecdsa (secp A) (sha256_of A message) sk)\<rparr>
      | ProviderSchnorrkel kp ctx \<Rightarrow>
          \<lparr>inner = message, signature = SigSchnorrkel (peer_sign A rnd kp ctx message)\<rparr>)"

definition crypto_verify ::
  "('m, 'sk, 'pk, 'sg, 'kp, 'spk, 'ssg) crypto_api \<Rightarrow> ('sk, 'kp, 'pk, 'spk) crypto \<Rightarrow> nat \<Rightarrow>
   ('m, 'sg, 'ssg) verifiable \<Rightarrow> (unit, string) outcome" where
  "crypto_verify A c index v =
     (if index < length (public_keys c) then
        (case (provider c, public_keys c ! index, signature v) of
           (Insecure s, KeyPlain expected, SigPlain sig) \<Rightarrow>
             (if sig = expected then Ok () else Err ''Condition failed: signature == expected_signature'')
         | (ProviderSecp256k1 sk, KeySecp256k1 pk, SigSecp256k1 sig) \<Rightarrow>
             secp_verify_ecdsa (secp A) (sha256_of A (inner v)) sig pk
         | (ProviderSchnorrkel kp ctx, KeySchnorrkel pk, SigSchnorrkel sig) \<Rightarrow>
             verify_internal A ctx pk (inner v) sig
         | _ \<Rightarrow> Err ''unimplemented'')
      else Err ''no identifier for index'')"

text \<open>One round of the loop of \<open>verify_batch\<close>: the transcript, signature and key it pushes.\<close>

definition batch_item ::
  "('m, 'sk, 'pk, 'sg, 'kp, 'spk, 'ssg) crypto_api \<Rightarrow> ('sk, 'kp, 'pk, 'spk) crypto \<Rightarrow> string \<Rightarrow>
   nat \<times> ('m, 'sg, 'ssg) verifiable \<Rightarrow> (bytes \<times> 'ssg \<times> 'spk, string) outcome" where
  "batch_item A c ctx p =
     (case p of (index, v) \<Rightarrow>
        if index < length (public_keys c) then
          (case (public_keys c ! index, signature v) of
             (KeySchnorrkel pk, SigSchnorrkel sg) \<Rightarrow>
               Ok (context_hash256 (schnorrkel A) ctx (sha256_of A (inner v)), sg, pk)
           | _ \<Rightarrow> Err ''unimplemented'')
        else Panic ''index out of bounds'')"

definition crypto_verify_batch ::
  "('m, 'sk, 'pk, 'sg, 'kp, 'spk, 'ssg) crypto_api \<Rightarrow> ('sk, 'kp, 'pk, 'spk) crypto \<Rightarrow> nat list \<Rightarrow>
   ('m, 'sg, 'ssg) verifiable list \<Rightarrow> (unit, string) outcome" where
  "crypto_verify_batch A c indexes msgs =
     (case provider c of
        ProviderSchnorrkel kp ctx \<Rightarrow>
          and_then (traverse (batch_item A c ctx) (zip indexes msgs)) (\<lambda>items.
            schnorrkel_verify_batch (schnorrkel A) (map fst items) (map (fst \<circ> snd) items)
              (map (snd \<circ> snd) items))
      | _ \<Rightarrow> Err ''unimplemented'')"

section \<open>What the packages document\<close>

definition crypto_laws :: "('m, 'sk, 'pk, 'sg, 'kp, 'spk, 'ssg) crypto_api \<Rightarrow> bool" where
  "crypto_laws A \<longleftrightarrow>
     (\<forall>d sk. secp_verify_ecdsa (secp A) d (secp_sign_ecdsa (secp A) d sk) (secp_public_key (secp A) sk) = Ok ()) \<and>
     (\<forall>t rnd kp. schnorrkel_verify (schnorrkel A) (keypair_public (schnorrkel A) kp) t
        (keypair_sign (schnorrkel A) rnd kp t) = Ok ())"

text \<open>Batch verification accepts lists of one length whose members verify one by one.\<close>

definition batch_law :: "('m, 'sk, 'pk, 'sg, 'kp, 'spk, 'ssg) crypto_api \<Rightarrow> bool" where
  "batch_law A \<longleftrightarrow>
     (\<forall>items. (\<forall>(t, sg, pk) \<in> set items. schnorrkel_verify (schnorrkel A) pk t sg = Ok ()) \<longrightarrow>
        schnorrkel_verify_batch (schnorrkel A) (map fst items) (map (fst \<circ> snd) items)
          (map (snd \<circ> snd) items) = Ok ())"

section \<open>Lemmas\<close>

lemma impl_hasher_length:
  "length (impl_hasher c) =
     (case c of Write bs \<Rightarrow> length bs | Write_u16 i \<Rightarrow> 2 | Write_i16 i \<Rightarrow> 2 | Write_u32 i \<Rightarrow> 4
      | Write_i32 i \<Rightarrow> 4 | _ \<Rightarrow> 8)"
  by (cases c) (simp_all add: to_le_bytes_def)

text \<open>The bytes of an integer determine it: the digest does not depend on the machine's order.\<close>

lemma to_le_bytes_value:
  "256 ^ k = (2::nat) ^ LENGTH('w) \<Longrightarrow> of_nat (le_val (to_le_bytes k x)) = (x :: 'w::len word)"
  using unsigned_less [of x] by (simp add: to_le_bytes_def le_val_le_bytes)

lemma traverse_nth:
  "traverse f xs = Ok ys \<Longrightarrow> i < length xs \<Longrightarrow> f (xs ! i) = Ok (ys ! i)"
  by (induction xs arbitrary: ys i) (auto simp: outcome_simps nth_Cons split: nat.splits)

text \<open>A hard-coded replica: its provider is the secret behind its entry in every replica's list of
  keys.\<close>

fun key_of_provider ::
  "('m, 'sk, 'pk, 'sg, 'kp, 'spk, 'ssg) crypto_api \<Rightarrow> ('sk, 'kp) crypto_provider \<Rightarrow> ('pk, 'spk) replica_key"
  where
  "key_of_provider A (Insecure s) = KeyPlain s"
| "key_of_provider A (ProviderSecp256k1 sk) = KeySecp256k1 (secp_public_key (secp A) sk)"
| "key_of_provider A (ProviderSchnorrkel kp ctx) = KeySchnorrkel (keypair_public (schnorrkel A) kp)"

fun flavor_of_provider :: "('sk, 'kp) crypto_provider \<Rightarrow> crypto_flavor" where
  "flavor_of_provider (Insecure s) = FlavorPlain"
| "flavor_of_provider (ProviderSecp256k1 sk) = FlavorSecp256k1"
| "flavor_of_provider (ProviderSchnorrkel kp ctx) = FlavorSchnorrkel"

fun default_context :: "('sk, 'kp) crypto_provider \<Rightarrow> bool" where
  "default_context (ProviderSchnorrkel kp ctx) = (ctx = ''default'')"
| "default_context p = True"

lemma new_hardcoded_keys:
  assumes "new_hardcoded A n i f = Ok c"
  shows "length (public_keys c) = n \<and> flavor_of_provider (provider c) = f \<and>
    default_context (provider c) \<and> (i < n \<longrightarrow> public_keys c ! i = key_of_provider A (provider c))"
  using assms
  by (cases f) (auto simp: new_hardcoded_def outcome_simps dest!: traverse_length split: if_splits)

lemma new_hardcoded_same_keys:
  assumes "new_hardcoded A n i f = Ok c" "new_hardcoded A n j f = Ok d"
  shows "public_keys c = public_keys d"
  using assms by (cases f) (auto simp: new_hardcoded_def outcome_simps split: if_splits)

lemma crypto_verify_own_key:
  assumes laws: "crypto_laws A" and key: "index < length (public_keys d)"
      "public_keys d ! index = key_of_provider A (provider c)"
    and same: "flavor_of_provider (provider d) = flavor_of_provider (provider c)"
      "default_context (provider c)" "default_context (provider d)"
  shows "crypto_verify A d index (crypto_sign A rnd c m) = Ok ()"
  using assms
  by (cases "provider c"; cases "provider d")
    (auto simp: crypto_verify_def crypto_sign_def verify_internal_def peer_sign_def crypto_laws_def)

section \<open>Properties\<close>

text \<open>C37. Hard-coded replicas verify each other: whatever the flavor, what replica \<open>i\<close> of \<open>n\<close>
  signs is accepted by every replica \<open>j\<close> under the index \<open>i\<close>.\<close>

theorem replicas_verify_each_other:
  assumes "crypto_laws A" "new_hardcoded A n i f = Ok ci" "new_hardcoded A n j f = Ok cj" "i < n"
  shows "crypto_verify A cj i (crypto_sign A rnd ci m) = Ok ()"
  using assms new_hardcoded_keys [OF assms(2)] new_hardcoded_keys [OF assms(3)]
    new_hardcoded_same_keys [OF assms(2,3)]
  by (intro crypto_verify_own_key) auto

text \<open>Packages that satisfy the laws: a signature is the public key, which is the secret key.\<close>

definition sample_secp_api :: "(bytes, bytes, bytes) secp_api" where
  "sample_secp_api =
     \<lparr>secp_from_slice = Ok, secp_public_key = (\<lambda>k. k), secp_sign_ecdsa = (\<lambda>d k. k),
      secp_verify_ecdsa = (\<lambda>d s pk. if s = pk then Ok () else Err ''IncorrectSignature''),
      secret_bytes = (\<lambda>k. k), serialize_public = (\<lambda>k. k)\<rparr>"

definition sample_schnorrkel :: "(bytes, bytes, bytes) schnorrkel_api" where
  "sample_schnorrkel =
     \<lparr>mini_secret_expand = Ok, keypair_public = (\<lambda>k. k), context_hash256 = (\<lambda>ctx d. string_bytes ctx @ d),
      keypair_sign = (\<lambda>rnd k t. k @ t),
      schnorrkel_verify = (\<lambda>pk t s. if s = pk @ t then Ok () else Err ''EquationFalse''),
      schnorrkel_verify_batch = (\<lambda>ts ss pks.
        if list_all2 (\<lambda>s p. s = p) ss (map (\<lambda>(p, t). p @ t) (zip pks ts)) then Ok ()
        else Err ''EquationFalse'')\<rparr>"

definition sample_crypto :: "(bytes, bytes, bytes, bytes, bytes, bytes, bytes) crypto_api" where
  "sample_crypto =
     \<lparr>hash_calls = (\<lambda>m. [Write m]), sha256_digest = (\<lambda>bs. bs), blake2_digest = (\<lambda>bs. bs), hex_text = hex_lower,
      secp = sample_secp_api, schnorrkel = sample_schnorrkel\<rparr>"

lemma sample_crypto_laws: "crypto_laws sample_crypto"
  by (simp add: crypto_laws_def sample_crypto_def sample_secp_api_def sample_schnorrkel_def)

lemma sample_batch_law: "batch_law sample_crypto"
  unfolding batch_law_def
proof (intro allI impI)
  fix items :: "(bytes \<times> bytes \<times> bytes) list"
  assume "\<forall>(t, sg, pk)\<in>set items. schnorrkel_verify (schnorrkel sample_crypto) pk t sg = Ok ()"
  then have "\<forall>(t, sg, pk)\<in>set items. sg = pk @ t"
    by (auto simp: sample_crypto_def sample_schnorrkel_def split: if_splits)
  then have "list_all2 (\<lambda>s p. s = p) (map (fst \<circ> snd) items)
      (map (\<lambda>(p, t). p @ t) (zip (map (snd \<circ> snd) items) (map fst items)))"
    by (induction items) auto
  then show "schnorrkel_verify_batch (schnorrkel sample_crypto) (map fst items)
      (map (fst \<circ> snd) items) (map (snd \<circ> snd) items) = Ok ()"
    by (simp add: sample_crypto_def sample_schnorrkel_def)
qed

theorem replicas_verify_each_other_witness:
  "\<exists>ci cj. new_hardcoded sample_crypto 2 0 FlavorSchnorrkel = Ok ci \<and>
     new_hardcoded sample_crypto 2 1 FlavorSchnorrkel = Ok cj \<and>
     crypto_verify sample_crypto cj 0 (crypto_sign sample_crypto [] ci [1, 2]) = Ok ()"
proof -
  have "\<exists>a. replica_secret 0 = Ok a" "\<exists>b. replica_secret 1 = Ok b"
    by (simp_all add: replica_secret_def nat_to_string.simps [of 0] nat_to_string.simps [of "Suc 0"])
  then obtain a b where k: "replica_secret 0 = Ok a" "replica_secret 1 = Ok b" by blast
  have upt: "[0..<2] = [0, 1 :: nat]" by code_simp
  obtain ci where ci: "new_hardcoded sample_crypto 2 0 FlavorSchnorrkel = Ok ci"
    by (simp add: new_hardcoded_def upt k [simplified] sample_crypto_def sample_schnorrkel_def)
  obtain cj where cj: "new_hardcoded sample_crypto 2 1 FlavorSchnorrkel = Ok cj"
    by (simp add: new_hardcoded_def upt k [simplified] sample_crypto_def sample_schnorrkel_def)
  show ?thesis
    using ci cj replicas_verify_each_other [OF sample_crypto_laws ci cj] by auto
qed

lemma batch_item_own:
  assumes "new_hardcoded A n j FlavorSchnorrkel = Ok c" "new_hardcoded A n i FlavorSchnorrkel = Ok ci"
    "i < n" "crypto_laws A"
  shows "\<exists>t sg pk. batch_item A c ''default'' (i, crypto_sign A rnd ci m) = Ok (t, sg, pk) \<and>
    schnorrkel_verify (schnorrkel A) pk t sg = Ok ()"
proof -
  obtain kp where kp: "provider ci = ProviderSchnorrkel kp ''default''"
    using new_hardcoded_keys [OF assms(2)] by (cases "provider ci") auto
  have key: "i < length (public_keys c)" "public_keys c ! i = KeySchnorrkel (keypair_public (schnorrkel A) kp)"
    using new_hardcoded_keys [OF assms(1)] new_hardcoded_keys [OF assms(2)] assms(3) kp
      new_hardcoded_same_keys [OF assms(1,2)] by auto
  show ?thesis
    using assms(4) by (simp add: batch_item_def key crypto_sign_def kp peer_sign_def crypto_laws_def)
qed

lemma traverse_all:
  "(\<And>x. x \<in> set xs \<Longrightarrow> \<exists>y. f x = Ok y \<and> P y) \<Longrightarrow> \<exists>ys. traverse f xs = Ok ys \<and> (\<forall>y\<in>set ys. P y)"
proof (induction xs)
  case (Cons x xs)
  obtain y where "f x = Ok y" "P y" using Cons.prems [of x] by auto
  moreover obtain ys where "traverse f xs = Ok ys" "\<forall>y\<in>set ys. P y" using Cons by auto
  ultimately show ?case by simp
qed simp

text \<open>C38. \<open>Crypto::verify_batch\<close> accepts the signatures of hard-coded replicas under their indexes,
  and still accepts them when any further messages, with any signatures at all, follow: \<open>zip\<close> stops at
  the shorter list, so the messages without an index are never looked at.\<close>

theorem verify_batch_ignores_the_rest:
  assumes "crypto_laws A" "batch_law A" "new_hardcoded A n j FlavorSchnorrkel = Ok c"
    and signers: "\<forall>(i, v) \<in> set batch. i < n \<and>
      (\<exists>ci rnd m. new_hardcoded A n i FlavorSchnorrkel = Ok ci \<and> v = crypto_sign A rnd ci m)"
  shows "crypto_verify_batch A c (map fst batch) (map snd batch @ forged) = Ok ()"
proof -
  obtain kp where kp: "provider c = ProviderSchnorrkel kp ''default''"
    using new_hardcoded_keys [OF assms(3)] by (cases "provider c") auto
  have item: "\<exists>y. batch_item A c ''default'' p = Ok y \<and>
      (case y of (t, sg, pk) \<Rightarrow> schnorrkel_verify (schnorrkel A) pk t sg = Ok ())" if mem: "p \<in> set batch" for p
  proof -
    obtain i v where p: "p = (i, v)" by fastforce
    obtain ci rnd m where v: "i < n" "new_hardcoded A n i FlavorSchnorrkel = Ok ci"
        "v = crypto_sign A rnd ci m"
      using bspec [OF signers mem] unfolding p by auto
    obtain t sg pk where "batch_item A c ''default'' p = Ok (t, sg, pk)"
        "schnorrkel_verify (schnorrkel A) pk t sg = Ok ()"
      using batch_item_own [OF assms(3) v(2,1) assms(1), of rnd m] unfolding p v(3) by blast
    then show ?thesis by simp
  qed
  obtain items where items: "traverse (batch_item A c ''default'') batch = Ok items"
      "\<forall>y\<in>set items. case y of (t, sg, pk) \<Rightarrow> schnorrkel_verify (schnorrkel A) pk t sg = Ok ()"
    using traverse_all [of batch "batch_item A c ''default''"
      "\<lambda>y. case y of (t, sg, pk) \<Rightarrow> schnorrkel_verify (schnorrkel A) pk t sg = Ok ()"] item by blast
  have "zip (map fst batch) (map snd batch @ forged) = batch"
    by (induction batch) auto
  then show ?thesis
    using items assms(2) by (simp add: crypto_verify_batch_def kp batch_law_def)
qed

theorem verify_batch_ignores_the_rest_witness:
  "\<exists>c. new_hardcoded sample_crypto 1 0 FlavorSchnorrkel = Ok c \<and>
     crypto_verify_batch sample_crypto c [0]
       [crypto_sign sample_crypto [] c [1, 2], \<lparr>inner = [3], signature = SigPlain ''forged''\<rparr>] = Ok ()"
proof -
  have "\<exists>a. replica_secret 0 = Ok a"
    by (simp add: replica_secret_def nat_to_string.simps [of 0])
  then obtain a where k: "replica_secret 0 = Ok a" by blast
  obtain c where c: "new_hardcoded sample_crypto 1 0 FlavorSchnorrkel = Ok c"
    by (simp add: new_hardcoded_def k sample_crypto_def sample_schnorrkel_def)
  let ?v = "crypto_sign sample_crypto [] c [1, 2]"
  have "\<forall>(i, v) \<in> set [(0, ?v)]. i < 1 \<and>
      (\<exists>ci rnd m. new_hardcoded sample_crypto 1 i FlavorSchnorrkel = Ok ci \<and>
         v = crypto_sign sample_crypto rnd ci m)"
    using c by auto
  from verify_batch_ignores_the_rest [OF sample_crypto_laws sample_batch_law c this,
      of "[\<lparr>inner = [3], signature = SigPlain ''forged''\<rparr>]"] c
  show ?thesis by auto
qed

text \<open>A random \<open>Crypto\<close> verifies what it signs, except in the flavor \<open>Plain\<close>: there the
  signature is the \<open>{:?}\<close> print of the secret bytes and the key their hexadecimal print, so it rejects
  every message it has signed itself.\<close>

theorem new_random_verifies_itself:
  assumes "crypto_laws A" "new_random A bs sk kp f = Ok c"
  shows "crypto_verify A c 0 (crypto_sign A rnd c m) = Ok () \<longleftrightarrow> f \<noteq> FlavorPlain"
proof (cases f)
  case FlavorPlain
  have "hex_lower bs \<noteq> debug_bytes bs"
  proof
    assume eq: "hex_lower bs = debug_bytes bs"
    have "list_all is_ascii_hexdigit (debug_bytes bs)" by (simp add: eq [symmetric])
    then show False by (simp add: debug_bytes_def is_ascii_hexdigit_def)
  qed
  with assms FlavorPlain show ?thesis
    by (auto simp: new_random_def crypto_verify_def crypto_sign_def)
qed (use assms in \<open>auto simp: new_random_def crypto_verify_def crypto_sign_def verify_internal_def
    peer_sign_def crypto_laws_def\<close>)

theorem new_random_verifies_itself_witness:
  "\<exists>c. new_random sample_crypto [7] [1] [2] FlavorPlain = Ok c \<and>
     crypto_verify sample_crypto c 0 (crypto_sign sample_crypto [] c [5]) \<noteq> Ok ()"
proof -
  obtain c where c: "new_random sample_crypto [7] [1] [2] FlavorPlain = Ok c"
    by (simp add: new_random_def)
  with new_random_verifies_itself [OF sample_crypto_laws c] show ?thesis by auto
qed

section \<open>Peers\<close>

text \<open>A peer accepts what another peer signed, under the public key of the signer.\<close>

lemma peer_sign_verify:
  "crypto_laws A \<Longrightarrow>
     peer_verify A (peer_new_random kp') (peer_public_key A (peer_new_random kp))
       (m, peer_sign A rnd (fst (peer_new_random kp)) (snd (peer_new_random kp)) m) = Ok ()"
  by (simp add: peer_verify_def peer_new_random_def peer_public_key_def verify_internal_def
      peer_sign_def crypto_laws_def)

text \<open>The order of signatures is total and consistent with equality, as \<open>Ord\<close> demands.\<close>

lemma compare_bytes_Equal [simp]: "compare_bytes a b = Equal \<longleftrightarrow> a = b"
  by (induction a b rule: compare_bytes.induct) auto

lemma compare_bytes_reverse: "compare_bytes b a = reverse_ordering (compare_bytes a b)"
  by (induction a b rule: compare_bytes.induct) auto

lemma compare_bytes_trans:
  "compare_bytes a b = Less \<Longrightarrow> compare_bytes b c = Less \<Longrightarrow> compare_bytes a c = Less"
proof (induction a b arbitrary: c rule: compare_bytes.induct)
  case (2 y ys)
  then show ?case by (cases c) auto
next
  case (4 x xs y ys)
  then show ?case by (cases c) (auto split: if_splits)
qed auto

theorem signature_order:
  assumes "inj to_bytes"
  shows "(signature_cmp to_bytes a b = Equal \<longleftrightarrow> a = b) \<and>
    signature_cmp to_bytes b a = reverse_ordering (signature_cmp to_bytes a b) \<and>
    (signature_cmp to_bytes a b = Less \<and> signature_cmp to_bytes b c = Less \<longrightarrow>
       signature_cmp to_bytes a c = Less)"
  using assms compare_bytes_reverse [of "to_bytes b" "to_bytes a"] compare_bytes_trans
  by (auto simp: signature_cmp_def inj_eq)

end
