(* ===== verification/Recovery.thy ===== *)
theory Recovery
  imports Prelude
begin

text \<open>
  Recoverable signatures over hexadecimal text: \<open>crates/common/src/crypto/recovery.rs\<close>. The
  package \<open>secp256k1\<close>, Keccak-256 and \<open>hex\<close> are parameters. \<open>Vec::from_hex\<close> and
  \<open>hex::decode\<close> are the same decoder.
\<close>

record ('sk, 'pk, 'rsg, 'sg) recovery_api =
  api_hex_decode :: "string \<Rightarrow> (bytes, string) outcome"
  api_hex_encode :: "bytes \<Rightarrow> string"
  api_keccak256 :: "bytes \<Rightarrow> bytes"
  recovery_id :: "int \<Rightarrow> (int, string) outcome"
  rsg_from_compact :: "bytes \<Rightarrow> int \<Rightarrow> ('rsg, string) outcome"
  rsg_to_compact :: "'rsg \<Rightarrow> int \<times> bytes"
  rsg_sign :: "bytes \<Rightarrow> 'sk \<Rightarrow> 'rsg"
  rsg_recover :: "bytes \<Rightarrow> 'rsg \<Rightarrow> ('pk, string) outcome"
  sg_from_compact :: "bytes \<Rightarrow> ('sg, string) outcome"
  sg_verify :: "bytes \<Rightarrow> 'sg \<Rightarrow> 'pk \<Rightarrow> (unit, string) outcome"
  public_of :: "'sk \<Rightarrow> 'pk"
  secret_to_bytes :: "'sk \<Rightarrow> bytes"
  public_serialize :: "'pk \<Rightarrow> bytes"

section \<open>Operations\<close>

text \<open>\<open>Message::from_digest_slice\<close> takes 32 bytes.\<close>

definition from_digest_slice :: "bytes \<Rightarrow> (bytes, string) outcome" where
  "from_digest_slice bs = (if length bs = 32 then Ok bs else Err ''InvalidMessage'')"

text \<open>The last 20 of the 32 bytes of the digest.\<close>

definition hex_public_key_to_address ::
  "('sk, 'pk, 'rsg, 'sg) recovery_api \<Rightarrow> string \<Rightarrow> (string, string) outcome" where
  "hex_public_key_to_address R public_key_hex =
     and_then (unwrap ''Invalid hex string'' (api_hex_decode R public_key_hex)) (\<lambda>public_key_bytes.
     and_then (slice_from 1 public_key_bytes) (\<lambda>tail.
       let hash_bytes = api_keccak256 R tail
       in if 20 \<le> length hash_bytes
          then Ok (''0x'' @ api_hex_encode R (drop (length hash_bytes - 20) hash_bytes))
          else Panic ''attempt to subtract with overflow''))"

text \<open>The pair that \<open>generate_keypair\<close> draws is an argument.\<close>

definition gen_secp256k1_keypair ::
  "('sk, 'pk, 'rsg, 'sg) recovery_api \<Rightarrow> 'sk \<times> 'pk \<Rightarrow> string \<times> string" where
  "gen_secp256k1_keypair R pair =
     (api_hex_encode R (secret_to_bytes R (fst pair)), api_hex_encode R (public_serialize R (snd pair)))"

definition sign_message_recover_pk ::
  "('sk, 'pk, 'rsg, 'sg) recovery_api \<Rightarrow> 'sk \<Rightarrow> bytes \<Rightarrow> ('rsg, string) outcome" where
  "sign_message_recover_pk R secret_key message =
     and_then (unwrap ''32-byte message'' (from_digest_slice message)) (\<lambda>msg.
       Ok (rsg_sign R msg secret_key))"

text \<open>\<open>.ok()\<close>\<close>

fun ok_of :: "('a, 'e) outcome \<Rightarrow> ('a option, 'f) outcome" where
  "ok_of (Ok x) = Ok (Some x)"
| "ok_of (Err e) = Ok None"
| "ok_of (Panic m) = Panic m"

definition recover_public_key ::
  "('sk, 'pk, 'rsg, 'sg) recovery_api \<Rightarrow> 'rsg \<Rightarrow> bytes \<Rightarrow> ('pk option, string) outcome" where
  "recover_public_key R sg message =
     and_then (unwrap ''32-byte message'' (from_digest_slice message)) (\<lambda>msg.
       ok_of (rsg_recover R msg sg))"

definition byte_at :: "nat \<Rightarrow> bytes \<Rightarrow> (u8, string) outcome" where
  "byte_at i bs = (if i < length bs then Ok (bs ! i) else Panic ''index out of bounds'')"

definition verify_secp256k1_recovery_pk ::
  "('sk, 'pk, 'rsg, 'sg) recovery_api \<Rightarrow> string \<Rightarrow> string \<Rightarrow> (unit, string) outcome" where
  "verify_secp256k1_recovery_pk R signature_hex message_hex =
     and_then (api_hex_decode R signature_hex) (\<lambda>signature_bytes.
     and_then (api_hex_decode R message_hex) (\<lambda>message_bytes.
     and_then (byte_at 64 signature_bytes) (\<lambda>v.
     and_then (recovery_id R (uint v)) (\<lambda>rid.
     let signatures_no_id = take 64 signature_bytes in
     and_then (rsg_from_compact R signatures_no_id rid) (\<lambda>recoverable_signature.
     and_then (from_digest_slice message_bytes) (\<lambda>message.
     and_then (rsg_recover R message recoverable_signature) (\<lambda>public_key.
     and_then (sg_from_compact R signatures_no_id) (\<lambda>sig.
     and_then (sg_verify R message sig public_key) (\<lambda>u. Ok ())))))))))"

definition verify_secp256k1_recovery_pk_bytes ::
  "('sk, 'pk, 'rsg, 'sg) recovery_api \<Rightarrow> bytes \<Rightarrow> bytes \<Rightarrow> ('pk option, string) outcome" where
  "verify_secp256k1_recovery_pk_bytes R signature_bytes message_bytes =
     and_then (byte_at 64 signature_bytes) (\<lambda>v.
     and_then (unwrap ''called Result::unwrap on an Err value'' (recovery_id R (uint v))) (\<lambda>rid.
     let signatures_no_id = take 64 signature_bytes in
     and_then (unwrap ''called Result::unwrap on an Err value'' (rsg_from_compact R signatures_no_id rid))
       (\<lambda>recoverable_signature.
     and_then (unwrap ''called Result::unwrap on an Err value'' (from_digest_slice message_bytes))
       (\<lambda>message. ok_of (rsg_recover R message recoverable_signature)))))"

section \<open>What the packages document\<close>

text \<open>
  For the signature of one digest with one key: the compact form has 64 bytes, is read back with
  its recovery id, which is 0 to 3, recovery gives the signer's key, and the plain signature in the same
  64 bytes verifies under it.
\<close>

definition recovery_laws :: "('sk, 'pk, 'rsg, 'sg) recovery_api \<Rightarrow> bytes \<Rightarrow> 'sk \<Rightarrow> bool" where
  "recovery_laws R msg sk \<longleftrightarrow>
     (let rsg = rsg_sign R msg sk; (rid, data) = rsg_to_compact R rsg
      in length data = 64 \<and> 0 \<le> rid \<and> rid < 4 \<and> recovery_id R rid = Ok rid \<and>
         rsg_from_compact R data rid = Ok rsg \<and> rsg_recover R msg rsg = Ok (public_of R sk) \<and>
         (\<exists>sg. sg_from_compact R data = Ok sg \<and> sg_verify R msg sg (public_of R sk) = Ok ()))"

text \<open>The text of a signature, as the tests of the crate build it: 64 bytes and the recovery id.\<close>

definition recoverable_bytes :: "('sk, 'pk, 'rsg, 'sg) recovery_api \<Rightarrow> 'rsg \<Rightarrow> bytes" where
  "recoverable_bytes R rsg = (case rsg_to_compact R rsg of (rid, data) \<Rightarrow> data @ [of_int rid])"

section \<open>Properties\<close>

text \<open>A recoverable signature of a 32-byte digest recovers to the signer's key, directly and
  through its 65 bytes, and the check over hexadecimal text accepts it.\<close>

theorem sign_recover_check:
  assumes laws: "recovery_laws R msg sk" and len: "length msg = 32"
    and hex: "\<And>bs. api_hex_decode R (api_hex_encode R bs) = Ok bs"
  shows "\<exists>rsg. sign_message_recover_pk R sk msg = Ok rsg \<and>
    recover_public_key R rsg msg = Ok (Some (public_of R sk)) \<and>
    verify_secp256k1_recovery_pk_bytes R (recoverable_bytes R rsg) msg = Ok (Some (public_of R sk)) \<and>
    verify_secp256k1_recovery_pk R (api_hex_encode R (recoverable_bytes R rsg)) (api_hex_encode R msg) = Ok ()"
proof -
  obtain rid data where c: "rsg_to_compact R (rsg_sign R msg sk) = (rid, data)" by fastforce
  have v: "uint (of_int rid :: u8) = rid" if "0 \<le> rid" "rid < 4"
    using that by (simp add: uint_word_of_int_eq take_bit_int_eq_self)
  show ?thesis
    using laws len c v
    by (auto simp: recovery_laws_def sign_message_recover_pk_def recover_public_key_def hex
        verify_secp256k1_recovery_pk_bytes_def verify_secp256k1_recovery_pk_def recoverable_bytes_def
        from_digest_slice_def byte_at_def nth_append Let_def)
qed

definition sample_recovery :: "(bytes, bytes, int \<times> bytes, bytes) recovery_api" where
  "sample_recovery =
     \<lparr>api_hex_decode = (\<lambda>t. Ok (map (\<lambda>c. of_nat (of_char c :: nat)) t)),
      api_hex_encode = map (\<lambda>x. char_of (unat x)), api_keccak256 = take 32,
      recovery_id = (\<lambda>i. if 0 \<le> i \<and> i < 4 then Ok i else Err ''InvalidRecoveryId''),
      rsg_from_compact = (\<lambda>bs i. Ok (i, bs)), rsg_to_compact = (\<lambda>sg. sg),
      rsg_sign = (\<lambda>m k. (1, k @ replicate 32 0)), rsg_recover = (\<lambda>m sg. Ok (take 32 (snd sg))),
      sg_from_compact = Ok, sg_verify = (\<lambda>m s pk. if take 32 s = pk then Ok () else Err ''IncorrectSignature''),
      public_of = (\<lambda>k. k), secret_to_bytes = (\<lambda>k. k), public_serialize = (\<lambda>k. 2 # k)\<rparr>"

theorem sign_recover_check_witness:
  "\<exists>rsg. sign_message_recover_pk sample_recovery (replicate 32 3) (replicate 32 5) = Ok rsg \<and>
    verify_secp256k1_recovery_pk_bytes sample_recovery (recoverable_bytes sample_recovery rsg)
      (replicate 32 5) = Ok (Some (replicate 32 3))"
proof -
  have laws: "recovery_laws sample_recovery (replicate 32 5) (replicate 32 3)"
    by (simp add: recovery_laws_def sample_recovery_def)
  have hex: "api_hex_decode sample_recovery (api_hex_encode sample_recovery bs) = Ok bs" for bs
    by (simp add: sample_recovery_def comp_def)
  have key: "public_of sample_recovery (replicate 32 3) = replicate 32 3"
    by (simp add: sample_recovery_def)
  show ?thesis using sign_recover_check [OF laws _ hex] unfolding key by auto
qed

text \<open>Both checks index byte 64: a shorter signature is a panic, not an error.\<close>

lemma short_signature_panics:
  "api_hex_decode R h = Ok bs \<Longrightarrow> api_hex_decode R m = Ok ms \<Longrightarrow> length bs \<le> 64 \<Longrightarrow>
     is_panic (verify_secp256k1_recovery_pk R h m) \<and> is_panic (verify_secp256k1_recovery_pk_bytes R bs ms)"
  by (simp add: verify_secp256k1_recovery_pk_def verify_secp256k1_recovery_pk_bytes_def byte_at_def)

text \<open>
  The address of a generated key: \<open>serialize\<close> gives the compressed form, one tag byte and the 32
  bytes of the x coordinate, and the address is taken from the digest of these 32 bytes alone, where an
  Ethereum address digests both coordinates.
\<close>

lemma generated_key_address:
  assumes "\<And>bs. api_hex_decode R (api_hex_encode R bs) = Ok bs" "\<And>bs. length (api_keccak256 R bs) = 32"
    and "public_serialize R pk = tag # x"
  shows "hex_public_key_to_address R (snd (gen_secp256k1_keypair R (sk, pk))) =
    Ok (''0x'' @ api_hex_encode R (drop 12 (api_keccak256 R x)))"
  using assms by (simp add: hex_public_key_to_address_def gen_secp256k1_keypair_def slice_from_def)

end
