(* ===== verification/Entities.thy ===== *)
theory Entities
  imports Storage
begin

text \<open>
  The entities of \<open>operator/db_sql/src/pg/entities\<close>: the two \<open>Model\<close> structs, what their attributes
  say of the columns, and reading a stored row as a \<open>Model\<close>. The reader is derived by the package
  from the struct; it documents that a field is read from the column of its name, that a value of
  another type or a missing value is an error, and that an \<open>Option\<close> may be missing. The entities and
  the migrations of \<open>Storage\<close> are two descriptions of the same tables.
\<close>

section \<open>Fields\<close>

datatype rust_type = I64 | StringField | BytesField | DateTimeField

record field_def =
  fd_name :: string
  fd_type :: rust_type
  fd_optional :: bool
  fd_primary :: bool
  fd_unique :: bool

definition field :: "string \<Rightarrow> rust_type \<Rightarrow> bool \<Rightarrow> bool \<Rightarrow> bool \<Rightarrow> field_def" where
  "field name ty opt prim uniq =
     \<lparr>fd_name = name, fd_type = ty, fd_optional = opt, fd_primary = prim, fd_unique = uniq\<rparr>"

definition job_result_fields :: "field_def list" where
  "job_result_fields =
     [field ''id'' I64 False True False,
      field ''username'' StringField False False False,
      field ''job_id'' StringField False False True,
      field ''result'' StringField False False False,
      field ''tag'' StringField False False False,
      field ''clock'' StringField False False False,
      field ''operator'' StringField False False False,
      field ''signature'' StringField False False False]"

definition clock_infos_fields :: "field_def list" where
  "clock_infos_fields =
     [field ''id'' I64 False True False,
      field ''clock'' StringField False False False,
      field ''clock_hash'' StringField False False True,
      field ''node_id'' StringField False False False,
      field ''message_id'' StringField False False False,
      field ''raw_message'' BytesField False False False,
      field ''event_count'' I64 False False False,
      field ''create_at'' DateTimeField True False False]"

text \<open>Which columns a field can be read from.\<close>

fun column_holds :: "rust_type \<Rightarrow> column_type \<Rightarrow> bool" where
  "column_holds I64 BigInteger = True"
| "column_holds I64 BigUnsigned = True"
| "column_holds StringField StringColumn = True"
| "column_holds StringField (CharLen n) = True"
| "column_holds BytesField Binary = True"
| "column_holds DateTimeField Timestamp = True"
| "column_holds t c = False"

definition field_matches :: "field_def \<Rightarrow> column_def \<Rightarrow> bool" where
  "field_matches f c \<longleftrightarrow>
     fd_name f = col_name c \<and> column_holds (fd_type f) (col_type c) \<and>
     fd_optional f = (\<not> col_not_null c) \<and> fd_primary f = col_auto c \<and>
     (fd_primary f \<or> fd_unique f) = col_unique c"

section \<open>Models\<close>

record job_result_model =
  jm_id :: "64 word"
  jm_username :: string
  jm_job_id :: string
  jm_result :: string
  jm_tag :: string
  jm_clock :: string
  jm_operator :: string
  jm_signature :: string

fun as_text :: "sql_value option \<Rightarrow> string option" where
  "as_text (Some (Text s)) = Some s"
| "as_text (Some (Blob b)) = None"
| "as_text None = None"

text \<open>The id is given by the server; the other fields come from the row.\<close>

definition read_job_result :: "64 word \<Rightarrow> sql_value active_model \<Rightarrow> job_result_model option" where
  "read_job_result row_id row =
     Option.bind (as_text (map_of row ''username'')) (\<lambda>username.
     Option.bind (as_text (map_of row ''job_id'')) (\<lambda>job_id.
     Option.bind (as_text (map_of row ''result'')) (\<lambda>result.
     Option.bind (as_text (map_of row ''tag'')) (\<lambda>tag.
     Option.bind (as_text (map_of row ''clock'')) (\<lambda>clock.
     Option.bind (as_text (map_of row ''operator'')) (\<lambda>operator.
     Option.bind (as_text (map_of row ''signature'')) (\<lambda>signature.
       Some \<lparr>jm_id = row_id, jm_username = username, jm_job_id = job_id, jm_result = result,
             jm_tag = tag, jm_clock = clock, jm_operator = operator, jm_signature = signature\<rparr>)))))))"

section \<open>Rows of a table\<close>

fun value_in :: "sql_value \<Rightarrow> column_type \<Rightarrow> bool" where
  "value_in (Text s) StringColumn = True"
| "value_in (Text s) (CharLen n) = (length s \<le> n)"
| "value_in (Blob b) Binary = True"
| "value_in v c = False"

definition row_typed :: "column_def list \<Rightarrow> sql_value active_model \<Rightarrow> bool" where
  "row_typed cols row \<longleftrightarrow>
     distinct (map fst row) \<and>
     (\<forall>(name, v) \<in> set row. \<exists>c \<in> set cols. col_name c = name \<and> value_in v (col_type c)) \<and>
     (\<forall>c \<in> set cols. col_not_null c \<and> \<not> col_auto c \<longrightarrow> map_of row (col_name c) \<noteq> None)"

text \<open>The arguments of a call of \<open>sinker_job\<close>, and the table after a sequence of calls.\<close>

record job_call =
  jc_job_id :: string
  jc_username :: string
  jc_result :: string
  jc_tag :: string
  jc_clock :: string

definition store_call ::
  "(column_def list \<Rightarrow> sql_value table \<Rightarrow> sql_value active_model \<Rightarrow> (sql_value table, string) outcome) \<Rightarrow>
   sql_value table \<Rightarrow> job_call \<Rightarrow> sql_value table" where
  "store_call ins rows call =
     sinker_job ins rows (jc_job_id call) (jc_username call) (jc_result call) (jc_tag call) (jc_clock call)"

definition store_calls ::
  "(column_def list \<Rightarrow> sql_value table \<Rightarrow> sql_value active_model \<Rightarrow> (sql_value table, string) outcome) \<Rightarrow>
   job_call list \<Rightarrow> sql_value table" where
  "store_calls ins calls = foldl (store_call ins) [] calls"

text \<open>The row a call asks for.\<close>

definition call_row :: "job_call \<Rightarrow> sql_value active_model" where
  "call_row call =
     [(''username'', Text (jc_username call)), (''job_id'', Text (jc_job_id call)),
      (''result'', Text (jc_result call)), (''tag'', Text (jc_tag call)),
      (''clock'', Text (jc_clock call)), (''operator'', Text []), (''signature'', Text [])]"

definition call_model :: "64 word \<Rightarrow> job_call \<Rightarrow> job_result_model" where
  "call_model row_id call =
     \<lparr>jm_id = row_id, jm_username = jc_username call, jm_job_id = jc_job_id call,
      jm_result = jc_result call, jm_tag = jc_tag call, jm_clock = jc_clock call,
      jm_operator = [], jm_signature = []\<rparr>"

text \<open>A server that refuses a row only because of a constraint.\<close>

definition live_insert ::
  "(column_def list \<Rightarrow> 'v table \<Rightarrow> 'v active_model \<Rightarrow> ('v table, string) outcome) \<Rightarrow> bool" where
  "live_insert ins \<longleftrightarrow>
     (\<forall>cols rows model. \<not> violates cols rows model \<longrightarrow> ins cols rows model = Ok (rows @ [model]))"

section \<open>Lemmas\<close>

lemma store_call_eq: "store_call ins rows call = sink ins job_result_columns rows (call_row call)"
  by (simp add: store_call_def sinker_job_def call_row_def)

lemma store_calls_snoc: "store_calls ins (calls @ [call]) = store_call ins (store_calls ins calls) call"
  by (simp add: store_calls_def)

lemma store_calls_Nil [simp]: "store_calls ins [] = []"
  by (simp add: store_calls_def)

lemma call_row_typed: "row_typed job_result_columns (call_row call)"
  by (simp add: row_typed_def call_row_def job_result_columns_def column_def)

lemma read_call_row: "read_job_result row_id (call_row call) = Some (call_model row_id call)"
  by (simp add: read_job_result_def call_row_def call_model_def)

lemma call_row_id [simp]: "map_of (call_row call) ''job_id'' = Some (Text (jc_job_id call))"
  by (simp add: call_row_def)

text \<open>A row of the job table is refused exactly when its job id is there.\<close>

lemma call_row_violates:
  "violates job_result_columns rows (call_row call) \<longleftrightarrow> Some (Text (jc_job_id call)) \<in> set (job_ids rows)"
proof
  assume "violates job_result_columns rows (call_row call)"
  then show "Some (Text (jc_job_id call)) \<in> set (job_ids rows)"
    by (auto simp: violates_def job_result_columns_def column_def call_row_def job_ids_def image_iff eq_commute)
qed (rule job_violates [OF call_row_id])

lemma stored_from_call:
  assumes "insert_law ins"
  shows "set (store_calls ins calls) \<subseteq> call_row ` set calls"
proof (induction calls rule: rev_induct)
  case (snoc call calls)
  then show ?case
    using sink_cases(2) [OF assms, of job_result_columns "store_calls ins calls" "call_row call"]
    by (auto simp: store_calls_snoc store_call_eq)
qed simp

lemma stored_ids_distinct:
  assumes "insert_law ins"
  shows "distinct (job_ids (store_calls ins calls))"
proof (induction calls rule: rev_induct)
  case (snoc call calls)
  then show ?case
    using sink_cases(2) [OF assms, of job_result_columns "store_calls ins calls" "call_row call"]
      call_row_violates [of "store_calls ins calls" call]
    by (auto simp: store_calls_snoc store_call_eq job_ids_def)
qed (simp add: job_ids_def)

text \<open>The calls whose job id is new when they come.\<close>

fun first_calls :: "job_call list \<Rightarrow> job_call list" where
  "first_calls [] = []"
| "first_calls (c # cs) = c # filter (\<lambda>d. jc_job_id d \<noteq> jc_job_id c) (first_calls cs)"

lemma image_other: "f ` {x \<in> S. f x \<noteq> k} = f ` S - {k}"
  by auto

lemma first_calls_ids: "jc_job_id ` set (first_calls cs) = jc_job_id ` set cs"
  by (induction cs) (simp_all add: image_other)

lemma first_calls_snoc:
  "first_calls (cs @ [c]) = first_calls cs @ (if jc_job_id c \<in> jc_job_id ` set cs then [] else [c])"
  by (induction cs) auto

lemma stored_first:
  assumes "insert_law ins" "live_insert ins"
  shows "store_calls ins calls = map call_row (first_calls calls)"
proof (induction calls rule: rev_induct)
  case (snoc call calls)
  let ?rows = "map call_row (first_calls calls)"
  have ids: "Some (Text (jc_job_id call)) \<in> set (job_ids ?rows) \<longleftrightarrow> jc_job_id call \<in> jc_job_id ` set calls"
    using first_calls_ids [of calls] by (auto simp: job_ids_def image_iff)
  show ?case
  proof (cases "jc_job_id call \<in> jc_job_id ` set calls")
    case True
    then have "violates job_result_columns ?rows (call_row call)"
      using ids call_row_violates by blast
    then show ?thesis
      using True snoc sink_cases(1) [OF assms(1)]
      by (simp add: store_calls_snoc store_call_eq first_calls_snoc)
  next
    case False
    then have "\<not> violates job_result_columns ?rows (call_row call)"
      using ids call_row_violates by blast
    then have "ins job_result_columns ?rows (call_row call) = Ok (?rows @ [call_row call])"
      using assms(2) by (simp add: live_insert_def)
    then show ?thesis
      using False snoc by (simp add: store_calls_snoc store_call_eq first_calls_snoc sink_def)
  qed
qed simp

lemma sample_live_insert: "live_insert sample_insert"
  by (simp add: live_insert_def sample_insert_def)

section \<open>Properties\<close>

text \<open>C39. The job table is well typed, whatever is stored in it: after any sequence of calls of
  \<open>sinker_job\<close>, failing or not, every row has a value of the type of its column in every column
  that must have one and in no other, reads back as the \<open>Model\<close> of the call that wrote it, and no two
  rows have the same job id.\<close>

theorem job_table_typed:
  assumes "insert_law ins" "row \<in> set (store_calls ins calls)"
  shows "row_typed job_result_columns row \<and>
    (\<exists>call \<in> set calls. read_job_result row_id row = Some (call_model row_id call)) \<and>
    distinct (job_ids (store_calls ins calls)) \<and>
    list_all2 field_matches job_result_fields job_result_columns"
proof -
  obtain call where "call \<in> set calls" "row = call_row call"
    using stored_from_call [OF assms(1)] assms(2) by blast
  moreover have "list_all2 field_matches job_result_fields job_result_columns"
    by (simp add: job_result_fields_def job_result_columns_def field_matches_def field_def column_def)
  ultimately show ?thesis
    using call_row_typed read_call_row stored_ids_distinct [OF assms(1)] by metis
qed

definition sample_call :: "string \<Rightarrow> job_call" where
  "sample_call res =
     \<lparr>jc_job_id = ''j1'', jc_username = ''u'', jc_result = res, jc_tag = ''t'', jc_clock = ''{}''\<rparr>"

lemma sample_stored:
  "store_calls sample_insert [sample_call ''a'', sample_call ''b''] = [call_row (sample_call ''a'')]"
  using stored_first [OF sample_insert_law sample_live_insert, of "[sample_call ''a'', sample_call ''b'']"]
  by (simp add: sample_call_def)

theorem job_table_typed_witness:
  "row_typed job_result_columns (call_row (sample_call ''a''))"
  using job_table_typed [OF sample_insert_law, of "call_row (sample_call ''a'')"
      "[sample_call ''a'', sample_call ''b'']"]
  by (simp add: sample_stored)

text \<open>The entity and the migration of the other table agree too.\<close>

lemma clock_infos_match: "list_all2 field_matches clock_infos_fields clock_infos_columns"
  by (simp add: clock_infos_fields_def clock_infos_columns_def field_matches_def field_def column_def)

end
