(* ===== verification/Dispatch_System.thy ===== *)
theory Dispatch_System
  imports Connection
begin

text \<open>
  The tasks of \<open>handle_connection\<close> (\<open>operator/runer/src/api/msg_handler.rs\<close>) together: the
  receiving task of the open session, which puts requests into the queue, and one dispatcher task per
  session ever opened. When a session ends because the websocket failed, \<open>select!\<close> drops the handle
  of its dispatcher, which goes on running: nothing stops it. The tasks share the queue, so a
  dispatcher is split into the points between which others can run: it takes a message, runs the job,
  acknowledges. A step relation interleaves them.
\<close>

section \<open>State\<close>

text \<open>Where a dispatcher is: waiting for a message, before \<open>do_job\<close>, after it, or ended.\<close>

datatype dispatcher = Waiting | Running redis_message | Finished redis_message | Ended

text \<open>
  \<open>ss_live\<close> is the session the loop of \<open>handle_connection\<close> is in, \<open>ss_receiving\<close> tells whether its
  receiving task runs, \<open>ss_next\<close> is the number of the next session. Four logs: the ids accepted by
  the queue, the ids whose job was run to its end, what the jobs did, with the session it was done
  for, and the replies that went out.
\<close>

record 'st sessions =
  ss_running :: bool
  ss_queue :: 'st
  ss_live :: "nat option"
  ss_receiving :: bool
  ss_next :: nat
  ss_dispatchers :: "nat \<Rightarrow> dispatcher option"
  ss_accepted :: "string list"
  ss_runs :: "string list"
  ss_effects :: "(nat \<times> job_effect) list"
  ss_delivered :: "job_result_param list list"

definition sessions_init :: "'st \<Rightarrow> string list \<Rightarrow> 'st sessions" where
  "sessions_init st ids =
     \<lparr>ss_running = True, ss_queue = st, ss_live = None, ss_receiving = False, ss_next = 0, ss_dispatchers = Map.empty,
      ss_accepted = ids, ss_runs = [], ss_effects = [], ss_delivered = []\<rparr>"

section \<open>Sessions\<close>

text \<open>
  \<open>connect\<close> has succeeded and the receiving task runs; then \<open>connect_dispatcher\<close> has, and the
  dispatcher is spawned. When it fails, \<open>handle_connection\<close> returns and the program ends.
\<close>

definition open_session :: "'st sessions \<Rightarrow> 'st sessions" where
  "open_session s = s\<lparr>ss_live := Some (ss_next s), ss_receiving := True, ss_next := ss_next s + 1\<rparr>"

definition spawn_dispatcher :: "nat \<Rightarrow> 'st sessions \<Rightarrow> 'st sessions" where
  "spawn_dispatcher w s = s\<lparr>ss_dispatchers := (ss_dispatchers s)(w \<mapsto> Waiting)\<rparr>"

text \<open>\<open>recv\<close> fails or a reply cannot be sent: the receiving task ends. When \<open>select!\<close> sees it, the
  loop goes round.\<close>

definition end_receiving :: "'st sessions \<Rightarrow> 'st sessions" where
  "end_receiving s = s\<lparr>ss_receiving := False\<rparr>"

definition lose_session :: "'st sessions \<Rightarrow> 'st sessions" where
  "lose_session s = s\<lparr>ss_live := None\<rparr>"

definition accepted_id ::
  "'st redis \<Rightarrow> (nat, string) outcome \<Rightarrow> (string \<times> 'v \<Rightarrow> (string, string) outcome) \<Rightarrow> 'st \<Rightarrow>
   string \<Rightarrow> string \<Rightarrow> 'v \<Rightarrow> string list" where
  "accepted_id R now to_json st rid meth params =
     (if meth = ''dispatch_job''
      then (case (now, snd (add_queue_req R now to_json st rid params)) of
              (Ok ms, Ok u) \<Rightarrow> [nat_to_string ms @ ''-0'']
            | _ \<Rightarrow> [])
      else [])"

definition receive_step ::
  "'st redis \<Rightarrow> (nat, string) outcome \<Rightarrow> (string \<times> 'v \<Rightarrow> (string, string) outcome) \<Rightarrow>
   string \<Rightarrow> string \<Rightarrow> 'v \<Rightarrow> 'st sessions \<Rightarrow> 'st sessions" where
  "receive_step R now to_json rid meth params s =
     (case receive_request_task R now to_json (ss_queue s) rid meth params of
        Ok (st', reply) \<Rightarrow>
          s\<lparr>ss_queue := st',
            ss_accepted := ss_accepted s @ accepted_id R now to_json (ss_queue s) rid meth params\<rparr>
      | Err e \<Rightarrow> end_receiving s
      | Panic m \<Rightarrow> end_receiving s)"

section \<open>Dispatchers\<close>

definition take_step :: "'st redis \<Rightarrow> nat \<Rightarrow> 'st sessions \<Rightarrow> 'st sessions" where
  "take_step R w s =
     (if ss_dispatchers s w = Some Waiting then
        (case consume R (ss_queue s) QUEUE_TOPIC of
           Ok (m # ms) \<Rightarrow> s\<lparr>ss_dispatchers := (ss_dispatchers s)(w \<mapsto> Running m)\<rparr>
         | _ \<Rightarrow> s)
      else s)"

text \<open>The websocket of a session that is over is closed, or nobody reads the answers that come through
  it: a request over it fails.\<close>

definition session_env :: "job_env \<Rightarrow> 'st sessions \<Rightarrow> nat \<Rightarrow> job_env" where
  "session_env env s w =
     (if ss_live s = Some w \<and> ss_receiving s then env
      else env\<lparr>je_send := (\<lambda>res. Err (OPWsError WebsocketClosed))\<rparr>)"

text \<open>What the body of the loop does with one message before it acknowledges.\<close>

definition run_job ::
  "job_env \<Rightarrow> (string \<Rightarrow> (string \<times> 'v, string) outcome) \<Rightarrow>
   ('v \<Rightarrow> (dispatch_job_param list, string) outcome) \<Rightarrow> redis_message \<Rightarrow>
   (job_effect list \<times> task_status) option" where
  "run_job env decode_entry decode_job m =
     (case and_then (decode_entry (rm_data m)) (\<lambda>(rid, msg). decode_job msg) of
        Err e \<Rightarrow> Some ([], Continues)
      | Panic p \<Rightarrow> Some ([], TaskPanicked p)
      | Ok job \<Rightarrow>
          (case do_job env job of
             None \<Rightarrow> None
           | Some (effects, Panic p) \<Rightarrow> Some (effects, TaskPanicked p)
           | Some (effects, _) \<Rightarrow> Some (effects, Continues)))"

fun sent_results :: "job_effect list \<Rightarrow> job_result_param list list" where
  "sent_results [] = []"
| "sent_results (SendResult rs # effs) = rs # sent_results effs"
| "sent_results (SinkJob a b c d e # effs) = sent_results effs"

text \<open>The replies that get out: those the websocket of the open session takes.\<close>

definition delivered :: "job_env \<Rightarrow> job_effect list \<Rightarrow> job_result_param list list" where
  "delivered env effects = filter (\<lambda>rs. is_ok (je_send env rs)) (sent_results effects)"

text \<open>A job that never returns keeps its dispatcher where it is. The panic of the dispatcher of the
  open session ends \<open>handle_connection\<close>, and with it the program.\<close>

definition run_step ::
  "job_env \<Rightarrow> (string \<Rightarrow> (string \<times> 'v, string) outcome) \<Rightarrow>
   ('v \<Rightarrow> (dispatch_job_param list, string) outcome) \<Rightarrow> nat \<Rightarrow> 'st sessions \<Rightarrow> 'st sessions" where
  "run_step env decode_entry decode_job w s =
     (case ss_dispatchers s w of
        Some (Running m) \<Rightarrow>
          (case run_job (session_env env s w) decode_entry decode_job m of
             None \<Rightarrow> s
           | Some (effects, Continues) \<Rightarrow>
               s\<lparr>ss_dispatchers := (ss_dispatchers s)(w \<mapsto> Finished m),
                 ss_runs := ss_runs s @ [rm_id m],
                 ss_effects := ss_effects s @ map (Pair w) effects,
                 ss_delivered := ss_delivered s @ delivered (session_env env s w) effects\<rparr>
           | Some (effects, TaskPanicked p) \<Rightarrow>
               s\<lparr>ss_dispatchers := (ss_dispatchers s)(w \<mapsto> Ended),
                 ss_running := (ss_live s \<noteq> Some w),
                 ss_effects := ss_effects s @ map (Pair w) effects,
                 ss_delivered := ss_delivered s @ delivered (session_env env s w) effects\<rparr>)
      | _ \<Rightarrow> s)"

definition ack_step :: "'st redis \<Rightarrow> nat \<Rightarrow> 'st sessions \<Rightarrow> 'st sessions" where
  "ack_step R w s =
     (case ss_dispatchers s w of
        Some (Finished m) \<Rightarrow>
          s\<lparr>ss_queue := fst (acknowledge R (ss_queue s) QUEUE_TOPIC (rm_id m)),
            ss_dispatchers := (ss_dispatchers s)(w \<mapsto> Waiting)\<rparr>
      | _ \<Rightarrow> s)"

section \<open>Steps\<close>

inductive sessions_step ::
  "'st redis \<Rightarrow> job_env \<Rightarrow> (string \<times> 'v \<Rightarrow> (string, string) outcome) \<Rightarrow>
   (string \<Rightarrow> (string \<times> 'v, string) outcome) \<Rightarrow> ('v \<Rightarrow> (dispatch_job_param list, string) outcome) \<Rightarrow>
   'st sessions \<Rightarrow> 'st sessions \<Rightarrow> bool"
  for R env to_json decode_entry decode_job where
  step_open: "ss_running s \<Longrightarrow> ss_live s = None \<Longrightarrow>
     sessions_step R env to_json decode_entry decode_job s (open_session s)"
| step_spawn: "ss_running s \<Longrightarrow> ss_live s = Some w \<Longrightarrow> ss_dispatchers s w = None \<Longrightarrow>
     sessions_step R env to_json decode_entry decode_job s (spawn_dispatcher w s)"
| step_refused: "ss_running s \<Longrightarrow> ss_live s = Some w \<Longrightarrow> ss_dispatchers s w = None \<Longrightarrow>
     sessions_step R env to_json decode_entry decode_job s (s\<lparr>ss_running := False\<rparr>)"
| step_fail: "ss_running s \<Longrightarrow> ss_receiving s \<Longrightarrow>
     sessions_step R env to_json decode_entry decode_job s (end_receiving s)"
| step_lose: "ss_running s \<Longrightarrow> ss_live s = Some w \<Longrightarrow> ss_dispatchers s w \<noteq> None \<Longrightarrow> \<not> ss_receiving s \<Longrightarrow>
     sessions_step R env to_json decode_entry decode_job s (lose_session s)"
| step_receive: "ss_running s \<Longrightarrow> ss_receiving s \<Longrightarrow>
     sessions_step R env to_json decode_entry decode_job s (receive_step R now to_json rid meth params s)"
| step_take: "ss_running s \<Longrightarrow>
     sessions_step R env to_json decode_entry decode_job s (take_step R w s)"
| step_run: "ss_running s \<Longrightarrow>
     sessions_step R env to_json decode_entry decode_job s (run_step env decode_entry decode_job w s)"
| step_ack: "ss_running s \<Longrightarrow>
     sessions_step R env to_json decode_entry decode_job s (ack_step R w s)"

inductive sessions_reach ::
  "'st redis \<Rightarrow> job_env \<Rightarrow> (string \<times> 'v \<Rightarrow> (string, string) outcome) \<Rightarrow>
   (string \<Rightarrow> (string \<times> 'v, string) outcome) \<Rightarrow> ('v \<Rightarrow> (dispatch_job_param list, string) outcome) \<Rightarrow>
   'st sessions \<Rightarrow> 'st sessions \<Rightarrow> bool"
  for R env to_json decode_entry decode_job where
  reach_refl: "sessions_reach R env to_json decode_entry decode_job s s"
| reach_step: "sessions_reach R env to_json decode_entry decode_job s s' \<Longrightarrow>
     sessions_step R env to_json decode_entry decode_job s' s'' \<Longrightarrow>
     sessions_reach R env to_json decode_entry decode_job s s''"

inductive_cases sessions_stepE: "sessions_step R env to_json decode_entry decode_job s s'"

section \<open>One dispatcher\<close>

definition unfinished ::
  "('st \<Rightarrow> string \<Rightarrow> stream_entry list) \<Rightarrow> 'st sessions \<Rightarrow> redis_message list" where
  "unfinished entries s =
     (case ss_dispatchers s 0 of
        Some (Finished m) \<Rightarrow> tl (stream_messages entries (ss_queue s) QUEUE_TOPIC)
      | _ \<Rightarrow> stream_messages entries (ss_queue s) QUEUE_TOPIC)"

definition holds_first ::
  "('st \<Rightarrow> string \<Rightarrow> stream_entry list) \<Rightarrow> 'st sessions \<Rightarrow> bool" where
  "holds_first entries s \<longleftrightarrow>
     (\<forall>m. ss_dispatchers s 0 \<in> {Some (Running m), Some (Finished m)} \<longrightarrow>
        (\<exists>ms. stream_messages entries (ss_queue s) QUEUE_TOPIC = m # ms))"

definition sessions_inv ::
  "(string \<Rightarrow> nat \<times> nat) \<Rightarrow> ('st \<Rightarrow> string \<Rightarrow> stream_entry list) \<Rightarrow> ('st \<Rightarrow> string \<Rightarrow> nat \<times> nat) \<Rightarrow>
   'st sessions \<Rightarrow> bool" where
  "sessions_inv id_key entries last_id s \<longleftrightarrow>
     stream_ok id_key entries last_id (ss_queue s) QUEUE_TOPIC \<and>
     (\<forall>w. ss_dispatchers s w \<noteq> None \<or> ss_live s = Some w \<longrightarrow> w < ss_next s) \<and>
     holds_first entries s \<and>
     ss_accepted s = ss_runs s @ map rm_id (unfinished entries s) \<and>
     sorted_wrt (\<lambda>a b. id_key a < id_key b) (ss_accepted s) \<and>
     (\<forall>i \<in> set (ss_accepted s). id_key i \<le> last_id (ss_queue s) QUEUE_TOPIC)"

lemma sessions_step_next:
  "sessions_step R env to_json decode_entry decode_job s s' \<Longrightarrow> ss_next s \<le> ss_next s'"
  by (erule sessions_stepE)
    (auto simp: open_session_def spawn_dispatcher_def lose_session_def end_receiving_def
      receive_step_def take_step_def
      run_step_def ack_step_def split: outcome.splits option.splits list.splits dispatcher.splits
      task_status.splits prod.splits)

context redis_stream
begin

abbreviation sys_inv :: "'st sessions \<Rightarrow> bool" where
  "sys_inv \<equiv> sessions_inv id_key entries last_id"

text \<open>The invariant speaks of the queue, the dispatchers and two of the logs.\<close>

lemma inv_frame:
  assumes "sys_inv s" "ss_queue s' = ss_queue s" "ss_dispatchers s' = ss_dispatchers s"
    "ss_runs s' = ss_runs s" "ss_accepted s' = ss_accepted s" "ss_next s \<le> ss_next s'"
    "\<forall>w. ss_live s' = Some w \<longrightarrow> w < ss_next s'"
  shows "sys_inv s'"
proof -
  have "unfinished entries s' = unfinished entries s" "holds_first entries s' = holds_first entries s"
    by (simp_all only: unfinished_def holds_first_def assms(2,3))
  moreover have "\<forall>w. ss_dispatchers s' w \<noteq> None \<or> ss_live s' = Some w \<longrightarrow> w < ss_next s'"
    using assms(1,3,6,7) less_le_trans unfolding sessions_inv_def by metis
  ultimately show ?thesis
    using assms(1) unfolding sessions_inv_def assms(2,4,5) by auto
qed

lemma produce_last:
  assumes "produce R st t m = (st', Ok ())"
  shows "last_id st t < id_key (rm_id m) \<and> last_id st' t = id_key (rm_id m)"
  using assms xadd_ok by (auto simp: produce_def outcome_simps split: prod.splits)

lemma acknowledge_last:
  "acknowledge R st t i = (st', Ok ()) \<Longrightarrow> last_id st' t = last_id st t"
  using xdel_ok by (auto simp: acknowledge_def outcome_simps split: prod.splits)

lemma inv_take: "sys_inv s \<Longrightarrow> ss_next s \<le> 1 \<Longrightarrow> sys_inv (take_step R w s)"
proof (cases "\<exists>m ms. ss_dispatchers s w = Some Waiting \<and> consume R (ss_queue s) QUEUE_TOPIC = Ok (m # ms)")
  case True
  then obtain m ms where w: "ss_dispatchers s w = Some Waiting"
    and c: "consume R (ss_queue s) QUEUE_TOPIC = Ok (m # ms)" by blast
  assume inv: "sys_inv s" and "ss_next s \<le> 1"
  then have "w = 0" using w by (auto simp: sessions_inv_def)
  moreover have "m # ms = take 1 (stream_messages entries (ss_queue s) QUEUE_TOPIC)"
    using inv c stream_consume by (auto simp: sessions_inv_def)
  then have "\<exists>ms. stream_messages entries (ss_queue s) QUEUE_TOPIC = m # ms"
    by (cases "stream_messages entries (ss_queue s) QUEUE_TOPIC") auto
  ultimately show ?thesis
    using inv w c by (auto simp: sessions_inv_def take_step_def holds_first_def unfinished_def)
qed (auto simp: take_step_def split: outcome.splits list.splits)

lemma inv_run:
  assumes inv: "sys_inv s" and one: "ss_next s \<le> 1"
  shows "sys_inv (run_step env decode_entry decode_job w s)"
proof (cases "\<exists>m. ss_dispatchers s w = Some (Running m)")
  case True
  then obtain m where w: "ss_dispatchers s w = Some (Running m)" by blast
  then have w0: "w = 0" using inv one by (auto simp: sessions_inv_def)
  then obtain ms where ms: "stream_messages entries (ss_queue s) QUEUE_TOPIC = m # ms"
    using inv w by (auto simp: sessions_inv_def holds_first_def)
  have acc: "ss_accepted s = ss_runs s @ rm_id m # map rm_id ms"
    using inv w w0 ms by (simp add: sessions_inv_def unfinished_def)
  show ?thesis
  proof (cases "run_job (session_env env s w) decode_entry decode_job m")
    case None
    then show ?thesis using inv w by (simp add: run_step_def)
  next
    case (Some res)
    obtain effects status where res: "res = (effects, status)" by fastforce
    have ok: "stream_ok id_key entries last_id (ss_queue s) QUEUE_TOPIC"
      and dom: "\<forall>v. ss_dispatchers s v \<noteq> None \<or> ss_live s = Some v \<longrightarrow> v < ss_next s" "0 < ss_next s"
      and ids: "sorted_wrt (\<lambda>a b. id_key a < id_key b) (ss_accepted s)"
        "\<forall>i \<in> set (ss_accepted s). id_key i \<le> last_id (ss_queue s) QUEUE_TOPIC"
      using inv w w0 unfolding sessions_inv_def by (blast, blast, blast, blast, blast)
    show ?thesis
      unfolding sessions_inv_def
      using ok dom ids Some w w0 ms
      by (cases status)
        (simp_all only: res run_step_def dispatcher.simps option.simps prod.case task_status.simps
          holds_first_def unfinished_def, auto simp: acc)
  qed
qed (use inv in \<open>simp add: run_step_def split: option.splits dispatcher.splits\<close>)

lemma inv_ack:
  assumes acks: "\<And>st i. snd (acknowledge R st QUEUE_TOPIC i) = Ok ()"
    and inv: "sys_inv s" and one: "ss_next s \<le> 1"
  shows "sys_inv (ack_step R w s)"
proof (cases "\<exists>m. ss_dispatchers s w = Some (Finished m)")
  case True
  then obtain m where w: "ss_dispatchers s w = Some (Finished m)" by blast
  then have w0: "w = 0" using inv one by (auto simp: sessions_inv_def)
  then obtain ms where ms: "stream_messages entries (ss_queue s) QUEUE_TOPIC = m # ms"
    using inv w by (auto simp: sessions_inv_def holds_first_def)
  obtain st' where a: "acknowledge R (ss_queue s) QUEUE_TOPIC (rm_id m) = (st', Ok ())"
    using acks by (metis prod.collapse)
  have ok: "stream_ok id_key entries last_id (ss_queue s) QUEUE_TOPIC"
    using inv by (simp add: sessions_inv_def)
  have acc: "ss_accepted s = ss_runs s @ map rm_id ms"
    using inv w w0 ms by (simp add: sessions_inv_def unfinished_def)
  have st': "stream_ok id_key entries last_id st' QUEUE_TOPIC" "stream_messages entries st' QUEUE_TOPIC = ms"
    using mq.acknowledge_first [OF ok ms a] by simp_all
  note last = acknowledge_last [OF a]
  have dom: "\<forall>v. ss_dispatchers s v \<noteq> None \<or> ss_live s = Some v \<longrightarrow> v < ss_next s"
    and ids: "sorted_wrt (\<lambda>a b. id_key a < id_key b) (ss_accepted s)"
      "\<forall>i \<in> set (ss_accepted s). id_key i \<le> last_id (ss_queue s) QUEUE_TOPIC"
    using inv unfolding sessions_inv_def by (blast, blast, blast)
  have step: "ack_step R 0 s =
      s\<lparr>ss_queue := st', ss_dispatchers := (ss_dispatchers s)(0 \<mapsto> Waiting)\<rparr>"
    using w w0 a by (simp add: ack_step_def)
  show ?thesis
    unfolding sessions_inv_def w0 step
    using dom ids st' last w w0 by (auto simp: holds_first_def unfinished_def acc)
qed (use inv in \<open>simp add: ack_step_def split: option.splits dispatcher.splits\<close>)

lemma produce_fails: "snd (produce R st t m) \<noteq> Ok () \<Longrightarrow> fst (produce R st t m) = st"
  using laws unfolding redis_laws_def
  by (simp add: produce_def split: prod.splits) (metis and_then.simps(1) map_err.simps(1))

lemma add_queue_req_cases:
  assumes "add_queue_req R now to_json st rid p = (st', res)"
  shows "(\<exists>ms d. now = Ok ms \<and> to_json (rid, p) = Ok d \<and> res = Ok () \<and>
      produce R st QUEUE_TOPIC \<lparr>rm_id = nat_to_string ms @ ''-0'', rm_data = d\<rparr> = (st', Ok ())) \<or>
    res \<noteq> Ok () \<and> st' = st"
  using assms produce_fails [of st QUEUE_TOPIC]
  by (cases now; cases "to_json (rid, p)")
    (auto simp: add_queue_req_def redis_message_new_def split: prod.splits outcome.splits,
      (metis fst_conv snd_conv outcome.distinct(1) outcome.distinct(3))+)

lemma inv_accept:
  assumes inv: "sys_inv s" and m: "produce R (ss_queue s) QUEUE_TOPIC m = (st', Ok ())"
  shows "sys_inv (s\<lparr>ss_queue := st', ss_accepted := ss_accepted s @ [rm_id m]\<rparr>)"
proof -
  let ?s = "s\<lparr>ss_queue := st', ss_accepted := ss_accepted s @ [rm_id m]\<rparr>"
  have dom: "\<forall>v. ss_dispatchers s v \<noteq> None \<or> ss_live s = Some v \<longrightarrow> v < ss_next s"
    and ok: "stream_ok id_key entries last_id (ss_queue s) QUEUE_TOPIC" and hf: "holds_first entries s"
    and acc: "ss_accepted s = ss_runs s @ map rm_id (unfinished entries s)"
    and ids: "sorted_wrt (\<lambda>a b. id_key a < id_key b) (ss_accepted s)"
      "\<forall>i \<in> set (ss_accepted s). id_key i \<le> last_id (ss_queue s) QUEUE_TOPIC"
    using inv [unfolded sessions_inv_def] by (blast, blast, blast, blast, blast, blast)
  have st': "stream_ok id_key entries last_id st' QUEUE_TOPIC"
      "stream_messages entries st' QUEUE_TOPIC = stream_messages entries (ss_queue s) QUEUE_TOPIC @ [m]"
    using stream_produce [OF ok m] by simp_all
  have last: "last_id (ss_queue s) QUEUE_TOPIC < id_key (rm_id m)"
      "last_id st' QUEUE_TOPIC = id_key (rm_id m)"
    using produce_last [OF m] by simp_all
  have "holds_first entries ?s" using hf st'(2) by (auto simp: holds_first_def)
  moreover have "unfinished entries ?s = unfinished entries s @ [m]"
    using hf st'(2) by (auto simp: unfinished_def holds_first_def split: option.splits dispatcher.splits)
  moreover have "\<forall>i \<in> set (ss_accepted s). id_key i < id_key (rm_id m)"
    using ids(2) last(1) by fastforce
  ultimately show ?thesis
    unfolding sessions_inv_def
    using dom st'(1) acc ids(1) last(2) by (simp add: sorted_wrt_append less_imp_le)
qed

text \<open>What the receiving task does to the sessions: nothing, it ends, or one message is accepted.\<close>

lemma receive_effect:
  "receive_step R now to_json rid meth params s \<in> {s, end_receiving s} \<or>
   (\<exists>m st'. produce R (ss_queue s) QUEUE_TOPIC m = (st', Ok ()) \<and>
      receive_step R now to_json rid meth params s =
        s\<lparr>ss_queue := st', ss_accepted := ss_accepted s @ [rm_id m]\<rparr>)"
proof (cases "meth = ''dispatch_job''")
  case False
  then show ?thesis by (simp add: receive_step_def receive_request_task_def accepted_id_def)
next
  case True
  obtain st' res where q: "add_queue_req R now to_json (ss_queue s) rid params = (st', res)" by fastforce
  consider (queued) ms d where "now = Ok ms" "res = Ok ()"
      "produce R (ss_queue s) QUEUE_TOPIC \<lparr>rm_id = nat_to_string ms @ ''-0'', rm_data = d\<rparr> = (st', Ok ())"
    | (failed) "res \<noteq> Ok ()" "st' = ss_queue s"
    using add_queue_req_cases [OF q] by blast
  then show ?thesis
  proof cases
    case queued
    then have "receive_step R now to_json rid meth params s =
        s\<lparr>ss_queue := st', ss_accepted := ss_accepted s @ [nat_to_string ms @ ''-0'']\<rparr>"
      using True q by (simp add: receive_step_def receive_request_task_def accepted_id_def)
    with queued(3) show ?thesis
      by (intro disjI2 exI [of _ "\<lparr>rm_id = nat_to_string ms @ ''-0'', rm_data = d\<rparr>"] exI [of _ st']) simp
  next
    case failed
    then show ?thesis
      using True q
      by (cases res) (auto simp: receive_step_def receive_request_task_def accepted_id_def
          split: outcome.splits)
  qed
qed

lemma inv_receive:
  assumes inv: "sys_inv s"
  shows "sys_inv (receive_step R now to_json rid meth params s)"
proof -
  have "\<forall>v. ss_live s = Some v \<longrightarrow> v < ss_next s" using inv unfolding sessions_inv_def by blast
  then have "sys_inv (end_receiving s)" by (auto intro!: inv_frame [OF inv] simp: end_receiving_def)
  then show ?thesis
    using receive_effect [of now to_json rid meth params s] inv inv_accept [OF inv] by fastforce
qed

lemma inv_step:
  assumes "sessions_step R env to_json decode_entry decode_job s s'" "sys_inv s" "ss_next s \<le> 1"
    and "\<And>st i. snd (acknowledge R st QUEUE_TOPIC i) = Ok ()"
  shows "sys_inv s'"
  using assms(1)
proof (cases rule: sessions_step.cases)
  case step_open
  then show ?thesis by (auto intro!: inv_frame [OF assms(2)] simp: open_session_def)
next
  case (step_spawn w)
  then have "w = 0" "ss_next s = 1" using assms(2,3) by (auto simp: sessions_inv_def)
  then show ?thesis using step_spawn assms(2)
    by (auto simp: sessions_inv_def spawn_dispatcher_def holds_first_def unfinished_def)
next
  case step_refused
  then show ?thesis using assms(2) by (intro inv_frame [OF assms(2)]) (auto simp: sessions_inv_def)
next
  case step_fail
  then show ?thesis using assms(2) by (intro inv_frame [OF assms(2)]) (auto simp: end_receiving_def sessions_inv_def)
next
  case step_lose
  then show ?thesis by (auto intro!: inv_frame [OF assms(2)] simp: lose_session_def)
qed (use assms in \<open>auto intro: inv_receive inv_take inv_run inv_ack\<close>)

lemma inv_reach:
  assumes "sessions_reach R env to_json decode_entry decode_job s0 s" "sys_inv s0" "ss_next s \<le> 1"
    and "\<And>st i. snd (acknowledge R st QUEUE_TOPIC i) = Ok ()"
  shows "sys_inv s"
  using assms(1-3)
proof (induction rule: sessions_reach.induct)
  case (reach_step s0 s' s'')
  then have "ss_next s' \<le> 1" using sessions_step_next le_trans by blast
  then show ?case using reach_step inv_step [OF reach_step.hyps(2)] assms(4) by blast
qed

lemma inv_init:
  assumes "stream_ok id_key entries last_id st QUEUE_TOPIC"
  shows "sys_inv (sessions_init st (map rm_id (stream_messages entries st QUEUE_TOPIC)))"
proof -
  let ?es = "entries st QUEUE_TOPIC"
  have ids: "map rm_id (stream_messages entries st QUEUE_TOPIC) = map fst ?es"
    using assms by (simp add: stream_ok_def stream_messages_def stream_message_ids)
  show ?thesis
    using assms unfolding ids
    by (simp add: sessions_inv_def sessions_init_def holds_first_def unfinished_def ids
        stream_ok_def sorted_wrt_map)
qed

end

lemma distinct_by_key: "sorted_wrt (\<lambda>a b. key a < (key b :: 'a::order)) is \<Longrightarrow> distinct is"
  by (induction "is") force+

section \<open>Properties\<close>


section \<open>Two dispatchers\<close>

text \<open>How a reply is sent makes no difference to the dispatcher, unless sending panics.\<close>

lemma do_job_send:
  assumes "do_job env job = Some (effects, r)" "\<And>m. r \<noteq> Panic m"
  shows "do_job (env\<lparr>je_send := (\<lambda>res. Err e)\<rparr>) job = Some (effects, r)"
proof -
  have reply: "job_reply (env\<lparr>je_send := (\<lambda>res. Err e)\<rparr>) params vrf = job_reply env params vrf" for params vrf
    by (cases env) (simp add: job_reply_def Let_def)
  have finish: "finish_job env res = (effs, r) \<Longrightarrow>
      finish_job (env\<lparr>je_send := (\<lambda>res. Err e)\<rparr>) res = (effs, r)" for res effs
    using assms(2) [of "case je_send env res of Panic m \<Rightarrow> m | _ \<Rightarrow> []"]
    by (auto simp: finish_job_def Let_def split: list.splits outcome.splits)
  show ?thesis
    using assms(1) finish
    by (auto simp: do_job_def reply split: if_splits list.splits option.splits outcome.splits)
qed

lemma run_job_session:
  assumes "run_job env decode_entry decode_job m = Some (effects, Continues)"
  shows "run_job (session_env env s w) decode_entry decode_job m = Some (effects, Continues)"
proof (cases "ss_live s = Some w \<and> ss_receiving s")
  case False
  then show ?thesis
    using assms do_job_send [of env]
    by (auto simp: run_job_def session_env_def split: outcome.splits option.splits prod.splits)
qed (use assms in \<open>simp add: session_env_def\<close>)

lemma delivered_closed: "ss_live s \<noteq> Some w \<Longrightarrow> delivered (session_env env s w) effects = []"
  by (simp add: delivered_def session_env_def)

lemma reach_via:
  assumes "sessions_reach R env to_json decode_entry decode_job s s'"
    "sessions_step R env to_json decode_entry decode_job s' s''" "s'' = t"
  shows "sessions_reach R env to_json decode_entry decode_job s t"
  using assms reach_step by blast

lemma reach_trans:
  assumes "sessions_reach R env to_json decode_entry decode_job s' s''"
    and "sessions_reach R env to_json decode_entry decode_job s s'"
  shows "sessions_reach R env to_json decode_entry decode_job s s''"
  using assms by (induction rule: sessions_reach.induct) (auto intro: sessions_reach.intros)

text \<open>One round of a dispatcher on its own is a run of the system.\<close>

lemma consume_one:
  assumes "redis_laws R id_key entries last_id" "consume R st topic = Ok l"
  shows "length l \<le> 1"
proof -
  have one: "length (List.map_filter message_of (take 1 es)) \<le> 1" for es
    using length_filter_le [of _ "take 1 es"] by (simp add: List.map_filter_def le_trans)
  obtain keys where keys: "xread R st [topic] [''0''] 1 = Ok keys"
      "l = (case keys of [] \<Rightarrow> [] | k # _ \<Rightarrow> List.map_filter message_of (snd k))"
    using assms(2)
    by (cases "xread R st [topic] [''0''] 1") (auto simp: consume_def outcome_simps split: list.splits)
  then have "keys = (if entries st topic = [] then [] else [(topic, take 1 (entries st topic))])"
    using assms(1) unfolding redis_laws_def by blast
  with one show ?thesis by (simp add: keys(2))
qed

lemma run_step_Running:
  assumes "ss_dispatchers s w = Some (Running m)" "ss_live s = l"
    and "run_job (if l = Some w \<and> ss_receiving s then env else env\<lparr>je_send := (\<lambda>res. Err (OPWsError WebsocketClosed))\<rparr>)
      decode_entry decode_job m = Some (effects, r)"
  shows "ss_queue (run_step env decode_entry decode_job w s) = ss_queue s"
    "ss_live (run_step env decode_entry decode_job w s) = l"
    "ss_receiving (run_step env decode_entry decode_job w s) = ss_receiving s"
    "ss_next (run_step env decode_entry decode_job w s) = ss_next s"
    "ss_effects (run_step env decode_entry decode_job w s) = ss_effects s @ map (Pair w) effects"
    "ss_delivered (run_step env decode_entry decode_job w s) =
       ss_delivered s @ delivered (session_env env s w) effects"
    "ss_running (run_step env decode_entry decode_job w s) =
       (if r = Continues then ss_running s else l \<noteq> Some w)"
    "ss_runs (run_step env decode_entry decode_job w s) =
       (if r = Continues then ss_runs s @ [rm_id m] else ss_runs s)"
    "ss_dispatchers (run_step env decode_entry decode_job w s) =
       (ss_dispatchers s)(w \<mapsto> (if r = Continues then Finished m else Ended))"
proof -
  have "run_job (session_env env s w) decode_entry decode_job m = Some (effects, r)"
    using assms(2,3) by (simp add: session_env_def)
  note step = run_step_def assms(1) this
  show "ss_queue (run_step env decode_entry decode_job w s) = ss_queue s"
    "ss_live (run_step env decode_entry decode_job w s) = l"
    "ss_receiving (run_step env decode_entry decode_job w s) = ss_receiving s"
    "ss_next (run_step env decode_entry decode_job w s) = ss_next s"
    "ss_effects (run_step env decode_entry decode_job w s) = ss_effects s @ map (Pair w) effects"
    "ss_delivered (run_step env decode_entry decode_job w s) =
       ss_delivered s @ delivered (session_env env s w) effects"
    "ss_running (run_step env decode_entry decode_job w s) =
       (if r = Continues then ss_running s else l \<noteq> Some w)"
    "ss_runs (run_step env decode_entry decode_job w s) =
       (if r = Continues then ss_runs s @ [rm_id m] else ss_runs s)"
    "ss_dispatchers (run_step env decode_entry decode_job w s) =
       (ss_dispatchers s)(w \<mapsto> (if r = Continues then Finished m else Ended))"
    using assms(2) by (cases r; simp add: step)+
qed

text \<open>What a round of the loop does, by what it reads.\<close>

lemma dispatch_round_idle:
  assumes "redis_laws R id_key entries last_id" "\<And>st p. consume R st QUEUE_TOPIC \<noteq> Panic p"
    and "\<nexists>m. consume R st QUEUE_TOPIC = Ok [m]"
  shows "dispatch_round R env decode_entry decode_job st = Some (st, [], Continues)"
proof (cases "consume R st QUEUE_TOPIC")
  case (Ok l)
  then have "l = []" using assms(3) consume_one [OF assms(1) Ok] by (cases l) auto
  then show ?thesis using Ok by (simp add: dispatch_round_def)
qed (use assms(2) in \<open>auto simp: dispatch_round_def\<close>)

lemma dispatch_round_busy:
  assumes "consume R st QUEUE_TOPIC = Ok [m]"
    and "dispatch_round R env decode_entry decode_job st = Some (st', effects, status)"
  shows "run_job env decode_entry decode_job m = Some (effects, status)"
    "st' = (if status = Continues then fst (acknowledge R st QUEUE_TOPIC (rm_id m)) else st)"
  using assms
  by (auto simp: dispatch_round_def run_job_def Let_def split: outcome.splits option.splits prod.splits)

lemma round_reach:
  assumes laws: "redis_laws R id_key entries last_id"
    and s: "ss_running s" "ss_receiving s" "ss_live s = Some w" "ss_dispatchers s w = Some Waiting"
    and reads: "\<And>st p. consume R st QUEUE_TOPIC \<noteq> Panic p"
    and round: "dispatch_round R env decode_entry decode_job (ss_queue s) = Some (st', effects, status)"
  shows "\<exists>s'. sessions_reach R env to_json decode_entry decode_job s s' \<and> ss_queue s' = st' \<and>
    ss_effects s' = ss_effects s @ map (Pair w) effects \<and> ss_running s' = (status = Continues) \<and>
    (status = Continues \<longrightarrow> ss_receiving s' \<and> ss_live s' = Some w \<and> ss_dispatchers s' w = Some Waiting)"
proof (cases "\<exists>m. consume R (ss_queue s) QUEUE_TOPIC = Ok [m]")
  case False
  then have "dispatch_round R env decode_entry decode_job (ss_queue s) = Some (ss_queue s, [], Continues)"
    by (rule dispatch_round_idle [OF laws reads])
  then show ?thesis using round s by (intro exI [of _ s]) (auto intro: reach_refl)
next
  case True
  then obtain m where m: "consume R (ss_queue s) QUEUE_TOPIC = Ok [m]" by blast
  let ?s1 = "take_step R w s"
  let ?s2 = "run_step env decode_entry decode_job w ?s1"
  let ?s3 = "ack_step R w ?s2"
  have s1: "?s1 = s\<lparr>ss_dispatchers := (ss_dispatchers s)(w \<mapsto> Running m)\<rparr>"
    using s m by (simp add: take_step_def)
  have r1: "sessions_reach R env to_json decode_entry decode_job s ?s1"
    using s(1) by (intro reach_step [OF reach_refl] step_take)
  have r2: "sessions_reach R env to_json decode_entry decode_job s ?s2"
    using s(1) by (intro reach_step [OF r1] step_run) (simp add: s1)
  have r3: "ss_running ?s2 \<Longrightarrow> sessions_reach R env to_json decode_entry decode_job s ?s3"
    by (intro reach_step [OF r2] step_ack)
  note run = dispatch_round_busy(1) [OF m round] and r = dispatch_round_busy(2) [OF m round]
  have f1: "ss_queue ?s1 = ss_queue s" "ss_effects ?s1 = ss_effects s" "ss_running ?s1"
      "ss_dispatchers ?s1 w = Some (Running m)" "ss_live ?s1 = Some w" "ss_receiving ?s1"
    using s by (simp_all add: s1)
  have "run_job (if Some w = Some w \<and> ss_receiving ?s1 then env else env\<lparr>je_send := (\<lambda>res. Err (OPWsError WebsocketClosed))\<rparr>)
      decode_entry decode_job m = Some (effects, status)"
    using run f1(6) by simp
  note s2 = run_step_Running [OF f1(4,5) this]
  show ?thesis
  proof (cases status)
    case Continues
    then have "ss_running ?s2" by (simp add: s2 f1)
    moreover have "ss_queue ?s3 = st'" "ss_effects ?s3 = ss_effects s @ map (Pair w) effects"
      "ss_running ?s3" "ss_receiving ?s3" "ss_live ?s3 = Some w" "ss_dispatchers ?s3 w = Some Waiting"
      using Continues r by (simp_all add: ack_step_def s2 f1)
    ultimately show ?thesis using r3 r Continues by blast
  next
    case (TaskPanicked p)
    then have "ss_queue ?s2 = st'" "ss_effects ?s2 = ss_effects s @ map (Pair w) effects"
      "\<not> ss_running ?s2"
      using r by (simp_all add: s2 f1)
    then show ?thesis using r2 r TaskPanicked by blast
  qed
qed


text \<open>A dispatcher that has the queue for itself.\<close>

lemma round_steps:
  assumes s: "ss_running s" "ss_dispatchers s w = Some Waiting"
    and c: "consume R (ss_queue s) QUEUE_TOPIC = Ok [m]"
    and run: "run_job env decode_entry decode_job m = Some (effects, Continues)"
    and ack: "acknowledge R (ss_queue s) QUEUE_TOPIC (rm_id m) = (st', Ok ())"
  defines "s1 \<equiv> take_step R w s" and "s2 \<equiv> run_step env decode_entry decode_job w (take_step R w s)"
  shows "ss_running s1" "ss_running s2" "ss_running (ack_step R w s2)"
    "ss_next (ack_step R w s2) = ss_next s" "ss_queue (ack_step R w s2) = st'"
    "ss_dispatchers (ack_step R w s2) = ss_dispatchers s"
    "ss_runs (ack_step R w s2) = ss_runs s @ [rm_id m]"
    "ss_accepted (ack_step R w s2) = ss_accepted s"
proof -
  have s1: "take_step R w s = s\<lparr>ss_dispatchers := (ss_dispatchers s)(w \<mapsto> Running m)\<rparr>"
    using s c by (simp add: take_step_def)
  have s2: "s2 = s1\<lparr>ss_dispatchers := (ss_dispatchers s)(w \<mapsto> Finished m), ss_runs := ss_runs s @ [rm_id m],
      ss_effects := ss_effects s @ map (Pair w) effects,
      ss_delivered := ss_delivered s @ delivered (session_env env s1 w) effects\<rparr>"
    by (simp add: s2_def s1_def run_step_def run_job_session [OF run] s1)
  show "ss_running s1" "ss_running s2" "ss_running (ack_step R w s2)"
    "ss_next (ack_step R w s2) = ss_next s" "ss_queue (ack_step R w s2) = st'"
    "ss_dispatchers (ack_step R w s2) = ss_dispatchers s"
    "ss_runs (ack_step R w s2) = ss_runs s @ [rm_id m]"
    "ss_accepted (ack_step R w s2) = ss_accepted s"
    unfolding s2 using s ack by (auto simp: ack_step_def s1_def s1)
qed

lemma round_run:
  assumes "ss_running s" "ss_dispatchers s w = Some Waiting"
    and "consume R (ss_queue s) QUEUE_TOPIC = Ok [m]"
    and "run_job env decode_entry decode_job m = Some (effects, Continues)"
    and "acknowledge R (ss_queue s) QUEUE_TOPIC (rm_id m) = (st', Ok ())"
  shows "\<exists>s'. sessions_reach R env to_json decode_entry decode_job s s' \<and> ss_running s' \<and>
    ss_next s' = ss_next s \<and> ss_queue s' = st' \<and> ss_dispatchers s' = ss_dispatchers s \<and>
    ss_runs s' = ss_runs s @ [rm_id m] \<and> ss_accepted s' = ss_accepted s"
proof -
  note round = round_steps [OF assms]
  have "sessions_reach R env to_json decode_entry decode_job s
      (ack_step R w (run_step env decode_entry decode_job w (take_step R w s)))"
    by (rule reach_step [OF reach_step [OF reach_step [OF reach_refl step_take] step_run] step_ack])
      (use assms(1) round(1,2) in simp_all)
  with round(3-8) show ?thesis by blast
qed

context redis_stream
begin

lemma drain_reach:
  assumes acks: "\<And>st i. snd (acknowledge R st QUEUE_TOPIC i) = Ok ()"
    and reads: "\<And>st. \<exists>l. consume R st QUEUE_TOPIC = Ok l"
    and s: "stream_ok id_key entries last_id (ss_queue s) QUEUE_TOPIC" "ss_running s"
      "ss_dispatchers s w = Some Waiting"
    and jobs: "\<And>m. m \<in> set (stream_messages entries (ss_queue s) QUEUE_TOPIC) \<Longrightarrow>
      \<exists>effects. run_job env decode_entry decode_job m = Some (effects, Continues)"
  shows "\<exists>s'. sessions_reach R env to_json decode_entry decode_job s s' \<and>
    ss_accepted s' = ss_accepted s \<and>
    ss_runs s' = ss_runs s @ map rm_id (stream_messages entries (ss_queue s) QUEUE_TOPIC) \<and>
    stream_messages entries (ss_queue s') QUEUE_TOPIC = []"
  using s jobs
proof (induction "stream_messages entries (ss_queue s) QUEUE_TOPIC" arbitrary: s)
  case Nil
  then show ?case by (intro exI [of _ s]) (simp add: reach_refl)
next
  case (Cons m ms)
  note ok = Cons.prems(1) and first = Cons.hyps(2) [symmetric]
  obtain effects where run: "run_job env decode_entry decode_job m = Some (effects, Continues)"
    using Cons.prems(4) [of m] first by (metis list.set_intros(1))
  obtain st' where ack: "acknowledge R (ss_queue s) QUEUE_TOPIC (rm_id m) = (st', Ok ())"
    using acks by (metis prod.collapse)
  have c: "consume R (ss_queue s) QUEUE_TOPIC = Ok [m]"
    using reads stream_consume_first [OF ok first] by metis
  have st': "stream_ok id_key entries last_id st' QUEUE_TOPIC" "stream_messages entries st' QUEUE_TOPIC = ms"
    using mq.acknowledge_first [OF ok first ack] by simp_all
  obtain s1 where s1: "sessions_reach R env to_json decode_entry decode_job s s1" "ss_running s1"
      "ss_queue s1 = st'" "ss_dispatchers s1 = ss_dispatchers s" "ss_accepted s1 = ss_accepted s"
      "ss_runs s1 = ss_runs s @ [rm_id m]"
    using round_run [OF Cons.prems(2,3) c run ack] by blast
  have jobs: "\<exists>effects. run_job env decode_entry decode_job n = Some (effects, Continues)"
    if "n \<in> set (stream_messages entries (ss_queue s1) QUEUE_TOPIC)" for n
    using that Cons.prems(4) [of n] first s1(3) st'(2) by (metis list.set_intros(2))
  have "ms = stream_messages entries (ss_queue s1) QUEUE_TOPIC"
    "stream_ok id_key entries last_id (ss_queue s1) QUEUE_TOPIC" "ss_dispatchers s1 w = Some Waiting"
    using st' s1(3,4) Cons.prems(3) by simp_all
  from Cons.hyps(1) [OF this(1,2) s1(2) this(3) jobs]
  obtain s' where s': "sessions_reach R env to_json decode_entry decode_job s1 s'"
      "ss_accepted s' = ss_accepted s1"
      "ss_runs s' = ss_runs s1 @ map rm_id (stream_messages entries (ss_queue s1) QUEUE_TOPIC)"
      "stream_messages entries (ss_queue s') QUEUE_TOPIC = []"
    by blast
  then show ?case
    using reach_trans [OF s'(1) s1(1)] s1(3,5,6) st'(2) first by (intro exI [of _ s']) simp
qed

end

text \<open>With one session every accepted job gets its turn: from any reachable state in which the
  dispatcher waits, when the server answers its reads and every job still in the queue returns, the
  dispatcher's own steps lead to an empty queue, and the ids it has run by then are all the ids
  the queue ever accepted, in order - also when the session has been lost meanwhile.\<close>

theorem accepted_jobs_finish:
  assumes "redis_laws R id_key entries last_id" "stream_ok id_key entries last_id st0 QUEUE_TOPIC"
    and "\<And>st i. snd (acknowledge R st QUEUE_TOPIC i) = Ok ()" "\<And>st. \<exists>l. consume R st QUEUE_TOPIC = Ok l"
    and "sessions_reach R env to_json decode_entry decode_job
           (sessions_init st0 (map rm_id (stream_messages entries st0 QUEUE_TOPIC))) s"
    and "ss_next s \<le> 1" "ss_running s" "ss_dispatchers s 0 = Some Waiting"
    and "\<And>m. m \<in> set (stream_messages entries (ss_queue s) QUEUE_TOPIC) \<Longrightarrow>
      \<exists>effects. run_job env decode_entry decode_job m = Some (effects, Continues)"
  shows "\<exists>s'. sessions_reach R env to_json decode_entry decode_job s s' \<and>
    ss_accepted s' = ss_accepted s \<and> ss_runs s' = ss_accepted s \<and>
    stream_messages entries (ss_queue s') QUEUE_TOPIC = []"
proof -
  have rs: "redis_stream R id_key entries last_id" using assms(1) by (rule redis_stream.intro)
  have inv: "sessions_inv id_key entries last_id s"
    using redis_stream.inv_reach [OF rs assms(5) redis_stream.inv_init [OF rs assms(2)] assms(6,3)] .
  then have "stream_ok id_key entries last_id (ss_queue s) QUEUE_TOPIC"
    and "ss_accepted s = ss_runs s @ map rm_id (stream_messages entries (ss_queue s) QUEUE_TOPIC)"
    using assms(8) by (simp_all add: sessions_inv_def unfinished_def)
  then show ?thesis
    using redis_stream.drain_reach [OF rs assms(3,4) _ assms(7-9)] by simp
qed

text \<open>A session that is lost after its dispatcher was spawned, and the one opened next.\<close>

definition after_reconnect ::
  "'st \<Rightarrow> string list \<Rightarrow> dispatcher \<Rightarrow> dispatcher \<Rightarrow> 'st sessions" where
  "after_reconnect st ids d0 d1 =
     (sessions_init st ids)\<lparr>ss_live := Some 1, ss_receiving := True, ss_next := 2, ss_dispatchers := [0 \<mapsto> d0, 1 \<mapsto> d1]\<rparr>"

lemma after_reconnect_simps [simp]:
  "ss_running (after_reconnect st ids d0 d1)" "ss_queue (after_reconnect st ids d0 d1) = st"
  "ss_live (after_reconnect st ids d0 d1) = Some 1" "ss_receiving (after_reconnect st ids d0 d1)"
  "ss_dispatchers (after_reconnect st ids d0 d1) = [0 \<mapsto> d0, 1 \<mapsto> d1]"
  "ss_runs (after_reconnect st ids d0 d1) = []" "ss_effects (after_reconnect st ids d0 d1) = []"
  "ss_delivered (after_reconnect st ids d0 d1) = []"
  by (simp_all add: after_reconnect_def sessions_init_def)

lemma reconnect_waiting:
  "sessions_reach R env to_json decode_entry decode_job (sessions_init st ids)
     (after_reconnect st ids Waiting Waiting)"
proof -
  let ?s = "sessions_init st ids"
  let ?reach = "sessions_reach R env to_json decode_entry decode_job ?s"
  have "?reach (open_session ?s)"
    by (intro reach_step [OF reach_refl] step_open) (simp_all add: sessions_init_def)
  then have "?reach (spawn_dispatcher 0 (open_session ?s))"
    by (rule reach_step, intro step_spawn) (simp_all add: sessions_init_def open_session_def)
  then have "?reach (end_receiving (spawn_dispatcher 0 (open_session ?s)))"
    by (rule reach_step, intro step_fail)
      (simp_all add: sessions_init_def open_session_def spawn_dispatcher_def)
  then have "?reach (lose_session (end_receiving (spawn_dispatcher 0 (open_session ?s))))"
    by (rule reach_step, intro step_lose)
      (simp_all add: sessions_init_def open_session_def spawn_dispatcher_def end_receiving_def)
  then have "?reach (open_session (lose_session (end_receiving (spawn_dispatcher 0 (open_session ?s)))))"
    by (rule reach_step, intro step_open)
      (simp_all add: sessions_init_def open_session_def spawn_dispatcher_def end_receiving_def lose_session_def)
  then have "?reach (spawn_dispatcher 1
      (open_session (lose_session (end_receiving (spawn_dispatcher 0 (open_session ?s))))))"
    by (rule reach_step, intro step_spawn)
      (simp_all add: sessions_init_def open_session_def spawn_dispatcher_def end_receiving_def lose_session_def)
  moreover have "spawn_dispatcher 1
      (open_session (lose_session (end_receiving (spawn_dispatcher 0 (open_session ?s))))) =
      after_reconnect st ids Waiting Waiting"
    by (auto simp: sessions_init_def open_session_def spawn_dispatcher_def end_receiving_def
        lose_session_def after_reconnect_def)
  ultimately show ?thesis by simp
qed

lemma reconnect_take_0:
  assumes "consume R st QUEUE_TOPIC = Ok (m # ms)"
  shows "sessions_reach R env to_json decode_entry decode_job (sessions_init st ids)
     (after_reconnect st ids (Running m) Waiting)"
  by (rule reach_via [OF reconnect_waiting step_take [where w = 0]])
    (use assms in \<open>auto simp: after_reconnect_def sessions_init_def take_step_def\<close>)

lemma reconnect_take_1:
  assumes "consume R st QUEUE_TOPIC = Ok (m # ms)"
  shows "sessions_reach R env to_json decode_entry decode_job (sessions_init st ids)
     (after_reconnect st ids (Running m) (Running m))"
  by (rule reach_via [OF reconnect_take_0 [OF assms] step_take [where w = 1]])
    (use assms in \<open>auto simp: after_reconnect_def sessions_init_def take_step_def\<close>)

text \<open>The run of the dispatcher of the lost session.\<close>

lemma run_old:
  assumes "run_job env decode_entry decode_job m = Some (effects, Continues)"
  shows "run_step env decode_entry decode_job 0 (after_reconnect st ids (Running m) d) =
    (after_reconnect st ids (Finished m) d)\<lparr>ss_runs := [rm_id m], ss_effects := map (Pair 0) effects\<rparr>"
  by (simp add: run_step_def run_job_session [OF assms] delivered_closed)
    (auto simp: after_reconnect_def sessions_init_def)

text \<open>After a reconnection a job can be run twice: nothing stops the dispatcher of the session that
  was lost, and both dispatchers read the first message of the queue, which stays there until one
  of them acknowledges it. Both run its job and store its result; only the reply of the open session
  goes out.\<close>

theorem reconnect_runs_job_twice:
  assumes "consume R st QUEUE_TOPIC = Ok (m # ms)"
    and "run_job env decode_entry decode_job m = Some (effects, Continues)"
  shows "\<exists>s. sessions_reach R env to_json decode_entry decode_job (sessions_init st ids) s \<and>
    ss_runs s = [rm_id m, rm_id m] \<and>
    ss_effects s = map (Pair 0) effects @ map (Pair 1) effects \<and>
    ss_delivered s = delivered env effects"
proof -
  let ?s = "after_reconnect st ids (Running m) (Running m)"
  let ?s0 = "run_step env decode_entry decode_job 0 ?s"
  let ?s1 = "run_step env decode_entry decode_job 1 ?s0"
  have "sessions_reach R env to_json decode_entry decode_job (sessions_init st ids) ?s0"
    by (rule reach_step [OF reconnect_take_1 [OF assms(1)]], rule step_run) simp
  then have "sessions_reach R env to_json decode_entry decode_job (sessions_init st ids) ?s1"
    by (rule reach_step, intro step_run)
      (simp add: run_old [OF assms(2)])
  moreover have "ss_runs ?s1 = [rm_id m, rm_id m]"
      "ss_effects ?s1 = map (Pair 0) effects @ map (Pair 1) effects"
      "ss_delivered ?s1 = delivered env effects"
    unfolding run_old [OF assms(2)] by (simp_all add: run_step_def session_env_def assms(2))
  ultimately show ?thesis by blast
qed

text \<open>After a reconnection a reply can be lost: the dispatcher of the lost session can take a job
  that arrives for the open one, run it, fail to send its result, and acknowledge it. The message
  is gone, no reply is sent, and the dispatcher of the open session never sees it.\<close>

theorem reconnect_loses_reply:
  assumes "redis_laws R id_key entries last_id" "stream_ok id_key entries last_id st QUEUE_TOPIC"
    and "stream_messages entries st QUEUE_TOPIC = m # ms" "consume R st QUEUE_TOPIC = Ok l"
    and "acknowledge R st QUEUE_TOPIC (rm_id m) = (st1, Ok ())"
    and "run_job env decode_entry decode_job m = Some (effects, Continues)"
  shows "\<exists>s. sessions_reach R env to_json decode_entry decode_job (sessions_init st ids) s \<and>
    ss_live s = Some 1 \<and> ss_dispatchers s 1 = Some Waiting \<and> ss_runs s = [rm_id m] \<and>
    ss_delivered s = [] \<and> stream_messages entries (ss_queue s) QUEUE_TOPIC = ms"
proof -
  have rs: "redis_stream R id_key entries last_id" using assms(1) by (rule redis_stream.intro)
  have "l = [m]" using redis_stream.stream_consume_first [OF rs assms(2-4)] .
  then have c: "consume R st QUEUE_TOPIC = Ok [m]" using assms(4) by simp
  have gone: "stream_messages entries st1 QUEUE_TOPIC = ms"
    using redis_stream.stream_acknowledge_first [OF rs assms(2,3)] assms(5) by simp
  let ?s0 = "run_step env decode_entry decode_job 0 (after_reconnect st ids (Running m) Waiting)"
  have "sessions_reach R env to_json decode_entry decode_job (sessions_init st ids) ?s0"
    by (rule reach_step [OF reconnect_take_0 [OF c]], rule step_run) simp
  then have "sessions_reach R env to_json decode_entry decode_job (sessions_init st ids) (ack_step R 0 ?s0)"
    by (rule reach_step, intro step_ack)
      (simp add: run_old [OF assms(6)])
  moreover have "ss_live (ack_step R 0 ?s0) = Some 1" "ss_dispatchers (ack_step R 0 ?s0) 1 = Some Waiting"
      "ss_runs (ack_step R 0 ?s0) = [rm_id m]" "ss_delivered (ack_step R 0 ?s0) = []"
      "ss_queue (ack_step R 0 ?s0) = st1"
    by (simp_all add: run_old [OF assms(6)] ack_step_def assms(5))
  ultimately show ?thesis using gone by blast
qed

section \<open>On a concrete queue\<close>

abbreviation sample_message :: redis_message where
  "sample_message \<equiv> \<lparr>rm_id = ''1-0'', rm_data = ''x''\<rparr>"

abbreviation sample_decode :: "string \<Rightarrow> (string \<times> unit, string) outcome" where
  "sample_decode \<equiv> (\<lambda>d. Ok (''7'', ()))"

abbreviation sample_jobs :: "unit \<Rightarrow> (dispatch_job_param list, string) outcome" where
  "sample_jobs \<equiv> (\<lambda>v. Ok [sample_job])"

abbreviation sample_reach :: "log_state sessions \<Rightarrow> bool" where
  "sample_reach \<equiv> sessions_reach log_server sample_env (\<lambda>p. Ok ''x'') sample_decode sample_jobs
     (sessions_init sample_queue [''1-0''])"

lemma log_acknowledges: "snd (acknowledge log_server st t i) = Ok ()"
  by (simp add: acknowledge_def log_server_def)

lemma log_reads: "consume log_server st t \<noteq> Panic p"
  by (auto simp: consume_def log_server_def outcome_simps split: list.splits)

text \<open>What the sample job does: it is stored and answered.\<close>

lemma sample_job_effects:
  "\<exists>r clock. do_job sample_env [sample_job] =
     Some ([SinkJob ''j1'' ''alice'' (jr_output r) ''suspicion'' clock, SendResult [r]], Ok ())"
proof -
  obtain effects where e: "do_job sample_env [sample_job] = Some (effects, Ok ())"
    using sample_do_job by blast
  then obtain vrf rs where rs: "job_reply sample_env sample_job vrf = Ok rs"
      "finish_job sample_env rs = (effects, Ok ())"
    by (auto simp: do_job_def split: if_splits option.splits outcome.splits)
  then have "\<exists>r. rs = [r] \<and> jr_user r = ''alice'' \<and> jr_job_id r = ''j1'' \<and> jr_tag r = ''suspicion''"
    using job_reply_Ok [OF rs(1)] by (auto simp: result_param_def sample_job_def)
  then show ?thesis
    using e rs(2) by (auto simp: finish_job_def Let_def split: outcome.splits)
qed

lemma sample_run:
  "\<exists>r clock. run_job sample_env sample_decode sample_jobs sample_message =
     Some ([SinkJob ''j1'' ''alice'' (jr_output r) ''suspicion'' clock, SendResult [r]], Continues)"
  using sample_job_effects by (auto simp: run_job_def)

abbreviation sample_open :: "log_state sessions" where
  "sample_open \<equiv> spawn_dispatcher 0 (open_session (sessions_init sample_queue [''1-0'']))"

lemma sample_open_facts:
  "ss_queue sample_open = sample_queue" "ss_running sample_open" "ss_receiving sample_open"
  "ss_live sample_open = Some 0"
  "ss_dispatchers sample_open = [0 \<mapsto> Waiting]" "ss_effects sample_open = []" "ss_runs sample_open = []"
  "ss_next sample_open = 1"
  by (simp_all add: sessions_init_def open_session_def spawn_dispatcher_def)

lemma sample_open_reach: "sample_reach sample_open"
proof -
  have "sample_reach (open_session (sessions_init sample_queue [''1-0'']))"
    by (intro reach_step [OF reach_refl] step_open) (simp_all add: sessions_init_def)
  then show ?thesis
    by (rule reach_step, intro step_spawn) (simp_all add: sessions_init_def open_session_def)
qed


theorem accepted_jobs_finish_witness:
  "\<exists>s. sample_reach s \<and> ss_accepted s = [''1-0''] \<and> ss_runs s = [''1-0'']"
proof -
  have reads: "\<exists>l. consume log_server st t = Ok l" for st t
    by (simp add: consume_def log_server_def outcome_simps split: list.splits)
  have jobs: "\<exists>effects. run_job sample_env sample_decode sample_jobs m = Some (effects, Continues)"
    if "m \<in> set (stream_messages (\<lambda>st t. fst (st t)) (ss_queue sample_open) QUEUE_TOPIC)" for m
    using that sample_run by (auto simp: sample_open_facts sample_queue_facts(2))
  have "sessions_reach log_server sample_env (\<lambda>p. Ok ''x'') sample_decode sample_jobs
      (sessions_init sample_queue
        (map rm_id (stream_messages (\<lambda>st t. fst (st t)) sample_queue QUEUE_TOPIC))) sample_open"
    using sample_open_reach by (simp add: sample_queue_facts(2))
  from accepted_jobs_finish [OF log.laws sample_queue_facts(1) log_acknowledges reads this _ _ _ jobs]
  obtain s where "sessions_reach log_server sample_env (\<lambda>p. Ok ''x'') sample_decode sample_jobs sample_open s"
      "ss_accepted s = ss_accepted sample_open" "ss_runs s = ss_accepted sample_open"
    by (auto simp: sample_open_facts)
  moreover have "ss_accepted sample_open = [''1-0'']"
    by (simp add: sessions_init_def open_session_def spawn_dispatcher_def)
  ultimately show ?thesis using reach_trans [OF _ sample_open_reach] by metis
qed


theorem reconnect_runs_job_twice_witness:
  "\<exists>s r clock. sample_reach s \<and> ss_runs s = [''1-0'', ''1-0''] \<and> ss_delivered s = [[r]] \<and>
     ss_effects s =
       [(0, SinkJob ''j1'' ''alice'' (jr_output r) ''suspicion'' clock), (0, SendResult [r]),
        (1, SinkJob ''j1'' ''alice'' (jr_output r) ''suspicion'' clock), (1, SendResult [r])]"
proof -
  obtain r clock where run: "run_job sample_env sample_decode sample_jobs sample_message =
      Some ([SinkJob ''j1'' ''alice'' (jr_output r) ''suspicion'' clock, SendResult [r]], Continues)"
    using sample_run by blast
  have "delivered sample_env [SinkJob ''j1'' ''alice'' (jr_output r) ''suspicion'' clock, SendResult [r]] = [[r]]"
    by (simp add: delivered_def sample_env_def)
  then show ?thesis
    using reconnect_runs_job_twice [OF sample_queue_facts(3) run,
        of "\<lambda>p. Ok ''x''" "[''1-0'']"] by auto
qed

theorem reconnect_loses_reply_witness:
  "\<exists>s. sample_reach s \<and> ss_live s = Some 1 \<and> ss_runs s = [''1-0''] \<and> ss_delivered s = [] \<and>
     stream_messages (\<lambda>st t. fst (st t)) (ss_queue s) QUEUE_TOPIC = []"
proof -
  obtain effects where run: "run_job sample_env sample_decode sample_jobs sample_message =
      Some (effects, Continues)"
    using sample_run by blast
  show ?thesis
    using reconnect_loses_reply [OF log.laws sample_queue_facts(1-3) _ run, of _ "\<lambda>p. Ok ''x''" "[''1-0'']"]
      sample_queue_facts(4) by auto
qed

end
