(* ===== verification/Persistence.thy ===== *)
theory Persistence
  imports Entities Dispatch_System
begin

text \<open>
  What the dispatchers of \<open>Dispatch_System\<close> leave in the database of \<open>Storage\<close>: \<open>do_job\<close> of
  \<open>operator/runer/src/api/msg_handler.rs\<close> calls \<open>sinker_job\<close> before it sends a result, so the effects
  of all sessions, in the order in which they happen, are a sequence of insertions.
\<close>

section \<open>The insertions of a run\<close>

fun sink_calls :: "job_effect list \<Rightarrow> job_call list" where
  "sink_calls [] = []"
| "sink_calls (SinkJob job_id user result tag clock # effs) =
     \<lparr>jc_job_id = job_id, jc_username = user, jc_result = result, jc_tag = tag, jc_clock = clock\<rparr> #
     sink_calls effs"
| "sink_calls (SendResult rs # effs) = sink_calls effs"

definition session_calls :: "'st sessions \<Rightarrow> job_call list" where
  "session_calls s = sink_calls (map snd (ss_effects s))"

definition stored_rows ::
  "(column_def list \<Rightarrow> sql_value table \<Rightarrow> sql_value active_model \<Rightarrow> (sql_value table, string) outcome) \<Rightarrow>
   'st sessions \<Rightarrow> sql_value table" where
  "stored_rows ins s = store_calls ins (session_calls s)"

text \<open>A call stores this result.\<close>

definition call_for :: "job_call \<Rightarrow> job_result_param \<Rightarrow> bool" where
  "call_for c r \<longleftrightarrow>
     jc_job_id c = jr_job_id r \<and> jc_username c = jr_user r \<and> jc_result c = jr_output r \<and> jc_tag c = jr_tag r"

text \<open>Every reply that went out has its call.\<close>

definition replies_backed :: "'st sessions \<Rightarrow> bool" where
  "replies_backed s \<longleftrightarrow>
     (\<forall>rs \<in> set (ss_delivered s). \<exists>r rest. rs = r # rest \<and> (\<exists>c \<in> set (session_calls s). call_for c r))"

section \<open>Lemmas\<close>

lemma sink_calls_append: "sink_calls (xs @ ys) = sink_calls xs @ sink_calls ys"
  by (induction xs rule: sink_calls.induct) simp_all

text \<open>A job has no effect, or stores its first result and sends all.\<close>

lemma finish_job_effects:
  "fst (finish_job env res) = [] \<or>
   (\<exists>r rest clock. res = r # rest \<and>
      fst (finish_job env res) = [SinkJob (jr_job_id r) (jr_user r) (jr_output r) (jr_tag r) clock, SendResult res])"
  by (cases res) (auto simp: finish_job_def Let_def split: outcome.split)

lemma do_job_effects:
  assumes "do_job env msg = Some (effects, res)"
  shows "effects = [] \<or> (\<exists>rs. effects = fst (finish_job env rs))"
proof (cases "\<exists>rs. finish_job env rs = (effects, res)")
  case True
  then show ?thesis by (metis fst_conv)
next
  case False
  then show ?thesis
    using assms by (auto simp: do_job_def split: if_splits list.splits option.splits outcome.splits)
qed

lemma run_job_effects:
  assumes "run_job env decode_entry decode_job m = Some (effects, status)"
  shows "effects = [] \<or> (\<exists>rs. effects = fst (finish_job env rs))"
proof -
  have "effects = [] \<or> (\<exists>job res. do_job env job = Some (effects, res))"
    using assms by (auto simp: run_job_def split: outcome.splits option.splits prod.splits)
  then show ?thesis using do_job_effects by blast
qed

lemma run_job_backed:
  assumes "run_job env decode_entry decode_job m = Some (effects, status)"
    and "rs \<in> set (sent_results effects)"
  shows "\<exists>r rest. rs = r # rest \<and> (\<exists>c \<in> set (sink_calls effects). call_for c r)"
proof -
  obtain res where "effects = fst (finish_job env res)"
    using run_job_effects [OF assms(1)] assms(2) by fastforce
  then show ?thesis
    using finish_job_effects [of env res] assms(2) by (auto simp: call_for_def)
qed

lemma backed_more:
  assumes "replies_backed s" "session_calls s' = session_calls s @ cs"
    and "ss_delivered s' = ss_delivered s @ ds"
    and "\<And>rs. rs \<in> set ds \<Longrightarrow> \<exists>r rest. rs = r # rest \<and> (\<exists>c \<in> set cs. call_for c r)"
  shows "replies_backed s'"
  using assms(1,4) unfolding replies_backed_def assms(2,3) by (simp add: ball_Un) blast

lemma backed_run:
  assumes "replies_backed s"
  shows "replies_backed (run_step env decode_entry decode_job w s)"
proof (cases "\<exists>m effects status. ss_dispatchers s w = Some (Running m) \<and>
    run_job (session_env env s w) decode_entry decode_job m = Some (effects, status)")
  case True
  then obtain m effects status where m: "ss_dispatchers s w = Some (Running m)"
      "run_job (session_env env s w) decode_entry decode_job m = Some (effects, status)" by blast
  have eq: "map (snd \<circ> Pair w) effects = effects" by (simp add: comp_def)
  show ?thesis
  proof (rule backed_more [OF assms, where cs = "sink_calls effects" and
        ds = "delivered (session_env env s w) effects"])
    show "session_calls (run_step env decode_entry decode_job w s) = session_calls s @ sink_calls effects"
      using m by (cases status) (simp_all add: run_step_def session_calls_def sink_calls_append eq)
    show "ss_delivered (run_step env decode_entry decode_job w s) =
        ss_delivered s @ delivered (session_env env s w) effects"
      using m by (cases status) (simp_all add: run_step_def)
    show "\<exists>r rest. rs = r # rest \<and> (\<exists>c \<in> set (sink_calls effects). call_for c r)"
      if "rs \<in> set (delivered (session_env env s w) effects)" for rs
      using run_job_backed [OF m(2)] that by (simp add: delivered_def)
  qed
next
  case False
  then have "run_step env decode_entry decode_job w s = s"
    by (auto simp: run_step_def split: option.splits dispatcher.splits)
  then show ?thesis using assms by simp
qed

lemma backed_frame:
  "replies_backed s \<Longrightarrow> ss_effects s' = ss_effects s \<Longrightarrow> ss_delivered s' = ss_delivered s \<Longrightarrow> replies_backed s'"
  by (simp add: replies_backed_def session_calls_def)

lemma receive_frame_logs:
  "ss_effects (receive_step R now to_json rid meth params s) = ss_effects s \<and>
   ss_delivered (receive_step R now to_json rid meth params s) = ss_delivered s"
  by (auto simp: receive_step_def end_receiving_def split: outcome.split)

lemma take_ack_logs:
  "ss_effects (take_step R w s) = ss_effects s \<and> ss_delivered (take_step R w s) = ss_delivered s \<and>
   ss_effects (ack_step R w s) = ss_effects s \<and> ss_delivered (ack_step R w s) = ss_delivered s"
  by (auto simp: take_step_def ack_step_def split: outcome.split list.split option.split dispatcher.split)

lemma backed_step:
  assumes "sessions_step R env to_json decode_entry decode_job s s'" "replies_backed s"
  shows "replies_backed s'"
  using assms
proof (induction rule: sessions_step.induct)
  case (step_run s w)
  then show ?case by (intro backed_run)
qed (auto elim!: backed_frame simp: open_session_def spawn_dispatcher_def end_receiving_def
    lose_session_def receive_frame_logs take_ack_logs)

lemma backed_reach:
  "sessions_reach R env to_json decode_entry decode_job s s' \<Longrightarrow> replies_backed s \<Longrightarrow> replies_backed s'"
  by (induction rule: sessions_reach.induct) (auto intro: backed_step)

lemma first_call_in:
  assumes "c \<in> set cs"
  shows "\<exists>d \<in> set (first_calls cs). jc_job_id d = jc_job_id c"
proof -
  have "jc_job_id c \<in> jc_job_id ` set (first_calls cs)"
    using assms by (simp add: first_calls_ids)
  then show ?thesis by force
qed

text \<open>A run in which the reply to a job goes out.\<close>

lemma sample_delivery: "\<exists>s r. sample_reach s \<and> ss_delivered s = [[r]]"
proof -
  let ?s1 = "take_step log_server 0 sample_open"
  let ?s2 = "run_step sample_env sample_decode sample_jobs 0 ?s1"
  have s1: "?s1 = sample_open\<lparr>ss_dispatchers := [0 \<mapsto> Running sample_message]\<rparr>"
    using sample_queue_facts(3) by (simp add: take_step_def sample_open_facts)
  have "sample_reach ?s1"
    by (rule reach_step [OF sample_open_reach], rule step_take) (simp add: sample_open_facts)
  then have r2: "sample_reach ?s2"
    by (rule reach_step, intro step_run) (simp add: s1 sample_open_facts)
  obtain r clock where run: "run_job sample_env sample_decode sample_jobs sample_message =
      Some ([SinkJob ''j1'' ''alice'' (jr_output r) ''suspicion'' clock, SendResult [r]], Continues)"
    using sample_run by blast
  have "je_send sample_env [r] = Ok ()" "ss_delivered sample_open = []"
    by (simp_all add: sample_env_def sessions_init_def open_session_def spawn_dispatcher_def)
  then have "ss_delivered ?s2 = [[r]]"
    unfolding s1
    by (simp add: run_step_def session_env_def run sample_open_facts delivered_def)
  then show ?thesis using r2 by blast
qed

section \<open>Properties\<close>



end
