(* ===== verification/End_To_End.thy ===== *)
theory End_To_End
  imports Persistence Rpc_Link
begin

text \<open>
  The way of a result from the dispatcher task of the operator to the application at the other end:
  the sessions of \<open>Dispatch_System\<close> send their results with \<open>job_result\<close>
  (\<open>operator/runer/src/api/msg_handler.rs\<close>), which is a request over the websocket of \<open>Rpc_Link\<close>.
  Every session has a connection of its own.
\<close>

section \<open>Requests over connections\<close>

text \<open>
  A request that returns a value has found it in the channel it waits on, at the operator's end \<open>a\<close>
  of one of the connections; \<open>b\<close> is the dispatcher's end.
\<close>

definition request_over ::
  "(('v, 'k) endpoint \<times> ('v, 'k) endpoint) set \<Rightarrow> (string \<Rightarrow> 'v \<Rightarrow> nat \<Rightarrow> ('v, ws_error) outcome) \<Rightarrow> bool"
  where
  "request_over links request \<longleftrightarrow>
     (\<forall>f p seconds w. request f p seconds = Ok w \<longrightarrow>
        (\<exists>(a, b) \<in> links. \<exists>rid tok. (rid, f, p, tok) \<in> set (ep_issued a) \<and>
           request_poll (ep_core a) tok False = Some (Ok w)))"

text \<open>Both ends have run from a fresh connection.\<close>

definition proper_links ::
  "('v wire_message, 'k, 's) signer_lib \<Rightarrow> 'v ws_json \<Rightarrow> (('v, 'k) endpoint \<times> ('v, 'k) endpoint) set \<Rightarrow> bool"
  where
  "proper_links L J links \<longleftrightarrow>
     (\<forall>(a, b) \<in> links. (\<exists>ka ca kb cb. link_reachable L J (endpoint_init ka ca) (endpoint_init kb cb) a b) \<and>
        ep_drawn a \<le> 2 ^ 64)"

section \<open>Lemmas\<close>

lemma session_send_ok: "is_ok (je_send (session_env env s w) rs) \<Longrightarrow> is_ok (je_send env rs)"
  by (simp add: session_env_def split: if_splits)

lemma run_delivered:
  "\<forall>rs \<in> set (ss_delivered s). is_ok (je_send env rs) \<Longrightarrow>
   \<forall>rs \<in> set (ss_delivered (run_step env decode_entry decode_job w s)). is_ok (je_send env rs)"
  by (auto simp: run_step_def delivered_def dest: session_send_ok
      split: option.splits dispatcher.splits task_status.splits)

lemma step_delivered:
  assumes "sessions_step R env to_json decode_entry decode_job s s'"
    and "\<forall>rs \<in> set (ss_delivered s). is_ok (je_send env rs)"
  shows "\<forall>rs \<in> set (ss_delivered s'). is_ok (je_send env rs)"
  using assms
proof (induction rule: sessions_step.induct)
  case (step_run s w)
  then show ?case by (intro run_delivered)
qed (simp_all add: open_session_def spawn_dispatcher_def end_receiving_def lose_session_def
    receive_frame_logs take_ack_logs)

lemma reach_delivered:
  "sessions_reach R env to_json decode_entry decode_job s s' \<Longrightarrow>
   \<forall>rs \<in> set (ss_delivered s). is_ok (je_send env rs) \<Longrightarrow>
   \<forall>rs \<in> set (ss_delivered s'). is_ok (je_send env rs)"
  by (induction rule: sessions_reach.induct) (auto dest: step_delivered)

text \<open>A call of the dispatcher that succeeds was answered by the other application.\<close>

lemma call_answered:
  assumes "request_over links request" "proper_links L J links" "json_laws J"
    and "dispatcher_call request from_value f p seconds = Ok ()"
  shows "\<exists>(a, b) \<in> links. \<exists>rid w resp. (rid, f, p, w) \<in> set (ep_answered b) \<and> from_value w = Ok resp"
proof -
  obtain w resp where w: "request f p seconds = Ok w" "from_value w = Ok resp"
    using assms(4) by (auto simp: dispatcher_call_def outcome_simps)
  then obtain a b rid tok where link: "(a, b) \<in> links" "(rid, f, p, tok) \<in> set (ep_issued a)"
      "request_poll (ep_core a) tok False = Some (Ok w)"
    using assms(1) unfolding request_over_def by blast
  then have answer: "ws_oneshots (ep_core a) tok = Some (Ok w)"
    by (auto simp: request_poll_def split: option.splits if_splits)
  obtain ka ca kb cb where
      run: "link_reachable L J (endpoint_init ka ca) (endpoint_init kb cb) a b" "ep_drawn a \<le> 2 ^ 64"
    using assms(2) link(1) unfolding proper_links_def by blast
  have "(rid, f, p, w) \<in> set (ep_answered b)"
    by (rule answer_agrees(1) [OF link_ok_reachable [OF run(1) assms(3)] run(2) link(2) answer])
  then show ?thesis using link(1) w(2) by blast
qed

lemma backed_stored:
  assumes "sessions_reach R env to_json decode_entry decode_job (sessions_init st ids) s"
    and "insert_law ins" "live_insert ins" "rs \<in> set (ss_delivered s)"
  shows "\<exists>r rest call. rs = r # rest \<and> call_row call \<in> set (stored_rows ins s) \<and> jc_job_id call = jr_job_id r"
proof -
  have "replies_backed (sessions_init st ids)" by (simp add: replies_backed_def sessions_init_def)
  then have "replies_backed s" using backed_reach [OF assms(1)] by blast
  then obtain r rest c where r: "rs = r # rest" "c \<in> set (session_calls s)" "call_for c r"
    using assms(4) unfolding replies_backed_def by blast
  obtain call where "call \<in> set (first_calls (session_calls s))" "jc_job_id call = jr_job_id r"
    using first_call_in [OF r(2)] r(3) by (auto simp: call_for_def)
  then show ?thesis using r(1) by (auto simp: stored_rows_def stored_first [OF assms(2,3)])
qed

section \<open>Properties\<close>


definition sample_links :: "((nat, string) endpoint \<times> (nat, string) endpoint) set" where
  "sample_links = {sample_round ''job_result''}"

definition sample_request :: "string \<Rightarrow> nat \<Rightarrow> nat \<Rightarrow> (nat, ws_error) outcome" where
  "sample_request f p seconds = (if f = ''job_result'' \<and> p = 3 then Ok 5 else Err ElapsedError)"

lemma sample_over: "request_over sample_links sample_request"
  using sample_round_result [of "''job_result''"]
  by (cases "sample_round ''job_result''")
    (auto simp: request_over_def sample_links_def sample_request_def request_poll_def split: if_splits)

lemma sample_proper: "proper_links sample_signer (call_json ''job_result'') sample_links"
proof -
  have "link_reachable sample_signer (call_json ''job_result'') (endpoint_init ''0xCC'' 1) (endpoint_init ''0xCC'' 1)
      (fst (sample_round ''job_result'')) (snd (sample_round ''job_result''))"
    using sample_round_reachable [of "''job_result''"] unfolding sample_caller_def .
  then show ?thesis
    using sample_round_result [of "''job_result''"]
    by (cases "sample_round ''job_result''") (auto simp: proper_links_def sample_links_def)
qed


end
