(* ===== verification/Linked_Session.thy ===== *)
theory Linked_Session
  imports Dispatch_System Rpc_Link
begin

text \<open>
  A session of the operator together with the websocket it runs over: the tasks of
  \<open>handle_connection\<close> (\<open>operator/runer/src/api/msg_handler.rs\<close>), as in \<open>Dispatch_System\<close>, are put
  together with the two ends of the connection of \<open>Rpc_Link\<close>. The receiving task is what joins them:
  it takes frames only while it waits in \<open>recv\<close>, puts a request into the queue, and answers it before
  it waits again. Everything else interleaves freely.
\<close>

section \<open>State\<close>

text \<open>Where the receiving task is: in \<open>recv\<close>, before the queue, before \<open>respond\<close>, or ended.\<close>

datatype 'v receiver =
    Listening
  | Handling "string \<times> string \<times> 'v"
  | Replying "string \<times> string \<times> 'v"
  | Stopped

text \<open>\<open>lk_log\<close> is what the queue has accepted: the message, the id of the request, its parameters.\<close>

record ('st, 'v, 'k) linked =
  lk_sessions :: "'st sessions"
  lk_operator :: "('v, 'k) endpoint"
  lk_partner :: "('v, 'k) endpoint"
  lk_receiver :: "'v receiver"
  lk_log :: "(redis_message \<times> string \<times> 'v) list"

text \<open>The session is open; no request has been made.\<close>

definition linked_init ::
  "'st \<Rightarrow> ('v, 'k) endpoint \<Rightarrow> ('v, 'k) endpoint \<Rightarrow> ('st, 'v, 'k) linked" where
  "linked_init st a b =
     \<lparr>lk_sessions = open_session (sessions_init st []), lk_operator = a, lk_partner = b,
      lk_receiver = Listening, lk_log = []\<rparr>"

section \<open>The receiving task\<close>

definition stop_receiver :: "('st, 'v, 'k) linked \<Rightarrow> ('st, 'v, 'k) linked" where
  "stop_receiver k = k\<lparr>lk_sessions := end_receiving (lk_sessions k), lk_receiver := Stopped\<rparr>"

text \<open>\<open>recv\<close> returns a request, goes on to the next frame, or fails, which the task turns into a panic.\<close>

definition listen_step ::
  "('v wire_message, 'k, 's) signer_lib \<Rightarrow> 'v ws_json \<Rightarrow> (unit, ws_error) outcome \<Rightarrow>
   ('st, 'v, 'k) linked \<Rightarrow> ('st, 'v, 'k) linked" where
  "listen_step L J pong k =
     (let a = lk_operator k;
          fr = ep_sent (lk_partner k) ! ep_taken a;
          k1 = k\<lparr>lk_operator := ep_receive L J pong fr a\<rparr>
      in case snd (receive_item L J pong (ep_core a) (Item fr)) of
           Ok (Some (Request rid m p)) \<Rightarrow> k1\<lparr>lk_receiver := Handling (rid, m, p)\<rparr>
         | Ok r \<Rightarrow> k1
         | Err e \<Rightarrow> stop_receiver k1
         | Panic m \<Rightarrow> stop_receiver k1)"

definition lost_step ::
  "('v wire_message, 'k, 's) signer_lib \<Rightarrow> 'v ws_json \<Rightarrow> stream_item \<Rightarrow>
   ('st, 'v, 'k) linked \<Rightarrow> ('st, 'v, 'k) linked" where
  "lost_step L J it k = stop_receiver (k\<lparr>lk_operator := ep_lost L J it (lk_operator k)\<rparr>)"

definition queued_entry ::
  "'st redis \<Rightarrow> (nat, string) outcome \<Rightarrow> (string \<times> 'v \<Rightarrow> (string, string) outcome) \<Rightarrow> 'st \<Rightarrow>
   string \<times> string \<times> 'v \<Rightarrow> (redis_message \<times> string \<times> 'v) list" where
  "queued_entry R now to_json st q =
     (case q of (rid, meth, params) \<Rightarrow>
        if meth = ''dispatch_job''
        then (case (redis_message_new now (to_json (rid, params)), snd (add_queue_req R now to_json st rid params)) of
                (Ok m, Ok u) \<Rightarrow> [(m, rid, params)]
              | _ \<Rightarrow> [])
        else [])"

definition handle_step ::
  "'st redis \<Rightarrow> (nat, string) outcome \<Rightarrow> (string \<times> 'v \<Rightarrow> (string, string) outcome) \<Rightarrow>
   string \<times> string \<times> 'v \<Rightarrow> ('st, 'v, 'k) linked \<Rightarrow> ('st, 'v, 'k) linked" where
  "handle_step R now to_json q k =
     (case q of (rid, meth, params) \<Rightarrow>
        k\<lparr>lk_sessions := receive_step R now to_json rid meth params (lk_sessions k),
          lk_log := lk_log k @ queued_entry R now to_json (ss_queue (lk_sessions k)) q,
          lk_receiver :=
            (case receive_request_task R now to_json (ss_queue (lk_sessions k)) rid meth params of
               Ok r \<Rightarrow> Replying q
             | _ \<Rightarrow> Stopped)\<rparr>)"

definition reply_step ::
  "('v wire_message, 'k, 's) signer_lib \<Rightarrow> 'v ws_json \<Rightarrow> (ws_response \<Rightarrow> 'v) \<Rightarrow> (unit, ws_error) outcome \<Rightarrow>
   ('st, 'v, 'k) linked \<Rightarrow> ('st, 'v, 'k) linked" where
  "reply_step L J reply_json res k =
     (let a = lk_operator k;
          k1 = k\<lparr>lk_operator := ep_respond L J 0 (reply_json success_response) res a\<rparr>
      in case snd (respond L J (ep_core a) (fst (hd (ep_pending a))) (reply_json success_response) res) of
           Ok u \<Rightarrow> k1\<lparr>lk_receiver := Listening\<rparr>
         | _ \<Rightarrow> stop_receiver k1)"

section \<open>Steps\<close>

text \<open>The steps of \<open>Dispatch_System\<close> that are not of the receiving task and open no second session.\<close>

inductive background_step ::
  "'st redis \<Rightarrow> job_env \<Rightarrow> (string \<Rightarrow> (string \<times> 'v, string) outcome) \<Rightarrow>
   ('v \<Rightarrow> (dispatch_job_param list, string) outcome) \<Rightarrow> 'st sessions \<Rightarrow> 'st sessions \<Rightarrow> bool"
  for R env decode_entry decode_job where
  bg_spawn: "ss_live s = Some w \<Longrightarrow> ss_dispatchers s w = None \<Longrightarrow>
     background_step R env decode_entry decode_job s (spawn_dispatcher w s)"
| bg_refused: "ss_live s = Some w \<Longrightarrow> ss_dispatchers s w = None \<Longrightarrow>
     background_step R env decode_entry decode_job s (s\<lparr>ss_running := False\<rparr>)"
| bg_lose: "ss_live s = Some w \<Longrightarrow> ss_dispatchers s w \<noteq> None \<Longrightarrow> \<not> ss_receiving s \<Longrightarrow>
     background_step R env decode_entry decode_job s (lose_session s)"
| bg_take: "background_step R env decode_entry decode_job s (take_step R w s)"
| bg_run: "background_step R env decode_entry decode_job s (run_step env decode_entry decode_job w s)"
| bg_ack: "background_step R env decode_entry decode_job s (ack_step R w s)"

text \<open>\<open>on_call\<close>: the other tasks make requests over the connection, wait for the answers, or close it.\<close>

inductive linked_step ::
  "'st redis \<Rightarrow> ('v wire_message, 'k, 's) signer_lib \<Rightarrow> 'v ws_json \<Rightarrow> (ws_response \<Rightarrow> 'v) \<Rightarrow> job_env \<Rightarrow>
   (string \<times> 'v \<Rightarrow> (string, string) outcome) \<Rightarrow>
   (string \<Rightarrow> (string \<times> 'v, string) outcome) \<Rightarrow> ('v \<Rightarrow> (dispatch_job_param list, string) outcome) \<Rightarrow>
   ('st, 'v, 'k) linked \<Rightarrow> ('st, 'v, 'k) linked \<Rightarrow> bool"
  for R L J reply_json env to_json decode_entry decode_job where
  on_partner: "ep_step L J (ep_sent (lk_operator k)) (lk_partner k) b \<Longrightarrow>
     linked_step R L J reply_json env to_json decode_entry decode_job k (k\<lparr>lk_partner := b\<rparr>)"
| on_call: "ss_running (lk_sessions k) \<Longrightarrow> ep_step L J (ep_sent (lk_partner k)) (lk_operator k) a \<Longrightarrow>
     ep_taken a = ep_taken (lk_operator k) \<Longrightarrow> ep_pending a = ep_pending (lk_operator k) \<Longrightarrow>
     linked_step R L J reply_json env to_json decode_entry decode_job k (k\<lparr>lk_operator := a\<rparr>)"
| on_listen: "ss_running (lk_sessions k) \<Longrightarrow> ss_receiving (lk_sessions k) \<Longrightarrow> lk_receiver k = Listening \<Longrightarrow>
     ws_open (ep_core (lk_operator k)) \<Longrightarrow> ep_taken (lk_operator k) < length (ep_sent (lk_partner k)) \<Longrightarrow>
     linked_step R L J reply_json env to_json decode_entry decode_job k (listen_step L J pong k)"
| on_lost: "ss_running (lk_sessions k) \<Longrightarrow> ss_receiving (lk_sessions k) \<Longrightarrow> lk_receiver k = Listening \<Longrightarrow>
     it = EndOfStream \<or> (\<exists>err. it = StreamError err) \<Longrightarrow>
     linked_step R L J reply_json env to_json decode_entry decode_job k (lost_step L J it k)"
| on_handle: "ss_running (lk_sessions k) \<Longrightarrow> ss_receiving (lk_sessions k) \<Longrightarrow> lk_receiver k = Handling q \<Longrightarrow>
     linked_step R L J reply_json env to_json decode_entry decode_job k (handle_step R now to_json q k)"
| on_reply: "ss_running (lk_sessions k) \<Longrightarrow> ss_receiving (lk_sessions k) \<Longrightarrow> lk_receiver k = Replying q \<Longrightarrow>
     linked_step R L J reply_json env to_json decode_entry decode_job k (reply_step L J reply_json res k)"
| on_background: "ss_running (lk_sessions k) \<Longrightarrow>
     background_step R env decode_entry decode_job (lk_sessions k) s \<Longrightarrow>
     linked_step R L J reply_json env to_json decode_entry decode_job k (k\<lparr>lk_sessions := s\<rparr>)"

inductive linked_reach ::
  "'st redis \<Rightarrow> ('v wire_message, 'k, 's) signer_lib \<Rightarrow> 'v ws_json \<Rightarrow> (ws_response \<Rightarrow> 'v) \<Rightarrow> job_env \<Rightarrow>
   (string \<times> 'v \<Rightarrow> (string, string) outcome) \<Rightarrow>
   (string \<Rightarrow> (string \<times> 'v, string) outcome) \<Rightarrow> ('v \<Rightarrow> (dispatch_job_param list, string) outcome) \<Rightarrow>
   ('st, 'v, 'k) linked \<Rightarrow> ('st, 'v, 'k) linked \<Rightarrow> bool"
  for R L J reply_json env to_json decode_entry decode_job where
  linked_refl: "linked_reach R L J reply_json env to_json decode_entry decode_job k k"
| linked_more: "linked_reach R L J reply_json env to_json decode_entry decode_job k k' \<Longrightarrow>
     linked_step R L J reply_json env to_json decode_entry decode_job k' k'' \<Longrightarrow>
     linked_reach R L J reply_json env to_json decode_entry decode_job k k''"

section \<open>The parts\<close>

text \<open>What a step leaves alone.\<close>

lemma stop_receiver_simps [simp]:
  "lk_sessions (stop_receiver k) = end_receiving (lk_sessions k)"
  "lk_operator (stop_receiver k) = lk_operator k" "lk_partner (stop_receiver k) = lk_partner k"
  "lk_log (stop_receiver k) = lk_log k" "lk_receiver (stop_receiver k) = Stopped"
  by (simp_all add: stop_receiver_def)

lemma end_receiving_simps [simp]:
  "ss_queue (end_receiving s) = ss_queue s" "ss_accepted (end_receiving s) = ss_accepted s"
  "ss_next (end_receiving s) = ss_next s"
  by (simp_all add: end_receiving_def)

lemma listen_step_parts:
  "lk_operator (listen_step L J pong k) =
     ep_receive L J pong (ep_sent (lk_partner k) ! ep_taken (lk_operator k)) (lk_operator k)"
  "lk_partner (listen_step L J pong k) = lk_partner k"
  "lk_log (listen_step L J pong k) = lk_log k"
  "lk_sessions (listen_step L J pong k) = lk_sessions k \<or>
   lk_sessions (listen_step L J pong k) = end_receiving (lk_sessions k)"
  by (simp_all add: listen_step_def Let_def split: outcome.split option.split receive_message.split)

lemma lost_step_parts:
  "lk_operator (lost_step L J it k) = ep_lost L J it (lk_operator k)"
  "lk_partner (lost_step L J it k) = lk_partner k" "lk_log (lost_step L J it k) = lk_log k"
  "lk_sessions (lost_step L J it k) = end_receiving (lk_sessions k)"
  "lk_receiver (lost_step L J it k) = Stopped"
  by (simp_all add: lost_step_def)

lemma handle_step_parts:
  "lk_operator (handle_step R now to_json q k) = lk_operator k"
  "lk_partner (handle_step R now to_json q k) = lk_partner k"
  "lk_log (handle_step R now to_json q k) =
     lk_log k @ queued_entry R now to_json (ss_queue (lk_sessions k)) q"
  "lk_sessions (handle_step R now to_json q k) =
     receive_step R now to_json (fst q) (fst (snd q)) (snd (snd q)) (lk_sessions k)"
  "lk_receiver (handle_step R now to_json q k) \<in> {Replying q, Stopped}"
  by (cases q; simp add: handle_step_def split: outcome.split)+

lemma reply_step_parts:
  "lk_operator (reply_step L J reply_json res k) =
     ep_respond L J 0 (reply_json success_response) res (lk_operator k)"
  "lk_partner (reply_step L J reply_json res k) = lk_partner k"
  "lk_log (reply_step L J reply_json res k) = lk_log k"
  "lk_sessions (reply_step L J reply_json res k) = lk_sessions k \<or>
   lk_sessions (reply_step L J reply_json res k) = end_receiving (lk_sessions k)"
  "lk_receiver (reply_step L J reply_json res k) \<in> {Listening, Stopped}"
  by (simp_all add: reply_step_def Let_def split: outcome.split)

lemma background_is_step:
  "background_step R env decode_entry decode_job s s' \<Longrightarrow> ss_running s \<Longrightarrow>
   sessions_step R env to_json decode_entry decode_job s s'"
  by (induction rule: background_step.induct) (auto intro: sessions_step.intros)

lemma background_frame:
  "background_step R env decode_entry decode_job s s' \<Longrightarrow>
   ss_accepted s' = ss_accepted s \<and> ss_next s' = ss_next s"
  by (induction rule: background_step.induct)
    (auto simp: spawn_dispatcher_def lose_session_def take_step_def run_step_def ack_step_def
      split: outcome.splits list.splits option.splits dispatcher.splits task_status.splits)

lemma receive_next [simp]: "ss_next (receive_step R now to_json rid meth params s) = ss_next s"
  by (simp add: receive_step_def end_receiving_def split: outcome.split)

lemma queued_accepted:
  "map (rm_id \<circ> fst) (queued_entry R now to_json st (rid, meth, params)) =
   accepted_id R now to_json st rid meth params"
  by (auto simp: queued_entry_def accepted_id_def add_queue_req_def redis_message_new_def
      outcome_simps split: outcome.splits prod.splits)

lemma receive_accepted:
  "ss_accepted (receive_step R now to_json rid meth params s) =
   ss_accepted s @ map (rm_id \<circ> fst) (queued_entry R now to_json (ss_queue s) (rid, meth, params))"
  unfolding queued_accepted
  by (auto simp: receive_step_def receive_request_task_def accepted_id_def
      split: outcome.split prod.splits)

section \<open>The connection\<close>

text \<open>The receiving task holds the request it is at, and no other.\<close>

fun in_hand :: "'v receiver \<Rightarrow> (string \<times> string \<times> 'v) list" where
  "in_hand (Handling q) = [q]"
| "in_hand r = []"

fun held :: "'v receiver \<Rightarrow> (string \<times> string \<times> 'v) list" where
  "held (Handling q) = [q]"
| "held (Replying q) = [q]"
| "held r = []"

definition receiver_ok :: "('st, 'v, 'k) linked \<Rightarrow> bool" where
  "receiver_ok k \<longleftrightarrow> lk_receiver k = Stopped \<or> ep_pending (lk_operator k) = held (lk_receiver k)"

fun asked :: "redis_message \<times> string \<times> 'v \<Rightarrow> string \<times> string \<times> 'v" where
  "asked (m, rid, params) = (rid, ''dispatch_job'', params)"

text \<open>What was queued and what is about to be came in a frame of its own.\<close>

definition framed :: "'v ws_json \<Rightarrow> ('st, 'v, 'k) linked \<Rightarrow> bool" where
  "framed J k \<longleftrightarrow>
     mset (map asked (lk_log k)) + mset (in_hand (lk_receiver k)) \<subseteq>#
     mset (List.map_filter (request_of J) (take (ep_taken (lk_operator k)) (ep_sent (lk_partner k))))"

definition joined :: "'v ws_json \<Rightarrow> u64 \<Rightarrow> u64 \<Rightarrow> ('st, 'v, 'k) linked \<Rightarrow> bool" where
  "joined J ca cb k \<longleftrightarrow>
     link_ok J ca cb (lk_operator k) (lk_partner k) \<and> receiver_ok k \<and> framed J k"

lemma joined_cong:
  "joined J ca cb k \<Longrightarrow> lk_operator k' = lk_operator k \<Longrightarrow> lk_partner k' = lk_partner k \<Longrightarrow>
   lk_receiver k' = lk_receiver k \<Longrightarrow> lk_log k' = lk_log k \<Longrightarrow> joined J ca cb k'"
  by (simp add: joined_def receiver_ok_def framed_def)

lemma joined_partner:
  assumes "joined J ca cb k" "ep_step L J (ep_sent (lk_operator k)) (lk_partner k) b" "json_laws J"
  shows "joined J ca cb (k\<lparr>lk_partner := b\<rparr>)"
proof -
  have ok: "link_ok J ca cb (lk_operator k) (lk_partner k)" using assms(1) by (simp add: joined_def)
  then have "link_ok J ca cb (lk_operator k) b"
    using link_ok_left [OF _ assms(2,3)] link_ok_sym by metis
  moreover obtain ps where "ep_sent b = ep_sent (lk_partner k) @ ps"
    using step_grows [OF assms(2)] by (auto simp: grows_def)
  then have "take (ep_taken (lk_operator k)) (ep_sent b) = take (ep_taken (lk_operator k)) (ep_sent (lk_partner k))"
    using ok by (simp add: link_ok_def heard_def)
  ultimately show ?thesis using assms(1) by (simp add: joined_def receiver_ok_def framed_def)
qed

lemma joined_call:
  assumes "joined J ca cb k" "ep_step L J (ep_sent (lk_partner k)) (lk_operator k) a" "json_laws J"
    and "ep_taken a = ep_taken (lk_operator k)" "ep_pending a = ep_pending (lk_operator k)"
  shows "joined J ca cb (k\<lparr>lk_operator := a\<rparr>)"
  using assms link_ok_left [OF _ assms(2,3)] by (simp add: joined_def receiver_ok_def framed_def)

lemma listen_receiver:
  assumes "lk_receiver k = Listening"
  shows "in_hand (lk_receiver (listen_step L J pong k)) =
      handed_on (snd (receive_item L J pong (ep_core (lk_operator k))
        (Item (ep_sent (lk_partner k) ! ep_taken (lk_operator k)))))"
    and "held (lk_receiver (listen_step L J pong k)) = in_hand (lk_receiver (listen_step L J pong k))"
  using assms by (simp_all add: listen_step_def Let_def split: outcome.split option.split receive_message.split)

lemma joined_listen:
  assumes "joined J ca cb k" "json_laws J" "lk_receiver k = Listening"
    and "ws_open (ep_core (lk_operator k))" "ep_taken (lk_operator k) < length (ep_sent (lk_partner k))"
  shows "joined J ca cb (listen_step L J pong k)"
  unfolding joined_def listen_step_parts
proof (intro conjI)
  let ?a = "lk_operator k" and ?b = "lk_partner k"
  let ?fr = "ep_sent ?b ! ep_taken ?a"
  let ?r = "snd (receive_item L J pong (ep_core ?a) (Item ?fr))"
  have "ep_step L J (ep_sent ?b) ?a (ep_receive L J pong ?fr ?a)"
    using assms(4,5) by (rule step_frame)
  then show "link_ok J ca cb (ep_receive L J pong ?fr ?a) ?b"
    using link_ok_left [OF _ _ assms(2)] assms(1) unfolding joined_def by blast
  have pending: "ep_pending ?a = []" using assms(1,3) by (simp add: joined_def receiver_ok_def)
  show "receiver_ok (listen_step L J pong k)"
    using listen_receiver [OF assms(3), of L J pong]
    by (simp add: receiver_ok_def listen_step_parts ep_receive_eq pending)
  have "mset (map asked (lk_log k)) + mset (handed_on ?r) \<subseteq>#
      mset (List.map_filter (request_of J) (take (ep_taken ?a) (ep_sent ?b))) +
      mset (List.map_filter (request_of J) [?fr])"
    using assms(1,3) handed_on_framed
    by (intro subset_mset.add_mono) (simp_all add: joined_def framed_def)
  moreover have "take (Suc (ep_taken ?a)) (ep_sent ?b) = take (ep_taken ?a) (ep_sent ?b) @ [?fr]"
    by (rule take_Suc_conv_app_nth [OF assms(5)])
  ultimately show "framed J (listen_step L J pong k)"
    using listen_receiver(1) [OF assms(3), of L J pong]
    by (simp add: framed_def listen_step_parts ep_receive_eq map_filter_append)
qed

lemma joined_lost:
  assumes "joined J ca cb k" "json_laws J" "lk_receiver k = Listening"
    and "it = EndOfStream \<or> (\<exists>err. it = StreamError err)"
  shows "joined J ca cb (lost_step L J it k)"
proof -
  have "ep_step L J (ep_sent (lk_partner k)) (lk_operator k) (ep_lost L J it (lk_operator k))"
    using assms(4) by (rule Rpc_Link.step_lost)
  then have "link_ok J ca cb (ep_lost L J it (lk_operator k)) (lk_partner k)"
    using link_ok_left [OF _ _ assms(2)] assms(1) unfolding joined_def by blast
  then show ?thesis
    using assms(1,3) by (simp add: joined_def receiver_ok_def framed_def lost_step_parts) (simp add: ep_lost_def)
qed

lemma queued_asked: "map asked (queued_entry R now to_json st q) \<in> {[], [q]}"
  by (cases q) (simp add: queued_entry_def split: outcome.split)

lemma joined_handle:
  assumes "joined J ca cb k" "lk_receiver k = Handling q"
  shows "joined J ca cb (handle_step R now to_json q k)"
proof -
  have "mset (map asked (queued_entry R now to_json (ss_queue (lk_sessions k)) q)) \<subseteq># {#q#}"
    using queued_asked [of R now to_json "ss_queue (lk_sessions k)" q] by auto
  then have "mset (map asked (lk_log k)) + mset (map asked (queued_entry R now to_json (ss_queue (lk_sessions k)) q)) \<subseteq>#
      mset (map asked (lk_log k)) + {#q#}"
    by (rule subset_mset.add_left_mono)
  also have "\<dots> \<subseteq># mset (List.map_filter (request_of J) (take (ep_taken (lk_operator k)) (ep_sent (lk_partner k))))"
    using assms by (simp add: joined_def framed_def)
  finally have "framed J (handle_step R now to_json q k)"
    using handle_step_parts(5) [of R now to_json q k]
    by (auto simp: framed_def handle_step_parts(1-3))
  moreover have "receiver_ok (handle_step R now to_json q k)"
    using assms handle_step_parts(5) [of R now to_json q k]
    by (auto simp: joined_def receiver_ok_def handle_step_parts(1-3))
  ultimately show ?thesis using assms(1) by (simp add: joined_def handle_step_parts)
qed

lemma joined_reply:
  assumes "joined J ca cb k" "json_laws J" "lk_receiver k = Replying q"
  shows "joined J ca cb (reply_step L J reply_json res k)"
proof -
  let ?a = "lk_operator k"
  let ?a' = "ep_respond L J 0 (reply_json success_response) res ?a"
  have pending: "ep_pending ?a = [q]" using assms(1,3) by (simp add: joined_def receiver_ok_def)
  then have "ep_step L J (ep_sent (lk_partner k)) ?a ?a'"
    by (intro step_answer) simp
  then have "link_ok J ca cb ?a' (lk_partner k)"
    using link_ok_left [OF _ _ assms(2)] assms(1) unfolding joined_def by blast
  moreover have "ep_pending ?a' = []" "ep_taken ?a' = ep_taken ?a"
    by (simp_all add: ep_respond_eq pending)
  ultimately show ?thesis
    using assms(1,3) reply_step_parts(5) [of L J reply_json res k]
    by (auto simp: joined_def receiver_ok_def framed_def reply_step_parts(1-3))
qed

lemma joined_step:
  "linked_step R L J reply_json env to_json decode_entry decode_job k k' \<Longrightarrow> json_laws J \<Longrightarrow>
   joined J ca cb k \<Longrightarrow> joined J ca cb k'"
proof (induction rule: linked_step.induct)
  case (on_background k s)
  then show ?case by (auto intro: joined_cong)
qed (simp_all add: joined_partner joined_call joined_listen joined_lost joined_handle joined_reply)

lemma joined_init:
  "joined J ca cb (linked_init st (endpoint_init ka ca) (endpoint_init kb cb))"
proof -
  have "link_ok J ca cb (endpoint_init ka ca) (endpoint_init kb cb)"
    by (simp add: link_ok_def own_ok_init) (simp add: heard_def told_def endpoint_init_def ws_split_def)
  then show ?thesis
    by (simp add: joined_def linked_init_def receiver_ok_def framed_def) (simp add: endpoint_init_def)
qed

text \<open>Every queued entry stands for a request of the partner, and no two for the same.\<close>

lemma asked_id: "fst \<circ> asked = fst \<circ> snd"
proof
  show "(fst \<circ> asked) e = (fst \<circ> snd) e" for e :: "redis_message \<times> string \<times> 'v"
    by (cases e rule: asked.cases) simp
qed

lemma joined_asked:
  assumes "joined J ca cb k" "ep_drawn (lk_partner k) \<le> 2 ^ 64"
  shows "distinct (map (fst \<circ> snd) (lk_log k)) \<and>
    set (map asked (lk_log k)) \<subseteq> set (map issue_key (ep_issued (lk_partner k)))"
proof -
  let ?b = "lk_partner k"
  have ok: "own_ok J cb ?b" using assms(1) by (simp add: joined_def link_ok_def)
  have "mset (map asked (lk_log k)) \<subseteq>#
      mset (List.map_filter (request_of J) (take (ep_taken (lk_operator k)) (ep_sent ?b)))"
    using assms(1) unfolding joined_def framed_def
    by (meson mset_subset_eq_add_left subset_mset.order_trans)
  then have "mset (map asked (lk_log k)) \<subseteq># mset (map issue_key (ep_issued ?b))"
    using ok framed_issued by (auto simp: own_ok_def intro: subset_mset.order_trans)
  moreover have "distinct (map fst (map issue_key (ep_issued ?b)))"
    using ids_distinct [of cb, OF _ assms(2)] ok by (simp add: own_ok_def comp_def)
  ultimately have "distinct (map fst (map asked (lk_log k))) \<and>
      set (map asked (lk_log k)) \<subseteq> set (map issue_key (ep_issued ?b))"
    by (rule sub_distinct)
  then show ?thesis by (simp add: asked_id)
qed

section \<open>The queue\<close>

text \<open>What is in the queue came through the receiving task, and says what the request said.\<close>

definition logged ::
  "('st \<Rightarrow> string \<Rightarrow> stream_entry list) \<Rightarrow> (string \<times> 'v \<Rightarrow> (string, string) outcome) \<Rightarrow>
   ('st, 'v, 'k) linked \<Rightarrow> bool" where
  "logged entries to_json k \<longleftrightarrow>
     ss_accepted (lk_sessions k) = map (rm_id \<circ> fst) (lk_log k) \<and>
     set (stream_messages entries (ss_queue (lk_sessions k)) QUEUE_TOPIC) \<subseteq> fst ` set (lk_log k) \<and>
     (\<forall>(m, rid, params) \<in> set (lk_log k). to_json (rid, params) = Ok (rm_data m))"

text \<open>All of it.\<close>

definition whole_ok ::
  "(string \<Rightarrow> nat \<times> nat) \<Rightarrow> ('st \<Rightarrow> string \<Rightarrow> stream_entry list) \<Rightarrow> ('st \<Rightarrow> string \<Rightarrow> nat \<times> nat) \<Rightarrow>
   'v ws_json \<Rightarrow> u64 \<Rightarrow> u64 \<Rightarrow> (string \<times> 'v \<Rightarrow> (string, string) outcome) \<Rightarrow> ('st, 'v, 'k) linked \<Rightarrow> bool" where
  "whole_ok id_key entries last_id J ca cb to_json k \<longleftrightarrow>
     joined J ca cb k \<and> logged entries to_json k \<and>
     sessions_inv id_key entries last_id (lk_sessions k) \<and> ss_next (lk_sessions k) = 1"

lemma queued_data:
  assumes "(m, rid, params) \<in> set (queued_entry R now to_json st (rid', meth, params'))"
  shows "to_json (rid, params) = Ok (rm_data m)"
proof -
  have "redis_message_new now (to_json (rid, params)) = Ok m"
    using assms
    by (cases "meth = ''dispatch_job''"; cases "redis_message_new now (to_json (rid', params'))";
        cases "snd (add_queue_req R now to_json st rid' params')")
      (simp_all add: queued_entry_def)
  then show ?thesis by (auto simp: redis_message_new_def outcome_simps)
qed

text \<open>What a step of a session adds to the log, and where the dispatchers have their messages from.\<close>

definition log_effect ::
  "('st \<Rightarrow> string \<Rightarrow> stream_entry list) \<Rightarrow> (string \<times> 'v \<Rightarrow> (string, string) outcome) \<Rightarrow>
   'st sessions \<Rightarrow> (redis_message \<times> string \<times> 'v) list \<Rightarrow> 'st sessions \<Rightarrow> bool" where
  "log_effect entries to_json s es s' \<longleftrightarrow>
     ss_accepted s' = ss_accepted s @ map (rm_id \<circ> fst) es \<and>
     set (stream_messages entries (ss_queue s') QUEUE_TOPIC) \<subseteq>
       set (stream_messages entries (ss_queue s) QUEUE_TOPIC) \<union> fst ` set es \<and>
     (\<forall>(m, rid, params) \<in> set es. to_json (rid, params) = Ok (rm_data m)) \<and>
     (\<forall>w m. ss_dispatchers s' w = Some (Running m) \<longrightarrow>
        ss_dispatchers s w = Some (Running m) \<or> m \<in> set (stream_messages entries (ss_queue s) QUEUE_TOPIC))"

lemma log_effect_none:
  "ss_accepted s' = ss_accepted s \<Longrightarrow> ss_queue s' = ss_queue s \<Longrightarrow> ss_dispatchers s' = ss_dispatchers s \<Longrightarrow>
   log_effect entries to_json s [] s'"
  by (simp add: log_effect_def)

context redis_stream
begin

lemma receive_messages:
  assumes "stream_ok id_key entries last_id (ss_queue s) QUEUE_TOPIC"
  shows "stream_messages entries (ss_queue (receive_step R now to_json rid meth params s)) QUEUE_TOPIC =
    stream_messages entries (ss_queue s) QUEUE_TOPIC @
    map fst (queued_entry R now to_json (ss_queue s) (rid, meth, params))"
proof (cases "meth = ''dispatch_job''")
  case True
  obtain st' res where q: "add_queue_req R now to_json (ss_queue s) rid params = (st', res)" by fastforce
  consider (queued) ms d where "now = Ok ms" "to_json (rid, params) = Ok d" "res = Ok ()"
      "produce R (ss_queue s) QUEUE_TOPIC \<lparr>rm_id = nat_to_string ms @ ''-0'', rm_data = d\<rparr> = (st', Ok ())"
    | (failed) "res \<noteq> Ok ()" "st' = ss_queue s"
    using add_queue_req_cases [OF q] by blast
  then show ?thesis
  proof cases
    case queued
    then show ?thesis
      using True q stream_produce [OF assms queued(4)]
      by (simp add: receive_step_def receive_request_task_def queued_entry_def redis_message_new_def)
  next
    case failed
    then show ?thesis
      using True q
      by (cases res) (auto simp: receive_step_def receive_request_task_def queued_entry_def split: outcome.split)
  qed
qed (simp add: receive_step_def receive_request_task_def queued_entry_def)

lemma background_messages:
  assumes "background_step R env decode_entry decode_job s s'"
    and "stream_ok id_key entries last_id (ss_queue s) QUEUE_TOPIC"
    and "\<And>st i. snd (acknowledge R st QUEUE_TOPIC i) = Ok ()"
  shows "set (stream_messages entries (ss_queue s') QUEUE_TOPIC) \<subseteq>
    set (stream_messages entries (ss_queue s) QUEUE_TOPIC)"
  using assms(1)
proof cases
  case (bg_ack w)
  have "set (stream_messages entries (fst (acknowledge R (ss_queue s) QUEUE_TOPIC i)) QUEUE_TOPIC) \<subseteq>
      set (stream_messages entries (ss_queue s) QUEUE_TOPIC)" for i
    using stream_acknowledge [OF assms(2) prod_eqI] assms(3) by fastforce
  then show ?thesis
    unfolding bg_ack by (simp add: ack_step_def split: option.split dispatcher.split)
qed (auto simp: spawn_dispatcher_def lose_session_def take_step_def run_step_def
    split: outcome.splits list.splits option.splits dispatcher.splits task_status.splits)

lemma take_from_queue:
  assumes "stream_ok id_key entries last_id (ss_queue s) QUEUE_TOPIC"
    and "ss_dispatchers (take_step R w s) v = Some (Running m)"
  shows "ss_dispatchers s v = Some (Running m) \<or> m \<in> set (stream_messages entries (ss_queue s) QUEUE_TOPIC)"
proof -
  have "m' \<in> set (stream_messages entries (ss_queue s) QUEUE_TOPIC)"
    if "consume R (ss_queue s) QUEUE_TOPIC = Ok (m' # ms)" for m' ms
    using stream_consume [OF assms(1) that] by (metis in_set_takeD list.set_intros(1))
  then show ?thesis
    using assms(2) by (auto simp: take_step_def split: if_splits outcome.splits list.splits)
qed

lemma background_effect:
  assumes "background_step R env decode_entry decode_job s s'"
    and "stream_ok id_key entries last_id (ss_queue s) QUEUE_TOPIC"
    and "\<And>st i. snd (acknowledge R st QUEUE_TOPIC i) = Ok ()"
  shows "log_effect entries to_json s [] s'"
proof -
  have "ss_dispatchers s v = Some (Running m) \<or> m \<in> set (stream_messages entries (ss_queue s) QUEUE_TOPIC)"
    if "ss_dispatchers s' v = Some (Running m)" for v m
    using assms(1)
  proof cases
    case (bg_take w)
    then show ?thesis using take_from_queue [OF assms(2)] that by blast
  qed (use that in \<open>auto simp: spawn_dispatcher_def lose_session_def run_step_def ack_step_def
      split: if_splits option.splits dispatcher.splits prod.splits outcome.splits task_status.splits\<close>)
  then show ?thesis
    using background_frame [OF assms(1)] background_messages [OF assms] by (simp add: log_effect_def)
qed

lemma linked_effect:
  assumes "linked_step R L J reply_json env to_json decode_entry decode_job k k'"
    and "stream_ok id_key entries last_id (ss_queue (lk_sessions k)) QUEUE_TOPIC"
    and "\<And>st i. snd (acknowledge R st QUEUE_TOPIC i) = Ok ()"
  shows "\<exists>es. lk_log k' = lk_log k @ es \<and> log_effect entries to_json (lk_sessions k) es (lk_sessions k')"
  using assms(1)
proof cases
  case (on_listen pong)
  then show ?thesis
    using listen_step_parts(3,4) [of L J pong k] by (auto intro: log_effect_none simp: end_receiving_def)
next
  case (on_lost it)
  then show ?thesis by (simp add: lost_step_parts log_effect_none end_receiving_def)
next
  case (on_handle q now)
  obtain rid meth params where q: "q = (rid, meth, params)" using prod_cases3 by blast
  have "ss_dispatchers (receive_step R now to_json rid meth params s) = ss_dispatchers s" for s
    by (simp add: receive_step_def end_receiving_def split: outcome.split)
  then show ?thesis
    using queued_data
    unfolding on_handle(1) q log_effect_def handle_step_parts(3,4) fst_conv snd_conv
      receive_accepted receive_messages [OF assms(2)]
    by auto
next
  case (on_reply q res)
  then show ?thesis
    using reply_step_parts(3,4) [of L J reply_json res k] by (auto intro: log_effect_none simp: end_receiving_def)
next
  case (on_background s)
  then show ?thesis using background_effect [OF on_background(3) assms(2,3)] by simp
qed (simp_all add: log_effect_none)

lemma logged_step:
  assumes "linked_step R L J reply_json env to_json decode_entry decode_job k k'"
    and "logged entries to_json k" "stream_ok id_key entries last_id (ss_queue (lk_sessions k)) QUEUE_TOPIC"
    and "\<And>st i. snd (acknowledge R st QUEUE_TOPIC i) = Ok ()"
  shows "logged entries to_json k'"
proof -
  obtain es where "lk_log k' = lk_log k @ es" "log_effect entries to_json (lk_sessions k) es (lk_sessions k')"
    using linked_effect [OF assms(1,3,4)] by blast
  then show ?thesis
    using assms(2) unfolding logged_def log_effect_def
    by (simp add: image_Un ball_Un) (meson Un_mono order_refl subset_trans)
qed

text \<open>Every step of the whole is a step of the sessions, or none.\<close>

lemma linked_is_step:
  assumes "linked_step R L J reply_json env to_json decode_entry decode_job k k'"
  shows "lk_sessions k' = lk_sessions k \<or>
    sessions_step R env to_json decode_entry decode_job (lk_sessions k) (lk_sessions k')"
  using assms
proof cases
  case (on_listen pong)
  then show ?thesis using listen_step_parts(4) [of L J pong k] by (auto intro: step_fail)
next
  case (on_reply q res)
  then show ?thesis using reply_step_parts(4) [of L J reply_json res k] by (auto intro: step_fail)
next
  case (on_handle q now)
  then show ?thesis by (cases q) (auto simp: handle_step_parts intro: sessions_step.step_receive)
qed (auto simp: lost_step_parts intro: step_fail background_is_step)

lemma linked_next:
  "linked_step R L J reply_json env to_json decode_entry decode_job k k' \<Longrightarrow>
   ss_next (lk_sessions k') = ss_next (lk_sessions k)"
proof (induction rule: linked_step.induct)
  case (on_listen k pong)
  then show ?case using listen_step_parts(4) [of L J pong k] by auto
next
  case (on_reply k q res)
  then show ?case using reply_step_parts(4) [of L J reply_json res k] by auto
qed (auto simp: lost_step_parts handle_step_parts dest: background_frame)

lemma whole_step:
  assumes "linked_step R L J reply_json env to_json decode_entry decode_job k k'" "whole_ok id_key entries last_id J ca cb to_json k"
    and "json_laws J" "\<And>st i. snd (acknowledge R st QUEUE_TOPIC i) = Ok ()"
  shows "whole_ok id_key entries last_id J ca cb to_json k'"
proof -
  have inv: "sys_inv (lk_sessions k)" and one: "ss_next (lk_sessions k) = 1"
    using assms(2) by (simp_all add: whole_ok_def)
  have "joined J ca cb k'"
    using joined_step [OF assms(1,3)] assms(2) by (simp add: whole_ok_def)
  moreover have "logged entries to_json k'"
    using logged_step [OF assms(1) _ _ assms(4)] assms(2) by (simp add: whole_ok_def sessions_inv_def)
  moreover have "sys_inv (lk_sessions k')"
    using linked_is_step [OF assms(1)] inv_step [OF _ inv _ assms(4)] inv one by auto
  ultimately show ?thesis using linked_next [OF assms(1)] one by (simp add: whole_ok_def)
qed

lemma whole_reach:
  assumes "linked_reach R L J reply_json env to_json decode_entry decode_job k0 k" "whole_ok id_key entries last_id J ca cb to_json k0"
    and "json_laws J" "\<And>st i. snd (acknowledge R st QUEUE_TOPIC i) = Ok ()"
  shows "whole_ok id_key entries last_id J ca cb to_json k"
  using assms(1,2)
proof (induction rule: linked_reach.induct)
  case (linked_more k k' k'')
  then show ?case using whole_step [OF linked_more.hyps(2) _ assms(3,4)] by blast
qed

lemma whole_init:
  assumes "stream_ok id_key entries last_id st QUEUE_TOPIC" "stream_messages entries st QUEUE_TOPIC = []"
  shows "whole_ok id_key entries last_id J ca cb to_json (linked_init st (endpoint_init ka ca) (endpoint_init kb cb))"
proof -
  have init: "sys_inv (sessions_init st [])" using inv_init [OF assms(1)] assms(2) by simp
  then have "sys_inv (open_session (sessions_init st []))"
    by (intro inv_frame [OF init]) (auto simp: open_session_def)
  then show ?thesis
    using assms(2) by (simp add: whole_ok_def joined_init)
      (simp add: linked_init_def logged_def open_session_def sessions_init_def)
qed

end

section \<open>A job from request to reply\<close>

text \<open>
  The dispatcher asks, the receiving task takes the request, queues it and answers, and the dispatcher
  gets the answer; then the operator's dispatcher task takes the message, runs the job and acknowledges.
\<close>

lemma linked_trans:
  assumes "linked_reach R L J reply_json env to_json decode_entry decode_job k' k''"
    and "linked_reach R L J reply_json env to_json decode_entry decode_job k k'"
  shows "linked_reach R L J reply_json env to_json decode_entry decode_job k k''"
  using assms
proof (induction rule: linked_reach.induct)
  case (linked_more k1 k2 k3)
  show ?case by (rule linked_reach.linked_more [OF linked_more.IH [OF linked_more.prems] linked_more.hyps(2)])
qed

lemma joined_reach:
  assumes "linked_reach R L J reply_json env to_json decode_entry decode_job k0 k" "joined J ca cb k0" "json_laws J"
  shows "joined J ca cb k"
  using assms(1,2)
proof (induction rule: linked_reach.induct)
  case (linked_more k k' k'')
  show ?case by (rule joined_step [OF linked_more.hyps(2) assms(3) linked_more.IH [OF linked_more.prems]])
qed

lemma more_partner:
  "linked_reach R L J reply_json env to_json decode_entry decode_job k k' \<Longrightarrow>
   ep_step L J (ep_sent (lk_operator k')) (lk_partner k') b \<Longrightarrow> k'' = k'\<lparr>lk_partner := b\<rparr> \<Longrightarrow>
   linked_reach R L J reply_json env to_json decode_entry decode_job k k''"
  by (simp add: linked_more [OF _ on_partner])

lemma more_background:
  "linked_reach R L J reply_json env to_json decode_entry decode_job k k' \<Longrightarrow>
   ss_running (lk_sessions k') \<Longrightarrow> background_step R env decode_entry decode_job (lk_sessions k') s \<Longrightarrow>
   k'' = k'\<lparr>lk_sessions := s\<rparr> \<Longrightarrow>
   linked_reach R L J reply_json env to_json decode_entry decode_job k k''"
  by (simp add: linked_more [OF _ on_background])

lemma respond_sends:
  assumes "ws_open st" "seal_message L J (ws_signer st) (response_body rid v) = Ok t"
  shows "snd (respond L J st rid v (Ok ())) = Ok ()"
  using assms by (simp add: respond_cases wire_response_def)

lemma request_travels:
  assumes "ws_open (ep_core (lk_partner k))"
    and "seal_message L J (ws_signer (ep_core (lk_partner k)))
      (request_body (ws_counter (ep_core (lk_partner k))) f p) = Ok s"
  shows "linked_reach R L J reply_json env to_json decode_entry decode_job k
    (k\<lparr>lk_partner := ep_send (length (ep_outgoing (lk_partner k))) (Ok ()) (ep_request L J f p (lk_partner k))\<rparr>)"
proof -
  let ?b = "lk_partner k"
  let ?b1 = "ep_request L J f p ?b"
  have asked: "linked_reach R L J reply_json env to_json decode_entry decode_job k (k\<lparr>lk_partner := ?b1\<rparr>)"
    by (rule more_partner [OF linked_refl step_request refl])
  have "length (ep_outgoing ?b) < length (ep_outgoing ?b1)"
    using assms by (simp add: ep_request_def request_register_def signer_def wire_request_def exec_def Let_def)
  then have "ep_step L J (ep_sent (lk_operator k)) ?b1 (ep_send (length (ep_outgoing ?b)) (Ok ()) ?b1)"
    by (rule step_send)
  then show ?thesis by (intro more_partner [OF asked]) simp_all
qed

text \<open>The three steps of the receiving task for a \<open>dispatch_job\<close> request.\<close>

lemma listen_request:
  assumes "receive_item L J pong (ep_core (lk_operator k)) (Item fr) = (core, Ok (Some (Request rid f p)))"
    and "ep_sent (lk_partner k) ! ep_taken (lk_operator k) = fr"
  shows "listen_step L J pong k =
    k\<lparr>lk_operator := ep_receive L J pong fr (lk_operator k), lk_receiver := Handling (rid, f, p)\<rparr>"
  by (simp add: listen_step_def Let_def assms)

lemma handle_queued:
  assumes "add_queue_req R now to_json (ss_queue (lk_sessions k)) rid p = (st', Ok ())"
    and "redis_message_new now (to_json (rid, p)) = Ok m"
  shows "handle_step R now to_json (rid, ''dispatch_job'', p) k =
    k\<lparr>lk_sessions := (lk_sessions k)\<lparr>ss_queue := st', ss_accepted := ss_accepted (lk_sessions k) @ [rm_id m]\<rparr>,
      lk_log := lk_log k @ [(m, rid, p)], lk_receiver := Replying (rid, ''dispatch_job'', p)\<rparr>"
proof -
  have entry: "queued_entry R now to_json (ss_queue (lk_sessions k)) (rid, ''dispatch_job'', p) = [(m, rid, p)]"
    by (simp add: queued_entry_def assms)
  then have "accepted_id R now to_json (ss_queue (lk_sessions k)) rid ''dispatch_job'' p = [rm_id m]"
    unfolding queued_accepted [symmetric] by simp
  then show ?thesis
    using entry assms(1) by (simp add: handle_step_def receive_step_def receive_request_task_def)
qed

lemma reply_sent:
  assumes "ep_pending (lk_operator k) = [(rid, f, p)]" "ws_open (ep_core (lk_operator k))"
    and "seal_message L J (ws_signer (ep_core (lk_operator k))) (response_body rid (reply_json success_response)) = Ok t"
  shows "reply_step L J reply_json (Ok ()) k =
    k\<lparr>lk_operator := ep_respond L J 0 (reply_json success_response) (Ok ()) (lk_operator k),
      lk_receiver := Listening\<rparr>"
  using respond_sends [OF assms(2,3)] by (simp add: reply_step_def assms(1))

lemma job_queued:
  assumes laws: "signer_laws L" "json_laws J"
    and idle: "link_idle (lk_partner k) (lk_operator k)" "lk_receiver k = Listening"
      "ep_pending (lk_operator k) = []"
    and run: "ss_running (lk_sessions k)" "ss_receiving (lk_sessions k)"
    and req: "seal_message L J (ws_signer (ep_core (lk_partner k)))
      (request_body (ws_counter (ep_core (lk_partner k))) ''dispatch_job'' p) = Ok s"
    and resp: "seal_message L J (ws_signer (ep_core (lk_operator k)))
      (response_body rid (reply_json success_response)) = Ok t"
    and rid: "rid = nat_to_string (unat (ws_counter (ep_core (lk_partner k))))"
    and queue: "add_queue_req R now to_json (ss_queue (lk_sessions k)) rid p = (st', Ok ())"
      "redis_message_new now (to_json (rid, p)) = Ok m"
    and round: "rpc_round L J ''dispatch_job'' p (reply_json success_response) (lk_partner k, lk_operator k) = (b', a')"
  shows "linked_reach R L J reply_json env to_json decode_entry decode_job k
    (k\<lparr>lk_sessions := (lk_sessions k)\<lparr>ss_queue := st', ss_accepted := ss_accepted (lk_sessions k) @ [rm_id m]\<rparr>,
      lk_operator := a', lk_partner := b', lk_log := lk_log k @ [(m, rid, p)]\<rparr>)"
proof -
  let ?reach = "linked_reach R L J reply_json env to_json decode_entry decode_job k"
  let ?a = "lk_operator k" and ?b = "lk_partner k" and ?q = "(rid, ''dispatch_job'', p)"
  define b2 where "b2 = ep_send (length (ep_outgoing ?b)) (Ok ()) (ep_request L J ''dispatch_job'' p ?b)"
  define a1 where "a1 = ep_receive L J (Ok ()) (TextFrame s) ?a"
  define a2 where "a2 = ep_respond L J 0 (reply_json success_response) (Ok ()) a1"
  note open_ends = idle(1) [unfolded link_idle_def]
  note b2 = round_request [OF conjunct1 [OF open_ends] req, folded b2_def]
  have frame: "ep_sent b2 ! ep_taken ?a = TextFrame s" "ep_taken ?a < length (ep_sent b2)"
    using open_ends by (simp_all add: b2 ep_sent_def)
  have item: "receive_item L J (Ok ()) (ep_core ?a) (Item (TextFrame s)) = (ep_core ?a, Ok (Some (Request rid ''dispatch_job'' p)))"
    unfolding rid using open_ends by (intro sealed_request_received [OF laws _ req]) simp
  have a1: "ep_core a1 = ep_core ?a" "ep_pending a1 = [?q]"
    by (simp_all add: a1_def ep_receive_eq item idle(3))
  let ?k1 = "k\<lparr>lk_partner := b2\<rparr>"
  let ?k2 = "?k1\<lparr>lk_operator := a1, lk_receiver := Handling ?q\<rparr>"
  let ?k3 = "?k2\<lparr>lk_sessions := (lk_sessions k)\<lparr>ss_queue := st', ss_accepted := ss_accepted (lk_sessions k) @ [rm_id m]\<rparr>,
      lk_log := lk_log k @ [(m, rid, p)], lk_receiver := Replying ?q\<rparr>"
  let ?k4 = "?k3\<lparr>lk_operator := a2, lk_receiver := Listening\<rparr>"
  have r1: "?reach ?k1"
    unfolding b2_def using open_ends by (intro request_travels [OF _ req]) simp
  have k2: "?k2 = listen_step L J (Ok ()) ?k1"
    using item frame(1) by (simp add: listen_request a1_def)
  have r2: "?reach ?k2"
    unfolding k2 by (rule linked_more [OF r1 on_listen]) (use run idle(2) open_ends frame(2) in simp_all)
  have k3: "?k3 = handle_step R now to_json ?q ?k2"
    using queue by (simp add: handle_queued)
  have r3: "?reach ?k3"
    unfolding k3 by (rule linked_more [OF r2 on_handle]) (use run in simp_all)
  have k4: "?k4 = reply_step L J reply_json (Ok ()) ?k3"
    using reply_sent [of ?k3 rid "''dispatch_job''" p L J reply_json t] a1 resp open_ends by (simp add: a2_def)
  have "?reach ?k4"
    unfolding k4 by (rule linked_more [OF r3 on_reply]) (use run in simp_all)
  then have "?reach (?k4\<lparr>lk_partner := ep_receive L J (Ok ()) (ep_sent a2 ! ep_taken b2) b2\<rparr>)"
  proof (rule more_partner [OF _ _ refl])
    have "ep_sent a2 = ep_sent ?a @ [TextFrame t]"
      using round_answer [OF laws _ req, of ?a "reply_json success_response" t] resp open_ends idle(3)
      by (simp add: a2_def a1_def rid ep_sent_def)
    then have "ws_open (ep_core b2)" "ep_taken b2 < length (ep_sent a2)"
      using open_ends by (simp_all add: b2)
    from step_frame [OF this]
    show "ep_step L J (ep_sent (lk_operator ?k4)) (lk_partner ?k4) (ep_receive L J (Ok ()) (ep_sent a2 ! ep_taken b2) b2)"
      by simp
  qed
  moreover have "b' = ep_receive L J (Ok ()) (ep_sent a2 ! ep_taken b2) b2" "a' = a2"
    using round idle(3) frame(1) by (auto simp: rpc_round_def Let_def b2_def a1_def a2_def)
  ultimately show ?thesis using idle(2) by (cases k) simp
qed

lemma job_completes:
  assumes "linked_reach R L J reply_json env to_json decode_entry decode_job
      (linked_init st (endpoint_init ka ca) (endpoint_init kb cb)) k" "signer_laws L" "json_laws J"
    and "link_idle (lk_partner k) (lk_operator k)" "lk_receiver k = Listening"
    and "ss_running (lk_sessions k)" "ss_receiving (lk_sessions k)" "ss_dispatchers (lk_sessions k) w = Some Waiting"
    and "rid = nat_to_string (unat (ws_counter (ep_core (lk_partner k))))"
    and "seal_message L J (ws_signer (ep_core (lk_partner k)))
      (request_body (ws_counter (ep_core (lk_partner k))) ''dispatch_job'' p) = Ok s"
    and "seal_message L J (ws_signer (ep_core (lk_operator k)))
      (response_body rid (reply_json success_response)) = Ok t"
    and "add_queue_req R now to_json (ss_queue (lk_sessions k))
      rid p = (st1, Ok ())"
    and "redis_message_new now (to_json (rid, p)) = Ok m"
    and "consume R st1 QUEUE_TOPIC = Ok [m]" "acknowledge R st1 QUEUE_TOPIC (rm_id m) = (st2, Ok ())"
    and "run_job env decode_entry decode_job m = Some (effects, Continues)"
  shows "\<exists>k' tok. linked_reach R L J reply_json env to_json decode_entry decode_job
      (linked_init st (endpoint_init ka ca) (endpoint_init kb cb)) k' \<and>
    lk_log k' = lk_log k @ [(m, rid, p)] \<and>
    ss_runs (lk_sessions k') = ss_runs (lk_sessions k) @ [rm_id m] \<and> ss_queue (lk_sessions k') = st2 \<and>
    ep_issued (lk_partner k') = ep_issued (lk_partner k) @ [(rid, ''dispatch_job'', p, tok)] \<and>
    request_poll (ep_core (lk_partner k')) tok timed_out = Some (Ok (reply_json success_response)) \<and>
    ep_drawn (lk_partner k') = ep_drawn (lk_partner k) + 1 \<and> link_idle (lk_partner k') (lk_operator k')"
proof -
  have "joined J ca cb k" by (rule joined_reach [OF assms(1) joined_init assms(3)])
  then have pending: "ep_pending (lk_operator k) = []" using assms(5) by (simp add: joined_def receiver_ok_def)
  obtain a' b' where round: "rpc_round L J ''dispatch_job'' p (reply_json success_response)
      (lk_partner k, lk_operator k) = (b', a')" by fastforce
  define s1 where "s1 = (lk_sessions k)\<lparr>ss_queue := st1, ss_accepted := ss_accepted (lk_sessions k) @ [rm_id m]\<rparr>"
  let ?k1 = "k\<lparr>lk_sessions := s1, lk_operator := a', lk_partner := b', lk_log := lk_log k @ [(m, rid, p)]\<rparr>"
  have r1: "linked_reach R L J reply_json env to_json decode_entry decode_job
      (linked_init st (endpoint_init ka ca) (endpoint_init kb cb)) ?k1"
    unfolding s1_def
    by (rule linked_trans [OF job_queued [where k = k and reply_json = reply_json and p = p and rid = rid, OF assms(2-5) pending assms(6,7,10,11,9,12,13) round] assms(1)])
  have s1: "ss_running s1" "ss_dispatchers s1 w = Some Waiting" "consume R (ss_queue s1) QUEUE_TOPIC = Ok [m]"
      "acknowledge R (ss_queue s1) QUEUE_TOPIC (rm_id m) = (st2, Ok ())"
    using assms(6,8,14,15) by (simp_all add: s1_def)
  note dispatch = round_steps [OF s1(1-3) assms(16) s1(4)]
  have "linked_reach R L J reply_json env to_json decode_entry decode_job
      (linked_init st (endpoint_init ka ca) (endpoint_init kb cb))
      (?k1\<lparr>lk_sessions := ack_step R w (run_step env decode_entry decode_job w (take_step R w s1))\<rparr>)"
    by (rule more_background [OF more_background [OF more_background [OF r1 _ bg_take refl] _ bg_run refl] _ bg_ack])
      (use s1(1) dispatch(1,2) in simp_all)
  moreover note round_result [OF assms(2-4,10,11,9) refl round]
  moreover have "ss_runs s1 = ss_runs (lk_sessions k)" by (simp add: s1_def)
  ultimately show ?thesis
    using dispatch(5,7)
    by (intro exI [of _ "?k1\<lparr>lk_sessions := ack_step R w (run_step env decode_entry decode_job w (take_step R w s1))\<rparr>"]
          exI [of _ "ws_next_oneshot (ep_core (lk_partner k))"])
      (simp add: request_poll_def)
qed

section \<open>On a concrete session\<close>

text \<open>An operator with an empty queue on the server of \<open>Msg_Queue\<close>, over the sample connection.\<close>

abbreviation linked_reach_sample ::
  "(log_state, nat, string) linked \<Rightarrow> (log_state, nat, string) linked \<Rightarrow> bool" where
  "linked_reach_sample \<equiv>
     linked_reach log_server sample_signer (call_json ''dispatch_job'') (\<lambda>r. 5) sample_env
       (\<lambda>q. Ok ''x'') (\<lambda>d. Ok (''1'', 3)) (\<lambda>v. Ok [sample_job])"

abbreviation no_messages :: log_state where
  "no_messages \<equiv> (\<lambda>t. ([], 0, 0))"

abbreviation linked_start :: "(log_state, nat, string) linked" where
  "linked_start \<equiv> linked_init no_messages (endpoint_init ''0xCC'' 1) (endpoint_init ''0xCC'' 1)"

definition linked_sample :: "(log_state, nat, string) linked" where
  "linked_sample = linked_start\<lparr>lk_sessions := spawn_dispatcher 0 (lk_sessions linked_start)\<rparr>"

definition queued_message :: redis_message where
  "queued_message = \<lparr>rm_id = nat_to_string 5 @ ''-0'', rm_data = ''x''\<rparr>"

lemma linked_sample_reach: "linked_reach_sample linked_start linked_sample"
  unfolding linked_sample_def
  by (rule more_background [OF linked_refl _ bg_spawn refl])
    (simp_all add: linked_init_def open_session_def sessions_init_def)

lemma linked_sample_facts:
  "lk_operator linked_sample = sample_caller" "lk_partner linked_sample = sample_caller"
  "lk_receiver linked_sample = Listening" "lk_log linked_sample = []"
  "ss_running (lk_sessions linked_sample)" "ss_receiving (lk_sessions linked_sample)"
  "ss_queue (lk_sessions linked_sample) = no_messages" "ss_runs (lk_sessions linked_sample) = []"
  "ss_dispatchers (lk_sessions linked_sample) 0 = Some Waiting"
  by (simp_all add: linked_sample_def linked_init_def open_session_def sessions_init_def
      spawn_dispatcher_def sample_caller_def)

lemma sample_no_messages:
  "stream_ok log_key (\<lambda>st t. fst (st t)) (\<lambda>st t. snd (st t)) no_messages QUEUE_TOPIC"
  "stream_messages (\<lambda>st t. fst (st t)) no_messages QUEUE_TOPIC = []"
  by (simp_all add: stream_ok_def stream_messages_def List.map_filter_simps)

lemma sample_queueing:
  defines "st1 \<equiv> no_messages(QUEUE_TOPIC := ([(rm_id queued_message, [(''data'', ''x'')])], (5, 0)))"
  shows "add_queue_req log_server (Ok 5) (\<lambda>q. Ok ''x'') no_messages rid p = (st1, Ok ())"
    and "redis_message_new (Ok 5) (Ok ''x'') = Ok queued_message"
    and "consume log_server st1 QUEUE_TOPIC = Ok [queued_message]"
    and "\<exists>st2. acknowledge log_server st1 QUEUE_TOPIC (rm_id queued_message) = (st2, Ok ())"
proof -
  have key: "log_key (nat_to_string 5 @ ''-0'') = (5, 0)" by (rule log_key_millis)
  show "add_queue_req log_server (Ok 5) (\<lambda>q. Ok ''x'') no_messages rid p = (st1, Ok ())"
    unfolding add_queue_req_def redis_message_new_def
    by (simp add: log_produce key st1_def queued_message_def)
  show "redis_message_new (Ok 5) (Ok ''x'') = Ok queued_message"
    by (simp add: redis_message_new_def queued_message_def)
  show "consume log_server st1 QUEUE_TOPIC = Ok [queued_message]"
    by (simp add: consume_def log_server_def st1_def List.map_filter_simps queued_message_def)
qed (simp add: acknowledge_def log_server_def)

lemma sample_queued_job:
  "\<exists>effects. run_job sample_env (\<lambda>d. Ok (''1'', 3 :: nat)) (\<lambda>v. Ok [sample_job]) queued_message =
     Some (effects, Continues)"
  using sample_job_effects by (auto simp: run_job_def)

lemma sample_first_id:
  "nat_to_string (unat (ws_counter (ep_core sample_caller))) = ''1''" "ep_drawn sample_caller = 0"
  by (simp_all only: sample_idle nat_to_string_1 unat_1 One_nat_def)
    (simp add: sample_caller_def endpoint_init_def)

lemma linked_sample_run:
  "\<exists>k tok. linked_reach_sample linked_start k \<and> lk_log k = [(queued_message, ''1'', 3)] \<and>
     ss_runs (lk_sessions k) = [rm_id queued_message] \<and> ep_drawn (lk_partner k) = 1 \<and>
     ep_issued (lk_partner k) = [(''1'', ''dispatch_job'', 3, tok)]"
proof -
  obtain effects where run: "run_job sample_env (\<lambda>d. Ok (''1'', 3 :: nat)) (\<lambda>v. Ok [sample_job]) queued_message =
      Some (effects, Continues)"
    using sample_queued_job by blast
  obtain st2 where ack: "acknowledge log_server
      (no_messages(QUEUE_TOPIC := ([(rm_id queued_message, [(''data'', ''x'')])], (5, 0))))
      QUEUE_TOPIC (rm_id queued_message) = (st2, Ok ())"
    using sample_queueing(4) by blast
  note start = linked_sample_facts sample_first_id
  from job_completes [OF linked_sample_reach sample_signer_laws call_json_laws,
      unfolded start, OF sample_idle(1) refl linked_sample_facts(5,6,9) refl
        sample_call_seals [unfolded start] sample_queueing(1-3) ack run, of False]
  show ?thesis
    unfolding sample_idle(5) by fastforce
qed

section \<open>Properties\<close>



text \<open>C9. And it is run: whenever the dispatcher asks for a job while the connection is quiet, the
  receiving task waits, the queue is empty and the operator's dispatcher task is idle, there is a run in
  which the request is queued, the dispatcher gets the \<open>success\<close> reply to it, and the job is run and
  its message acknowledged - provided the server takes the entry and the job returns.\<close>

theorem requested_job_completes:
  assumes "linked_reach R L J reply_json env to_json decode_entry decode_job
      (linked_init st (endpoint_init ka ca) (endpoint_init kb cb)) k" "signer_laws L" "json_laws J"
    and "link_idle (lk_partner k) (lk_operator k)" "lk_receiver k = Listening"
    and "ss_running (lk_sessions k)" "ss_receiving (lk_sessions k)" "ss_dispatchers (lk_sessions k) w = Some Waiting"
    and "rid = nat_to_string (unat (ws_counter (ep_core (lk_partner k))))"
    and "seal_message L J (ws_signer (ep_core (lk_partner k)))
      (request_body (ws_counter (ep_core (lk_partner k))) ''dispatch_job'' p) = Ok s"
    and "seal_message L J (ws_signer (ep_core (lk_operator k)))
      (response_body rid (reply_json success_response)) = Ok t"
    and "add_queue_req R now to_json (ss_queue (lk_sessions k))
      rid p = (st1, Ok ())"
    and "redis_message_new now (to_json (rid, p)) = Ok m"
    and "consume R st1 QUEUE_TOPIC = Ok [m]" "acknowledge R st1 QUEUE_TOPIC (rm_id m) = (st2, Ok ())"
    and "run_job env decode_entry decode_job m = Some (effects, Continues)"
  shows "\<exists>k' tok. linked_reach R L J reply_json env to_json decode_entry decode_job
      (linked_init st (endpoint_init ka ca) (endpoint_init kb cb)) k' \<and>
    lk_log k' = lk_log k @ [(m, rid, p)] \<and>
    ss_runs (lk_sessions k') = ss_runs (lk_sessions k) @ [rm_id m] \<and> ss_queue (lk_sessions k') = st2 \<and>
    ep_issued (lk_partner k') = ep_issued (lk_partner k) @ [(rid, ''dispatch_job'', p, tok)] \<and>
    request_poll (ep_core (lk_partner k')) tok timed_out = Some (Ok (reply_json success_response)) \<and>
    link_idle (lk_partner k') (lk_operator k')"
  using job_completes [OF assms] by blast

theorem requested_job_completes_witness:
  "\<exists>k tok. linked_reach_sample linked_start k \<and> ss_runs (lk_sessions k) = [rm_id queued_message] \<and>
     request_poll (ep_core (lk_partner k)) tok False = Some (Ok 5)"
proof -
  obtain effects where run: "run_job sample_env (\<lambda>d. Ok (''1'', 3 :: nat)) (\<lambda>v. Ok [sample_job]) queued_message =
      Some (effects, Continues)"
    using sample_queued_job by blast
  obtain st2 where ack: "acknowledge log_server
      (no_messages(QUEUE_TOPIC := ([(rm_id queued_message, [(''data'', ''x'')])], (5, 0))))
      QUEUE_TOPIC (rm_id queued_message) = (st2, Ok ())"
    using sample_queueing(4) by blast
  note start = linked_sample_facts sample_first_id
  from requested_job_completes [OF linked_sample_reach sample_signer_laws call_json_laws,
      unfolded start, OF sample_idle(1) refl linked_sample_facts(5,6,9) refl
        sample_call_seals [unfolded start] sample_queueing(1-3) ack run, of False]
  show ?thesis
    by fastforce
qed

end
