(* ===== verification/Reconnection.thy ===== *)
theory Reconnection
  imports Dispatch_System
begin

text \<open>
  What the queue guarantees over any number of sessions. After a reconnection the dispatcher task of the
  lost session goes on beside the new one (\<open>handle_connection\<close> in
  \<open>operator/runer/src/api/msg_handler.rs\<close>), so the order and the uniqueness of \<open>Dispatch_System\<close> are
  lost. What remains is that every accepted job is run or still in the queue, that no dispatcher runs
  a job twice, and that any dispatcher that waits can run all that is left.
\<close>

section \<open>Who may still run a job\<close>

definition queued :: "('st \<Rightarrow> string \<Rightarrow> stream_entry list) \<Rightarrow> 'st sessions \<Rightarrow> string \<Rightarrow> bool" where
  "queued entries s i \<longleftrightarrow> i \<in> rm_id ` set (stream_messages entries (ss_queue s) QUEUE_TOPIC)"

text \<open>
  A dispatcher can run the job \<open>i\<close> once more when it is at it, or when it will read the queue again and
  the message is still there. A session that has no dispatcher yet counts as well.
\<close>

fun may_run :: "(string \<Rightarrow> bool) \<Rightarrow> string \<Rightarrow> dispatcher option \<Rightarrow> bool" where
  "may_run q i None = True"
| "may_run q i (Some Waiting) = q i"
| "may_run q i (Some (Running m)) = (rm_id m = i \<or> q i)"
| "may_run q i (Some (Finished m)) = (rm_id m \<noteq> i \<and> q i)"
| "may_run q i (Some Ended) = False"

definition runners ::
  "('st \<Rightarrow> string \<Rightarrow> stream_entry list) \<Rightarrow> string \<Rightarrow> 'st sessions \<Rightarrow> nat set" where
  "runners entries i s = {w. w < ss_next s \<and> may_run (queued entries s) i (ss_dispatchers s w)}"

lemma finite_runners [simp]: "finite (runners entries i s)"
  by (simp add: runners_def)

lemma card_runners: "card (runners entries i s) \<le> ss_next s"
  using card_mono [of "{..<ss_next s}" "runners entries i s"] by (auto simp: runners_def)

lemma queued_cong: "ss_queue s' = ss_queue s \<Longrightarrow> queued entries s' = queued entries s"
  by (rule ext) (simp add: queued_def)

section \<open>The invariant\<close>

definition numbered :: "'st sessions \<Rightarrow> bool" where
  "numbered s \<longleftrightarrow> (\<forall>w. ss_dispatchers s w \<noteq> None \<or> ss_live s = Some w \<longrightarrow> w < ss_next s)"

definition held_ok :: "'st sessions \<Rightarrow> bool" where
  "held_ok s \<longleftrightarrow>
     (\<forall>w m. ss_dispatchers s w = Some (Running m) \<longrightarrow> rm_id m \<in> set (ss_accepted s)) \<and>
     (\<forall>w m. ss_dispatchers s w = Some (Finished m) \<longrightarrow> rm_id m \<in> set (ss_runs s))"

definition many_inv ::
  "(string \<Rightarrow> nat \<times> nat) \<Rightarrow> ('st \<Rightarrow> string \<Rightarrow> stream_entry list) \<Rightarrow> ('st \<Rightarrow> string \<Rightarrow> nat \<times> nat) \<Rightarrow>
   'st sessions \<Rightarrow> bool" where
  "many_inv id_key entries last_id s \<longleftrightarrow>
     stream_ok id_key entries last_id (ss_queue s) QUEUE_TOPIC \<and> numbered s \<and> held_ok s \<and>
     distinct (ss_accepted s) \<and>
     set (ss_runs s) \<subseteq> set (ss_accepted s) \<and>
     (\<forall>i. queued entries s i \<longrightarrow> i \<in> set (ss_accepted s)) \<and>
     (\<forall>i \<in> set (ss_accepted s). id_key i \<le> last_id (ss_queue s) QUEUE_TOPIC) \<and>
     (\<forall>i \<in> set (ss_accepted s). i \<in> set (ss_runs s) \<or> queued entries s i) \<and>
     (\<forall>i. count_list (ss_runs s) i + card (runners entries i s) \<le> ss_next s)"

lemmas many_defs = many_inv_def numbered_def held_ok_def

context redis_stream
begin

abbreviation sys_many :: "'st sessions \<Rightarrow> bool" where
  "sys_many \<equiv> many_inv id_key entries last_id"

text \<open>The bound carries over when nobody becomes able to run a job.\<close>

lemma many_bound:
  assumes "sys_many s" "ss_runs s' = ss_runs s" "ss_next s' = ss_next s"
    and "\<And>w. w < ss_next s \<Longrightarrow> may_run (queued entries s') i (ss_dispatchers s' w) \<Longrightarrow>
      may_run (queued entries s) i (ss_dispatchers s w)"
  shows "count_list (ss_runs s') i + card (runners entries i s') \<le> ss_next s'"
proof -
  have "card (runners entries i s') \<le> card (runners entries i s)"
    by (rule card_mono) (use assms(3,4) in \<open>auto simp: runners_def\<close>)
  moreover have "count_list (ss_runs s) i + card (runners entries i s) \<le> ss_next s"
    using assms(1) by (simp add: many_inv_def)
  ultimately show ?thesis using assms(2,3) by simp
qed

lemma many_same:
  assumes inv: "sys_many s" and same: "ss_queue s' = ss_queue s" "ss_runs s' = ss_runs s"
    "ss_accepted s' = ss_accepted s" "ss_next s' = ss_next s" "ss_dispatchers s' = ss_dispatchers s"
    and live: "ss_live s' \<in> {ss_live s, None}"
  shows "sys_many s'"
proof -
  have q: "queued entries s' = queued entries s" by (rule queued_cong [OF same(1)])
  have "numbered s'" using inv live unfolding many_defs same by auto
  moreover have "count_list (ss_runs s') i + card (runners entries i s') \<le> ss_next s'" for i
    by (rule many_bound [OF inv same(2,4)]) (simp add: q same)
  ultimately show ?thesis using inv unfolding many_inv_def held_ok_def q same by blast
qed

lemma many_open:
  assumes inv: "sys_many s"
  shows "sys_many (open_session s)"
proof -
  let ?s = "open_session s"
  have q: "queued entries ?s = queued entries s" by (rule queued_cong) (simp add: open_session_def)
  have same: "ss_runs ?s = ss_runs s" "ss_accepted ?s = ss_accepted s" "ss_queue ?s = ss_queue s"
      "ss_dispatchers ?s = ss_dispatchers s" "ss_next ?s = Suc (ss_next s)" "ss_live ?s = Some (ss_next s)"
    by (simp_all add: open_session_def)
  have "runners entries i ?s \<subseteq> insert (ss_next s) (runners entries i s)" for i
    by (auto simp: runners_def q same less_Suc_eq)
  then have more: "card (runners entries i ?s) \<le> card (insert (ss_next s) (runners entries i s))" for i
    by (intro card_mono) simp_all
  have "count_list (ss_runs s) i + card (runners entries i ?s) \<le> Suc (ss_next s)" for i
  proof -
    have "count_list (ss_runs s) i + card (runners entries i s) \<le> ss_next s"
      using inv by (simp add: many_inv_def)
    then show ?thesis using more [of i] by (simp add: card_insert_if split: if_splits)
  qed
  moreover have "numbered ?s" using inv by (auto simp: many_defs same less_Suc_eq)
  ultimately show ?thesis using inv unfolding many_inv_def held_ok_def q same by blast
qed

text \<open>One dispatcher moves on without reading or writing the queue.\<close>

lemma many_move:
  assumes inv: "sys_many s" and w: "w < ss_next s"
    and same: "ss_queue s' = ss_queue s" "ss_runs s' = ss_runs s" "ss_accepted s' = ss_accepted s"
      "ss_next s' = ss_next s" "ss_live s' = ss_live s"
    and move: "ss_dispatchers s' = (ss_dispatchers s)(w \<mapsto> d)"
    and may: "\<And>i. may_run (queued entries s) i (Some d) \<Longrightarrow> may_run (queued entries s) i (ss_dispatchers s w)"
    and held: "\<And>m. d = Running m \<Longrightarrow> queued entries s (rm_id m)" "\<And>m. d \<noteq> Finished m"
  shows "sys_many s'"
proof -
  have q: "queued entries s' = queued entries s" by (rule queued_cong [OF same(1)])
  have "numbered s'" using inv w by (auto simp: many_defs same move)
  moreover have "held_ok s'" using inv held by (auto simp: many_defs same move)
  moreover have "count_list (ss_runs s') i + card (runners entries i s') \<le> ss_next s'" for i
    by (rule many_bound [OF inv same(2,4)]) (use may in \<open>auto simp: q move split: if_splits\<close>)
  ultimately show ?thesis using inv unfolding many_inv_def q same by blast
qed

lemma many_take:
  assumes inv: "sys_many s"
  shows "sys_many (take_step R w s)"
proof (cases "\<exists>m ms. ss_dispatchers s w = Some Waiting \<and> consume R (ss_queue s) QUEUE_TOPIC = Ok (m # ms)")
  case True
  then obtain m ms where w: "ss_dispatchers s w = Some Waiting"
    and c: "consume R (ss_queue s) QUEUE_TOPIC = Ok (m # ms)" by blast
  have "m # ms = take 1 (stream_messages entries (ss_queue s) QUEUE_TOPIC)"
    using inv c stream_consume by (simp add: many_inv_def)
  then have "m \<in> set (stream_messages entries (ss_queue s) QUEUE_TOPIC)"
    by (metis in_set_takeD list.set_intros(1))
  then have "queued entries s (rm_id m)" by (simp add: queued_def)
  then show ?thesis
    using w c inv
    by (intro many_move [OF inv, of w _ "Running m"]) (auto simp: take_step_def many_defs)
qed (use inv in \<open>auto simp: take_step_def split: outcome.splits list.splits\<close>)

lemma many_run:
  assumes inv: "sys_many s"
  shows "sys_many (run_step env decode_entry decode_job w s)"
proof (cases "\<exists>m effects status. ss_dispatchers s w = Some (Running m) \<and>
    run_job (session_env env s w) decode_entry decode_job m = Some (effects, status)")
  case True
  then obtain m effects status where w: "ss_dispatchers s w = Some (Running m)"
    and r: "run_job (session_env env s w) decode_entry decode_job m = Some (effects, status)" by blast
  have next_w: "w < ss_next s" using inv w by (auto simp: many_defs)
  let ?s = "run_step env decode_entry decode_job w s"
  show ?thesis
  proof (cases status)
    case (TaskPanicked p)
    then show ?thesis
      using w r next_w by (intro many_move [OF inv, of w _ Ended]) (auto simp: run_step_def)
  next
    case Continues
    then have s: "ss_queue ?s = ss_queue s" "ss_runs ?s = ss_runs s @ [rm_id m]" "ss_accepted ?s = ss_accepted s"
        "ss_next ?s = ss_next s" "ss_live ?s = ss_live s" "ss_dispatchers ?s = (ss_dispatchers s)(w \<mapsto> Finished m)"
      using w r by (simp_all add: run_step_def)
    have q: "queued entries ?s = queued entries s" by (rule queued_cong [OF s(1)])
    have bound: "count_list (ss_runs ?s) i + card (runners entries i ?s) \<le> ss_next ?s" for i
    proof -
      have old: "count_list (ss_runs s) i + card (runners entries i s) \<le> ss_next s"
        using inv by (simp add: many_inv_def)
      show ?thesis
      proof (cases "rm_id m = i")
        case True
        then have "runners entries i ?s = runners entries i s - {w}" "w \<in> runners entries i s"
          using w next_w by (auto simp: runners_def q s split: if_splits)
        then have "Suc (card (runners entries i ?s)) = card (runners entries i s)"
          by (metis card_Suc_Diff1 finite_runners)
        then show ?thesis using old True by (simp add: s)
      next
        case False
        then have "runners entries i ?s = runners entries i s"
          using w by (auto simp: runners_def q s split: if_splits)
        then show ?thesis using old False by (simp add: s)
      qed
    qed
    have "numbered ?s" "held_ok ?s" using inv next_w by (auto simp: many_defs s)
    moreover have "rm_id m \<in> set (ss_accepted s)" using inv w by (auto simp: many_defs)
    ultimately show ?thesis
      using inv bound unfolding many_inv_def q by (simp only: s) auto
  qed
next
  case False
  then have "run_step env decode_entry decode_job w s = s"
    by (auto simp: run_step_def split: option.split dispatcher.split)
  then show ?thesis using inv by simp
qed

lemma many_ack:
  assumes acks: "\<And>st i. snd (acknowledge R st QUEUE_TOPIC i) = Ok ()" and inv: "sys_many s"
  shows "sys_many (ack_step R w s)"
proof (cases "\<exists>m. ss_dispatchers s w = Some (Finished m)")
  case True
  then obtain m where w: "ss_dispatchers s w = Some (Finished m)" by blast
  obtain st' where a: "acknowledge R (ss_queue s) QUEUE_TOPIC (rm_id m) = (st', Ok ())"
    using acks by (metis prod.collapse)
  let ?s = "ack_step R w s"
  have s: "?s = s\<lparr>ss_queue := st', ss_dispatchers := (ss_dispatchers s)(w \<mapsto> Waiting)\<rparr>"
    using w a by (simp add: ack_step_def)
  have ok: "stream_ok id_key entries last_id (ss_queue s) QUEUE_TOPIC"
    using inv by (simp add: many_inv_def)
  have st': "stream_ok id_key entries last_id st' QUEUE_TOPIC"
      "stream_messages entries st' QUEUE_TOPIC =
        filter (\<lambda>n. rm_id n \<noteq> rm_id m) (stream_messages entries (ss_queue s) QUEUE_TOPIC)"
    using stream_acknowledge [OF ok a] by simp_all
  have q: "queued entries ?s i \<longleftrightarrow> i \<noteq> rm_id m \<and> queued entries s i" for i
    by (auto simp: queued_def s st'(2))
  have "count_list (ss_runs ?s) i + card (runners entries i ?s) \<le> ss_next ?s" for i
  proof (rule many_bound [OF inv])
    show "may_run (queued entries s) i (ss_dispatchers s v)"
      if "may_run (queued entries ?s) i (ss_dispatchers ?s v)" for v
      using that w q by (cases "(queued entries s, i, ss_dispatchers s v)" rule: may_run.cases)
        (auto simp: s split: if_splits)
  qed (simp_all add: s)
  moreover have "numbered ?s" "held_ok ?s" using inv w by (auto simp: many_defs s)
  moreover have "rm_id m \<in> set (ss_runs s)" using inv w by (auto simp: many_defs)
  moreover note acknowledge_last [OF a]
  ultimately show ?thesis
    using inv st'(1) q unfolding many_inv_def by (simp add: s) auto
qed (use inv in \<open>simp add: ack_step_def split: option.splits dispatcher.splits\<close>)

lemma many_receive:
  assumes inv: "sys_many s"
  shows "sys_many (receive_step R now to_json rid meth params s)"
proof (cases "receive_step R now to_json rid meth params s \<in> {s, end_receiving s}")
  case True
  have "sys_many (end_receiving s)" by (rule many_same [OF inv]) (simp_all add: end_receiving_def)
  then show ?thesis using True inv by auto
next
  case False
  then obtain m st' where p: "produce R (ss_queue s) QUEUE_TOPIC m = (st', Ok ())"
    and "receive_step R now to_json rid meth params s =
      s\<lparr>ss_queue := st', ss_accepted := ss_accepted s @ [rm_id m]\<rparr>" (is "_ = ?s")
    using receive_effect [of now to_json rid meth params s] by blast
  have ok: "stream_ok id_key entries last_id (ss_queue s) QUEUE_TOPIC"
    and old: "\<forall>i \<in> set (ss_accepted s). id_key i \<le> last_id (ss_queue s) QUEUE_TOPIC"
    using inv by (simp_all add: many_inv_def)
  note st' = stream_produce [OF ok p] and last = produce_last [OF p]
  have q: "queued entries ?s i \<longleftrightarrow> i = rm_id m \<or> queued entries s i" for i
    using st' by (auto simp: queued_def)
  have fresh: "rm_id m \<notin> set (ss_accepted s)" using old last by fastforce
  have bound: "count_list (ss_runs s) i + card (runners entries i ?s) \<le> ss_next s" for i
  proof (cases "i = rm_id m")
    case True
    then have "count_list (ss_runs s) i = 0"
      using inv fresh unfolding many_inv_def by (meson count_notin subsetD)
    then show ?thesis using card_runners [of entries i ?s] by simp
  next
    case False
    have "count_list (ss_runs ?s) i + card (runners entries i ?s) \<le> ss_next ?s"
    proof (rule many_bound [OF inv])
      show "may_run (queued entries s) i (ss_dispatchers s v)"
        if "may_run (queued entries ?s) i (ss_dispatchers ?s v)" for v
        using that False q by (cases "(queued entries s, i, ss_dispatchers s v)" rule: may_run.cases) auto
    qed simp_all
    then show ?thesis by simp
  qed
  have "numbered ?s" "held_ok ?s" using inv by (auto simp: many_defs)
  moreover have "id_key i \<le> id_key (rm_id m)" if "i \<in> set (ss_accepted s)" for i
    using old last that by fastforce
  ultimately have "sys_many ?s"
    using inv st' last q bound fresh unfolding many_inv_def by auto
  then show ?thesis using \<open>receive_step R now to_json rid meth params s = ?s\<close> by simp
qed

lemma many_step:
  assumes "sessions_step R env to_json decode_entry decode_job s s'" "sys_many s"
    and "\<And>st i. snd (acknowledge R st QUEUE_TOPIC i) = Ok ()"
  shows "sys_many s'"
  using assms(1)
proof (cases rule: sessions_step.cases)
  case (step_spawn w)
  then have "w < ss_next s" using assms(2) by (simp add: many_defs)
  then show ?thesis
    unfolding step_spawn(1)
    by (intro many_move [OF assms(2), of w _ Waiting]) (simp_all add: spawn_dispatcher_def step_spawn(4))
next
  case step_refused
  then show ?thesis by (intro many_same [OF assms(2)]) simp_all
next
  case step_fail
  then show ?thesis by (intro many_same [OF assms(2)]) (simp_all add: end_receiving_def)
next
  case step_lose
  then show ?thesis by (intro many_same [OF assms(2)]) (simp_all add: lose_session_def)
qed (use assms(2,3) in \<open>simp_all add: many_open many_receive many_take many_run many_ack\<close>)

lemma many_reach:
  assumes "sessions_reach R env to_json decode_entry decode_job s0 s" "sys_many s0"
    and "\<And>st i. snd (acknowledge R st QUEUE_TOPIC i) = Ok ()"
  shows "sys_many s"
  using assms(1,2)
  by (induction rule: sessions_reach.induct) (auto dest: many_step [OF _ _ assms(3)])

lemma many_init:
  assumes "stream_ok id_key entries last_id st QUEUE_TOPIC"
  shows "sys_many (sessions_init st (map rm_id (stream_messages entries st QUEUE_TOPIC)))"
proof -
  let ?s = "sessions_init st (map rm_id (stream_messages entries st QUEUE_TOPIC))"
  have "sys_inv ?s" by (rule inv_init [OF assms])
  then have "(\<forall>i \<in> set (ss_accepted ?s). id_key i \<le> last_id (ss_queue ?s) QUEUE_TOPIC) \<and> distinct (ss_accepted ?s)"
    using distinct_by_key unfolding sessions_inv_def by blast
  then show ?thesis
    using assms by (auto simp: many_defs queued_def runners_def) (auto simp: sessions_init_def)
qed

end

section \<open>Properties\<close>





end
