(* ===== verification/Session_Network.thy ===== *)
theory Session_Network
  imports Linked_Session Reconnection
begin

text \<open>
  The operator over all its sessions: \<open>handle_connection\<close> (\<open>operator/runer/src/api/msg_handler.rs\<close>)
  opens a websocket, loses it and opens the next one, and what was started for a lost session goes on.
  Each session has its two endpoints and its receiving task, as in \<open>Linked_Session\<close>; they share the
  queue and the dispatchers of \<open>Dispatch_System\<close>. What is proved of one connection and of the queue
  over many sessions (\<open>Reconnection\<close>) is put together here.
\<close>

section \<open>State\<close>

text \<open>The connection of one session, with its receiving task.\<close>

record ('v, 'k) wire =
  wr_operator :: "('v, 'k) endpoint"
  wr_partner :: "('v, 'k) endpoint"
  wr_receiver :: "'v receiver"

text \<open>All the sessions ever opened; the log says for each entry which session it came from.\<close>

record ('st, 'v, 'k) network =
  nw_sessions :: "'st sessions"
  nw_wires :: "nat \<Rightarrow> ('v, 'k) wire option"
  nw_log :: "(nat \<times> redis_message \<times> string \<times> 'v) list"

definition network_init :: "'st \<Rightarrow> ('st, 'v, 'k) network" where
  "network_init st = \<lparr>nw_sessions = sessions_init st [], nw_wires = Map.empty, nw_log = []\<rparr>"

definition session_log :: "nat \<Rightarrow> ('st, 'v, 'k) network \<Rightarrow> (redis_message \<times> string \<times> 'v) list" where
  "session_log w N = map snd (filter (\<lambda>e. fst e = w) (nw_log N))"

text \<open>One session of the network, and the network after a step of that session.\<close>

definition session_view :: "('st, 'v, 'k) network \<Rightarrow> nat \<Rightarrow> ('v, 'k) wire \<Rightarrow> ('st, 'v, 'k) linked" where
  "session_view N w wr =
     \<lparr>lk_sessions = nw_sessions N, lk_operator = wr_operator wr, lk_partner = wr_partner wr,
      lk_receiver = wr_receiver wr, lk_log = session_log w N\<rparr>"

definition put_session :: "nat \<Rightarrow> ('st, 'v, 'k) linked \<Rightarrow> ('st, 'v, 'k) network \<Rightarrow> ('st, 'v, 'k) network" where
  "put_session w k N =
     N\<lparr>nw_sessions := lk_sessions k,
       nw_wires := (nw_wires N)(w \<mapsto>
         \<lparr>wr_operator = lk_operator k, wr_partner = lk_partner k, wr_receiver = lk_receiver k\<rparr>),
       nw_log := nw_log N @ map (Pair w) (drop (length (session_log w N)) (lk_log k))\<rparr>"

definition open_wire :: "('v, 'k) endpoint \<Rightarrow> ('v, 'k) endpoint \<Rightarrow> ('st, 'v, 'k) network \<Rightarrow> ('st, 'v, 'k) network" where
  "open_wire a b N =
     N\<lparr>nw_sessions := open_session (nw_sessions N),
       nw_wires := (nw_wires N)(ss_next (nw_sessions N) \<mapsto>
         \<lparr>wr_operator = a, wr_partner = b, wr_receiver = Listening\<rparr>)\<rparr>"

section \<open>Steps\<close>

text \<open>
  The open session moves as in \<open>Linked_Session\<close>. The connections of lost sessions go on without a
  receiving task: their partner may still write to them and the tasks left over from the session may
  still make requests. The operator's static counter is what it was when a connection is opened.
\<close>

inductive network_step ::
  "'st redis \<Rightarrow> ('v wire_message, 'k, 's) signer_lib \<Rightarrow> 'v ws_json \<Rightarrow> (ws_response \<Rightarrow> 'v) \<Rightarrow> job_env \<Rightarrow>
   (string \<times> 'v \<Rightarrow> (string, string) outcome) \<Rightarrow>
   (string \<Rightarrow> (string \<times> 'v, string) outcome) \<Rightarrow> ('v \<Rightarrow> (dispatch_job_param list, string) outcome) \<Rightarrow>
   ('st, 'v, 'k) network \<Rightarrow> ('st, 'v, 'k) network \<Rightarrow> bool"
  for R L J reply_json env to_json decode_entry decode_job where
  net_open: "ss_running (nw_sessions N) \<Longrightarrow> ss_live (nw_sessions N) = None \<Longrightarrow>
     network_step R L J reply_json env to_json decode_entry decode_job N
       (open_wire (endpoint_init ka ca) (endpoint_init kb cb) N)"
| net_session: "ss_live (nw_sessions N) = Some w \<Longrightarrow> nw_wires N w = Some wr \<Longrightarrow>
     linked_step R L J reply_json env to_json decode_entry decode_job (session_view N w wr) k \<Longrightarrow>
     network_step R L J reply_json env to_json decode_entry decode_job N (put_session w k N)"
| net_partner: "nw_wires N w = Some wr \<Longrightarrow> ep_step L J (ep_sent (wr_operator wr)) (wr_partner wr) b \<Longrightarrow>
     network_step R L J reply_json env to_json decode_entry decode_job N
       (N\<lparr>nw_wires := (nw_wires N)(w \<mapsto> wr\<lparr>wr_partner := b\<rparr>)\<rparr>)"
| net_call: "ss_running (nw_sessions N) \<Longrightarrow> nw_wires N w = Some wr \<Longrightarrow>
     ep_step L J (ep_sent (wr_partner wr)) (wr_operator wr) a \<Longrightarrow>
     ep_taken a = ep_taken (wr_operator wr) \<Longrightarrow> ep_pending a = ep_pending (wr_operator wr) \<Longrightarrow>
     network_step R L J reply_json env to_json decode_entry decode_job N
       (N\<lparr>nw_wires := (nw_wires N)(w \<mapsto> wr\<lparr>wr_operator := a\<rparr>)\<rparr>)"
| net_dispatchers: "ss_running (nw_sessions N) \<Longrightarrow>
     background_step R env decode_entry decode_job (nw_sessions N) s \<Longrightarrow>
     network_step R L J reply_json env to_json decode_entry decode_job N (N\<lparr>nw_sessions := s\<rparr>)"

inductive network_reach ::
  "'st redis \<Rightarrow> ('v wire_message, 'k, 's) signer_lib \<Rightarrow> 'v ws_json \<Rightarrow> (ws_response \<Rightarrow> 'v) \<Rightarrow> job_env \<Rightarrow>
   (string \<times> 'v \<Rightarrow> (string, string) outcome) \<Rightarrow>
   (string \<Rightarrow> (string \<times> 'v, string) outcome) \<Rightarrow> ('v \<Rightarrow> (dispatch_job_param list, string) outcome) \<Rightarrow>
   ('st, 'v, 'k) network \<Rightarrow> ('st, 'v, 'k) network \<Rightarrow> bool"
  for R L J reply_json env to_json decode_entry decode_job where
  network_refl: "network_reach R L J reply_json env to_json decode_entry decode_job N N"
| network_more: "network_reach R L J reply_json env to_json decode_entry decode_job N N' \<Longrightarrow>
     network_step R L J reply_json env to_json decode_entry decode_job N' N'' \<Longrightarrow>
     network_reach R L J reply_json env to_json decode_entry decode_job N N''"

section \<open>The connections\<close>

text \<open>Each connection keeps what \<open>Linked_Session\<close> shows of one.\<close>

definition wires_ok :: "'v ws_json \<Rightarrow> ('st, 'v, 'k) network \<Rightarrow> bool" where
  "wires_ok J N \<longleftrightarrow>
     (\<forall>w wr. nw_wires N w = Some wr \<longrightarrow> w < ss_next (nw_sessions N) \<and> (\<exists>ca cb. joined J ca cb (session_view N w wr))) \<and>
     (\<forall>e \<in> set (nw_log N). nw_wires N (fst e) \<noteq> None)"

lemma session_view_simps [simp]:
  "lk_sessions (session_view N w wr) = nw_sessions N" "lk_operator (session_view N w wr) = wr_operator wr"
  "lk_partner (session_view N w wr) = wr_partner wr" "lk_receiver (session_view N w wr) = wr_receiver wr"
  "lk_log (session_view N w wr) = session_log w N"
  by (simp_all add: session_view_def)

lemma session_log_more:
  "nw_log N' = nw_log N @ map (Pair v) es \<Longrightarrow>
   session_log w N' = session_log w N @ (if w = v then es else [])"
  by (simp add: session_log_def filter_map comp_def)

lemma put_session_log:
  "lk_log k = session_log w N @ es \<Longrightarrow> nw_log (put_session w k N) = nw_log N @ map (Pair w) es"
  by (simp add: put_session_def)

lemma session_log_none: "wires_ok J N \<Longrightarrow> nw_wires N w = None \<Longrightarrow> session_log w N = []"
  unfolding wires_ok_def session_log_def by (auto simp: filter_empty_conv)

lemma wires_put:
  assumes ok: "wires_ok J N" and w: "nw_wires N w = Some wr"
    and k: "\<And>ca cb. joined J ca cb (session_view N w wr) \<Longrightarrow> joined J ca cb k"
    and log: "lk_log k = session_log w N @ es" and nxt: "ss_next (lk_sessions k) = ss_next (nw_sessions N)"
  shows "wires_ok J (put_session w k N)"
proof -
  let ?N = "put_session w k N"
  note more = session_log_more [OF put_session_log [OF log]]
  have "\<exists>ca cb. joined J ca cb (session_view ?N v wr')" if "nw_wires ?N v = Some wr'" for v wr'
  proof (cases "v = w")
    case True
    obtain ca cb where j: "joined J ca cb k" using ok w k unfolding wires_ok_def by blast
    have "wr' = \<lparr>wr_operator = lk_operator k, wr_partner = lk_partner k, wr_receiver = lk_receiver k\<rparr>"
      using that True by (simp add: put_session_def)
    moreover have "session_log v ?N = lk_log k" by (simp add: more log True)
    ultimately have "joined J ca cb (session_view ?N v wr')"
      by (intro joined_cong [OF j]) simp_all
    then show ?thesis by blast
  next
    case False
    then have "nw_wires N v = Some wr'" using that by (simp add: put_session_def)
    then obtain ca cb where j: "joined J ca cb (session_view N v wr')" using ok unfolding wires_ok_def by blast
    have "joined J ca cb (session_view ?N v wr')"
      using False by (intro joined_cong [OF j]) (simp_all add: more)
    then show ?thesis by blast
  qed
  moreover have "v < ss_next (nw_sessions ?N)" if "nw_wires ?N v = Some wr'" for v wr'
    using that ok w nxt by (auto simp: wires_ok_def put_session_def split: if_splits)
  moreover have "\<forall>e \<in> set (nw_log ?N). nw_wires ?N (fst e) \<noteq> None"
    using ok w by (auto simp: put_session_log [OF log] wires_ok_def) (auto simp: put_session_def)
  ultimately show ?thesis unfolding wires_ok_def by blast
qed

lemma update_is_put:
  "N\<lparr>nw_wires := (nw_wires N)(w \<mapsto> wr\<lparr>wr_partner := b\<rparr>)\<rparr> =
     put_session w ((session_view N w wr)\<lparr>lk_partner := b\<rparr>) N"
  "N\<lparr>nw_wires := (nw_wires N)(w \<mapsto> wr\<lparr>wr_operator := a\<rparr>)\<rparr> =
     put_session w ((session_view N w wr)\<lparr>lk_operator := a\<rparr>) N"
  by (cases wr; simp add: put_session_def)+

lemma wires_open:
  assumes ok: "wires_ok J N"
  shows "wires_ok J (open_wire (endpoint_init ka ca) (endpoint_init kb cb) N)"
proof -
  let ?N = "open_wire (endpoint_init ka ca) (endpoint_init kb cb) N" and ?n = "ss_next (nw_sessions N)"
  have log: "session_log v ?N = session_log v N" for v by (simp add: session_log_def open_wire_def)
  have fresh: "nw_wires N ?n = None" using ok unfolding wires_ok_def by (metis less_irrefl not_Some_eq)
  note none = session_log_none [OF ok fresh]
  have "\<exists>ca cb. joined J ca cb (session_view ?N v wr)" if v: "nw_wires ?N v = Some wr" for v wr
  proof (cases "v = ?n")
    case True
    then have "wr = \<lparr>wr_operator = endpoint_init ka ca, wr_partner = endpoint_init kb cb, wr_receiver = Listening\<rparr>"
      using v by (simp add: open_wire_def)
    then have "joined J ca cb (session_view ?N v wr)"
      by (intro joined_cong [OF joined_init [of J ca cb undefined ka kb]])
        (simp_all add: log True none linked_init_def)
    then show ?thesis by blast
  next
    case False
    then have "nw_wires N v = Some wr" using v by (simp add: open_wire_def)
    then obtain ca cb where j: "joined J ca cb (session_view N v wr)" using ok unfolding wires_ok_def by blast
    have "joined J ca cb (session_view ?N v wr)" by (rule joined_cong [OF j]) (simp_all add: log)
    then show ?thesis by blast
  qed
  moreover have "v < ss_next (nw_sessions ?N)" if "nw_wires ?N v = Some wr" for v wr
    using that ok by (auto simp: wires_ok_def open_wire_def open_session_def less_Suc_eq split: if_splits)
  moreover have "\<forall>e \<in> set (nw_log ?N). nw_wires ?N (fst e) \<noteq> None"
    using ok by (auto simp: wires_ok_def open_wire_def)
  ultimately show ?thesis unfolding wires_ok_def by blast
qed

section \<open>The queue\<close>

text \<open>\<open>logged\<close> over all sessions, and the dispatchers' messages with it.\<close>

definition net_logged ::
  "('st \<Rightarrow> string \<Rightarrow> stream_entry list) \<Rightarrow> (string \<times> 'v \<Rightarrow> (string, string) outcome) \<Rightarrow>
   'st sessions \<Rightarrow> (nat \<times> redis_message \<times> string \<times> 'v) list \<Rightarrow> bool" where
  "net_logged entries to_json s lg \<longleftrightarrow>
     ss_accepted s = map (rm_id \<circ> fst \<circ> snd) lg \<and>
     set (stream_messages entries (ss_queue s) QUEUE_TOPIC) \<subseteq> (fst \<circ> snd) ` set lg \<and>
     (\<forall>(w, m, rid, params) \<in> set lg. to_json (rid, params) = Ok (rm_data m)) \<and>
     (\<forall>w m. ss_dispatchers s w = Some (Running m) \<longrightarrow> m \<in> (fst \<circ> snd) ` set lg)"

lemma net_logged_effect:
  assumes "net_logged entries to_json s lg" "log_effect entries to_json s es s'"
  shows "net_logged entries to_json s' (lg @ map (Pair w) es)"
proof -
  have new: "(fst \<circ> snd) ` set (lg @ map (Pair w) es) = (fst \<circ> snd) ` set lg \<union> fst ` set es"
    by (simp add: image_Un image_image)
  have "ss_accepted s' = map (rm_id \<circ> fst \<circ> snd) (lg @ map (Pair w) es)"
    using assms by (simp add: net_logged_def log_effect_def)
  moreover have "\<forall>(w, m, rid, params) \<in> set (lg @ map (Pair w) es). to_json (rid, params) = Ok (rm_data m)"
    using assms by (auto simp: net_logged_def log_effect_def)
  moreover have "set (stream_messages entries (ss_queue s') QUEUE_TOPIC) \<subseteq> (fst \<circ> snd) ` set lg \<union> fst ` set es"
    using assms unfolding net_logged_def log_effect_def by blast
  moreover have "m \<in> (fst \<circ> snd) ` set lg \<union> fst ` set es" if "ss_dispatchers s' v = Some (Running m)" for v m
    using assms that unfolding net_logged_def log_effect_def by blast
  ultimately show ?thesis unfolding net_logged_def new by blast
qed

definition network_ok ::
  "(string \<Rightarrow> nat \<times> nat) \<Rightarrow> ('st \<Rightarrow> string \<Rightarrow> stream_entry list) \<Rightarrow> ('st \<Rightarrow> string \<Rightarrow> nat \<times> nat) \<Rightarrow>
   'v ws_json \<Rightarrow> (string \<times> 'v \<Rightarrow> (string, string) outcome) \<Rightarrow> ('st, 'v, 'k) network \<Rightarrow> bool" where
  "network_ok id_key entries last_id J to_json N \<longleftrightarrow>
     many_inv id_key entries last_id (nw_sessions N) \<and> wires_ok J N \<and>
     net_logged entries to_json (nw_sessions N) (nw_log N)"

context redis_stream
begin

lemma network_is_step:
  assumes "network_step R L J reply_json env to_json decode_entry decode_job N N'"
  shows "nw_sessions N' = nw_sessions N \<or>
    sessions_step R env to_json decode_entry decode_job (nw_sessions N) (nw_sessions N')"
  using assms
proof cases
  case (net_session w wr k)
  then show ?thesis using linked_is_step [OF net_session(4)] by (simp add: put_session_def)
qed (auto simp: open_wire_def intro: step_open background_is_step)

lemma network_ok_step:
  assumes step: "network_step R L J reply_json env to_json decode_entry decode_job N N'"
    and ok: "network_ok id_key entries last_id J to_json N" and laws: "json_laws J"
    and acks: "\<And>st i. snd (acknowledge R st QUEUE_TOPIC i) = Ok ()"
  shows "network_ok id_key entries last_id J to_json N'"
proof -
  have inv: "sys_many (nw_sessions N)" and wires: "wires_ok J N"
    and lg: "net_logged entries to_json (nw_sessions N) (nw_log N)"
    using ok by (simp_all add: network_ok_def)
  have queue: "stream_ok id_key entries last_id (ss_queue (nw_sessions N)) QUEUE_TOPIC"
    using inv by (simp add: many_inv_def)
  have "sys_many (nw_sessions N')"
    using network_is_step [OF step] many_step [OF _ inv acks] inv by auto
  moreover have "wires_ok J N' \<and> net_logged entries to_json (nw_sessions N') (nw_log N')"
    using step
  proof cases
    case (net_open ka ca kb cb)
    have "net_logged entries to_json (nw_sessions N') (nw_log N')"
      using lg by (simp add: net_open(1) open_wire_def open_session_def net_logged_def)
    then show ?thesis using wires_open [OF wires] net_open(1) by simp
  next
    case (net_session w wr k)
    obtain es where log: "lk_log k = session_log w N @ es"
      and es: "log_effect entries to_json (nw_sessions N) es (lk_sessions k)"
      using linked_effect [OF net_session(4) _ acks] queue by auto
    have "wires_ok J N'"
      unfolding net_session(1) using linked_next [OF net_session(4)]
      by (intro wires_put [OF wires net_session(3) joined_step [OF net_session(4) laws] log]) simp_all
    moreover have "net_logged entries to_json (nw_sessions N') (nw_log N')"
      unfolding net_session(1) put_session_log [OF log]
      using net_logged_effect [OF lg es] by (simp add: put_session_def)
    ultimately show ?thesis by simp
  next
    case (net_partner w wr b)
    have "wires_ok J N'"
      unfolding net_partner(1) update_is_put
      by (rule wires_put [OF wires net_partner(2), of _ "[]"])
        (use joined_partner [of J _ _ "session_view N w wr" L b, OF _ _ laws] net_partner(3) in simp_all)
    then show ?thesis using lg by (simp add: net_partner(1))
  next
    case (net_call w wr a)
    have "wires_ok J N'"
      unfolding net_call(1) update_is_put
      by (rule wires_put [OF wires net_call(3), of _ "[]"])
        (use joined_call [of J _ _ "session_view N w wr" L a, OF _ _ laws] net_call(4-6) in simp_all)
    then show ?thesis using lg by (simp add: net_call(1))
  next
    case (net_dispatchers s)
    have "wires_ok J N'"
      using wires background_frame [OF net_dispatchers(3)]
      unfolding wires_ok_def net_dispatchers(1)
      by (simp add: joined_def receiver_ok_def framed_def session_log_def)
    moreover have "net_logged entries to_json s (nw_log N)"
      using net_logged_effect [OF lg background_effect [OF net_dispatchers(3) queue acks]] by simp
    ultimately show ?thesis by (simp add: net_dispatchers(1))
  qed
  ultimately show ?thesis by (simp add: network_ok_def)
qed

lemma network_ok_reach:
  assumes "network_reach R L J reply_json env to_json decode_entry decode_job N0 N"
    and "network_ok id_key entries last_id J to_json N0" "json_laws J"
    and "\<And>st i. snd (acknowledge R st QUEUE_TOPIC i) = Ok ()"
  shows "network_ok id_key entries last_id J to_json N"
  using assms(1,2)
proof (induction rule: network_reach.induct)
  case (network_more N N' N'')
  then show ?case using network_ok_step [OF network_more.hyps(2) _ assms(3,4)] by blast
qed

lemma network_ok_init:
  assumes "stream_ok id_key entries last_id st QUEUE_TOPIC" "stream_messages entries st QUEUE_TOPIC = []"
  shows "network_ok id_key entries last_id J to_json (network_init st)"
  using many_init [OF assms(1)] assms(2)
  by (simp add: network_ok_def network_init_def wires_ok_def net_logged_def) (simp add: sessions_init_def)

end

text \<open>Within a session no two entries have the same request id, so over all sessions no two have the
  same session and request id.\<close>

lemma distinct_by_class:
  "(\<And>w. distinct (map g (filter (\<lambda>e. c e = w) lg))) \<Longrightarrow> distinct (map (\<lambda>e. (c e, g e)) lg)"
proof (induction lg)
  case (Cons e lg)
  have "distinct (map g (filter (\<lambda>e. c e = w) lg))" for w
    using Cons.prems [of w] by (simp split: if_splits)
  moreover have "(c e, g e) \<notin> (\<lambda>e. (c e, g e)) ` set lg"
    using Cons.prems [of "c e"] by auto
  ultimately show ?case using Cons.IH by simp
qed simp

lemma session_log_distinct:
  assumes "wires_ok J N" "\<forall>w wr. nw_wires N w = Some wr \<longrightarrow> ep_drawn (wr_partner wr) \<le> 2 ^ 64"
  shows "distinct (map (\<lambda>e. (fst e, fst (snd (snd e)))) (nw_log N))"
proof (rule distinct_by_class)
  fix w
  have "distinct (map (fst \<circ> snd) (session_log w N))"
  proof (cases "nw_wires N w")
    case None
    then show ?thesis using session_log_none [OF assms(1)] by simp
  next
    case (Some wr)
    then obtain ca cb where "joined J ca cb (session_view N w wr)" using assms(1) unfolding wires_ok_def by blast
    then show ?thesis using joined_asked [of J ca cb "session_view N w wr"] assms(2) Some by simp
  qed
  then show "distinct (map (\<lambda>e. fst (snd (snd e))) (filter (\<lambda>e. fst e = w) (nw_log N)))"
    by (simp add: session_log_def comp_def)
qed

lemma session_log_issued:
  assumes "wires_ok J N" "\<forall>w wr. nw_wires N w = Some wr \<longrightarrow> ep_drawn (wr_partner wr) \<le> 2 ^ 64"
    and "(w, m, rid, params) \<in> set (nw_log N)"
  shows "\<exists>wr tok. nw_wires N w = Some wr \<and> (rid, ''dispatch_job'', params, tok) \<in> set (ep_issued (wr_partner wr))"
proof -
  obtain wr where wr: "nw_wires N w = Some wr" using assms(1,3) unfolding wires_ok_def by fastforce
  then obtain ca cb where "joined J ca cb (session_view N w wr)" using assms(1) unfolding wires_ok_def by blast
  then have "set (map asked (session_log w N)) \<subseteq> set (map issue_key (ep_issued (wr_partner wr)))"
    using joined_asked [of J ca cb "session_view N w wr"] assms(2) wr by simp
  moreover have "(m, rid, params) \<in> set (session_log w N)" using assms(3) by (force simp: session_log_def)
  ultimately have "(rid, ''dispatch_job'', params) \<in> set (map issue_key (ep_issued (wr_partner wr)))" by force
  then show ?thesis using wr by (force elim!: issue_key.elims)
qed

lemma logged_fate:
  assumes log: "net_logged entries to_json s lg" and inv: "many_inv id_key entries last_id s"
    and entry: "(w, m, q) \<in> set lg"
  shows "rm_id m \<in> set (ss_runs s) \<or> m \<in> set (stream_messages entries (ss_queue s) QUEUE_TOPIC)"
proof -
  have ids: "ss_accepted s = map (rm_id \<circ> fst \<circ> snd) lg" using log by (simp add: net_logged_def)
  then have inj: "inj_on (rm_id \<circ> fst \<circ> snd) (set lg)"
    using inv unfolding many_inv_def by (metis distinct_map)
  have same: "m' = m" if "m' \<in> (fst \<circ> snd) ` set lg" "rm_id m' = rm_id m" for m'
  proof -
    obtain e where "e \<in> set lg" "m' = fst (snd e)" using \<open>m' \<in> (fst \<circ> snd) ` set lg\<close> by auto
    moreover from this have "e = (w, m, q)" using entry \<open>rm_id m' = rm_id m\<close> by (intro inj_onD [OF inj]) simp_all
    ultimately show ?thesis by simp
  qed
  have "rm_id m \<in> set (ss_accepted s)" using entry unfolding ids by force
  then consider "rm_id m \<in> set (ss_runs s)"
    | m' where "m' \<in> set (stream_messages entries (ss_queue s) QUEUE_TOPIC)" "rm_id m' = rm_id m"
    using inv unfolding many_inv_def queued_def by (metis imageE)
  then show ?thesis
  proof cases
    case 2
    then have "m' \<in> (fst \<circ> snd) ` set lg" using log unfolding net_logged_def by blast
    then show ?thesis using same 2 by blast
  qed blast
qed

section \<open>One session as a network\<close>

definition single_network :: "('st, 'v, 'k) linked \<Rightarrow> ('st, 'v, 'k) network" where
  "single_network k =
     \<lparr>nw_sessions = lk_sessions k,
      nw_wires = [0 \<mapsto> \<lparr>wr_operator = lk_operator k, wr_partner = lk_partner k, wr_receiver = lk_receiver k\<rparr>],
      nw_log = map (Pair 0) (lk_log k)\<rparr>"

lemma single_view:
  "nw_wires (single_network k) 0 =
     Some \<lparr>wr_operator = lk_operator k, wr_partner = lk_partner k, wr_receiver = lk_receiver k\<rparr>"
  "session_view (single_network k) 0
     \<lparr>wr_operator = lk_operator k, wr_partner = lk_partner k, wr_receiver = lk_receiver k\<rparr> = k"
  "nw_sessions (single_network k) = lk_sessions k"
  by (simp_all add: single_network_def session_view_def session_log_def filter_map comp_def)

lemma single_put:
  assumes "lk_log k' = lk_log k @ es"
  shows "put_session 0 k' (single_network k) = single_network k'"
  using assms by (simp add: put_session_def single_network_def session_log_def filter_map comp_def)

lemma linked_log:
  assumes "linked_step R L J reply_json env to_json decode_entry decode_job k k'"
  shows "\<exists>es. lk_log k' = lk_log k @ es"
  using assms by cases (simp_all add: listen_step_parts lost_step_parts handle_step_parts reply_step_parts)

definition receives_live :: "'st sessions \<Rightarrow> bool" where
  "receives_live s \<longleftrightarrow> (ss_receiving s \<longrightarrow> ss_live s = Some 0)"

lemma receives_live_background:
  "background_step R env decode_entry decode_job s s' \<Longrightarrow> receives_live s \<Longrightarrow> receives_live s'"
  by (induction rule: background_step.induct)
    (auto simp: receives_live_def spawn_dispatcher_def lose_session_def take_step_def run_step_def ack_step_def
      split: outcome.split list.split option.split dispatcher.split prod.split task_status.split)

lemma receives_live_step:
  assumes "linked_step R L J reply_json env to_json decode_entry decode_job k k'" "receives_live (lk_sessions k)"
  shows "receives_live (lk_sessions k')"
proof -
  have ended: "receives_live (end_receiving s)" for s :: "'a sessions"
    by (simp add: receives_live_def end_receiving_def)
  have received: "receives_live (receive_step R now to_json rid meth params s)" if "receives_live s"
    for now rid meth params s
    using that ended by (auto simp: receive_step_def receives_live_def split: outcome.split)
  show ?thesis
    using assms
  proof (induction rule: linked_step.induct)
    case (on_listen k pong)
    then show ?case using listen_step_parts(4) [of L J pong k] ended by auto
  next
    case (on_reply k q res)
    then show ?case using reply_step_parts(4) [of L J reply_json res k] ended by auto
  qed (auto simp: ended received lost_step_parts handle_step_parts receives_live_background)
qed

lemma single_step:
  assumes step: "linked_step R L J reply_json env to_json decode_entry decode_job k k'"
    and live: "receives_live (lk_sessions k)"
  shows "network_step R L J reply_json env to_json decode_entry decode_job (single_network k) (single_network k')"
proof (cases "ss_live (lk_sessions k) = Some 0")
  case True
  obtain es where "lk_log k' = lk_log k @ es" using linked_log [OF step] by blast
  from single_put [OF this] show ?thesis
    using net_session [of "single_network k" 0 _ R L J reply_json env to_json decode_entry decode_job k'] True step
    by (simp add: single_view)
next
  case False
  then have "\<not> ss_receiving (lk_sessions k)" using live by (simp add: receives_live_def)
  with step show ?thesis
  proof cases
    case (on_partner b)
    with net_partner [OF single_view(1) [of k], of L J b R reply_json env to_json decode_entry decode_job]
    show ?thesis by (simp add: single_network_def)
  next
    case (on_call a)
    with net_call [OF _ single_view(1) [of k], of L J a R reply_json env to_json decode_entry decode_job]
    show ?thesis by (simp add: single_network_def)
  next
    case (on_background s)
    with net_dispatchers [of "single_network k" R env decode_entry decode_job s L J reply_json to_json]
    show ?thesis by (simp add: single_network_def)
  qed simp_all
qed

lemma single_init:
  "network_reach R L J reply_json env to_json decode_entry decode_job (network_init st)
     (single_network (linked_init st (endpoint_init ka ca) (endpoint_init kb cb)))"
proof -
  have opened: "single_network (linked_init st a b) = open_wire a b (network_init st)" for a b
    by (simp add: open_wire_def network_init_def single_network_def linked_init_def sessions_init_def)
  show ?thesis
    unfolding opened by (rule network_more [OF network_refl net_open])
      (simp_all add: network_init_def sessions_init_def)
qed

lemma single_reach:
  assumes "linked_reach R L J reply_json env to_json decode_entry decode_job k0 k" "receives_live (lk_sessions k0)"
    and "network_reach R L J reply_json env to_json decode_entry decode_job N (single_network k0)"
  shows "network_reach R L J reply_json env to_json decode_entry decode_job N (single_network k) \<and>
    receives_live (lk_sessions k)"
  using assms
proof (induction rule: linked_reach.induct)
  case (linked_more k k' k'')
  then show ?case
    using single_step [OF linked_more.hyps(2)] receives_live_step [OF linked_more.hyps(2)] network_more by blast
qed blast

section \<open>Properties\<close>



end
