(* ===== verification/Operator_Job.thy ===== *)
theory Operator_Job
  imports Job_Handler
begin

text \<open>
  \<open>do_job\<close> of \<open>operator/runer/src/api/msg_handler.rs\<close> with its two partners in place: \<open>compute_vrf\<close>,
  which decides with the range contract and the proof of \<open>Ecvrf\<close> whether the job is given to a
  worker, and the \<open>Verify_Hub\<close>, through which the question goes to the worker and its answer comes
  back.
\<close>

section \<open>The two ends of a job\<close>

text \<open>The part of \<open>do_job\<close> after the selection, and the part after the reply is made.\<close>

definition ask_worker ::
  "job_env \<Rightarrow> dispatch_job_param \<Rightarrow> (job_result_param list, operator_error) outcome" where
  "ask_worker env params =
     (let j = dj_job params in
      if job_tag j = ''opml'' then
        do_opml_job (je_opml_status env) (je_ask_opml env) (je_uuid env) (job_model j) (job_prompt j)
          (dj_user params) (dj_job_id params) (dj_tag params) (callback_url (oc_net (je_config env)))
          (dj_clock params)
      else if job_tag j = ''tee'' then
        do_tee_job (je_tee_status env) (je_ask_tee env) (je_uuid env) (job_model j) (job_prompt j)
          (dj_user params) (dj_job_id params) (dj_tag params) (jp_temperature (job_parameters j))
          (jp_top_p (job_parameters j)) (jp_max_tokens (job_parameters j)) (dj_clock params)
      else Err (OPUnsupportedTagError (job_tag j)))"

definition decline ::
  "dispatch_job_param \<Rightarrow> vrf_reply \<Rightarrow> (job_result_param list, operator_error) outcome" where
  "decline params vrf =
     and_then (bump_clock ''Clock value missing'' (dj_clock params)) (\<lambda>clock.
       Ok [result_param (dj_user params) (dj_job_id params) (dj_tag params) [] vrf clock])"

definition end_job ::
  "job_env \<Rightarrow> (job_result_param list, operator_error) outcome \<Rightarrow>
   job_effect list \<times> (unit, operator_error) outcome" where
  "end_job env reply =
     (case reply of Err e \<Rightarrow> ([], Err e) | Panic m \<Rightarrow> ([], Panic m) | Ok res \<Rightarrow> finish_job env res)"

text \<open>The replies among the effects of a job.\<close>

definition sent_replies :: "job_effect list \<Rightarrow> job_result_param list list" where
  "sent_replies effects =
     List.map_filter (\<lambda>e. case e of SendResult rs \<Rightarrow> Some rs | SinkJob a b c d f \<Rightarrow> None) effects"

text \<open>The environment asks \<open>compute_vrf\<close> with the configuration of the operator.\<close>

definition vrf_env ::
  "profile \<Rightarrow> ('p, 's) curve \<Rightarrow> (bytes \<Rightarrow> string) \<Rightarrow> (string \<Rightarrow> nat option) \<Rightarrow>
   (string \<Rightarrow> (bytes, string) outcome) \<Rightarrow> range_contract \<Rightarrow> vrf_private_key \<Rightarrow> job_env \<Rightarrow> job_env" where
  "vrf_env b C hex_encode big_from_hex h ct sk env =
     env\<lparr>je_compute_vrf := compute_vrf b C hex_encode big_from_hex h ct (je_config env) sk\<rparr>"

section \<open>Questions through the hub\<close>

text \<open>A run of one side of the hub with the answers its callback got, in order.\<close>

inductive side_trace ::
  "('a \<Rightarrow> string) \<Rightarrow> bool \<Rightarrow> 'a hub_side \<Rightarrow> 'a list \<Rightarrow> 'a hub_side \<Rightarrow> bool"
  for ident clean_up where
  trace_refl: "side_trace ident clean_up s [] s"
| trace_open: "side_trace ident clean_up s cbs s' \<Longrightarrow> open_channel s' rid = (s'', ch) \<Longrightarrow>
     side_trace ident clean_up s cbs s''"
| trace_callback: "side_trace ident clean_up s cbs s' \<Longrightarrow> hub_callback ident s' a = Some s'' \<Longrightarrow>
     side_trace ident clean_up s (cbs @ [a]) s''"
| trace_wait: "side_trace ident clean_up s cbs s' \<Longrightarrow>
     hub_wait clean_up s' rid ch timed_out = Some (s'', r) \<Longrightarrow> side_trace ident clean_up s cbs s''"

text \<open>
  A handler registers a question under \<open>rid\<close>, other things happen, the callback gets the answers
  \<open>cbs\<close>, and the handler returns \<open>a\<close>.
\<close>

definition hub_exchange :: "('a \<Rightarrow> string) \<Rightarrow> bool \<Rightarrow> string \<Rightarrow> 'a list \<Rightarrow> 'a \<Rightarrow> bool" where
  "hub_exchange ident clean_up rid cbs a \<longleftrightarrow>
     (\<exists>before s0 s1 s2 s3 ch timed_out.
        side_trace ident clean_up new_side before s0 \<and> open_channel s0 rid = (s1, ch) \<and>
        side_trace ident clean_up s1 cbs s2 \<and> hub_wait clean_up s2 rid ch timed_out = Some (s3, Ok a))"

section \<open>Lemmas\<close>

lemma do_job_split:
  assumes "je_hub_ready env"
    and "je_compute_vrf env (dj_tag params) (dj_position params) (job_prompt (dj_job params)) = Some (Ok vrf)"
    and "job_tag (dj_job params) = nc_node_type (oc_node (je_config env))"
  shows "do_job env (params # rest) =
    Some (end_job env (if vr_selected vrf then ask_worker env params else decline params vrf))"
  using assms
  by (simp add: do_job_def job_reply_def end_job_def ask_worker_def decline_def Let_def split: outcome.split)

lemma trace_steps: "side_trace ident clean_up s cbs s' \<Longrightarrow> side_steps ident clean_up s s'"
  by (induction rule: side_trace.induct)
    (auto intro: steps_refl steps_more step_open step_callback step_wait)

lemma callback_buffers:
  "hub_callback ident s a = Some s' \<Longrightarrow> set (hs_buffers s' ch) \<subseteq> insert a (set (hs_buffers s ch))"
  by (auto simp: hub_callback_def channel_send_def split: option.splits if_splits)

lemma wait_buffers:
  "hub_wait clean_up s rid c timed_out = Some (s', r) \<Longrightarrow> set (hs_buffers s' ch) \<subseteq> set (hs_buffers s ch)"
  by (auto simp: hub_wait_def drop_receiver_def split: list.splits if_splits)

text \<open>What is in a channel came through a callback of the run.\<close>

lemma trace_buffers:
  "side_trace ident clean_up s cbs s' \<Longrightarrow> set (hs_buffers s' ch) \<subseteq> set (hs_buffers s ch) \<union> set cbs"
proof (induction rule: side_trace.induct)
  case (trace_open s cbs s' rid s'' c)
  then show ?case by (auto simp: open_channel_def Let_def)
next
  case (trace_callback s cbs s' a s'')
  then show ?case using callback_buffers [OF trace_callback.hyps(2), of ch] by auto
next
  case (trace_wait s cbs s' rid c timed_out s'' r)
  then show ?case using wait_buffers [OF trace_wait.hyps(2), of ch] by blast
qed simp

lemma exchange_answers:
  assumes "hub_exchange ident clean_up rid cbs a"
  shows "a \<in> set cbs \<and> ident a = rid"
proof -
  obtain before s0 s1 s2 s3 ch timed_out where run: "side_trace ident clean_up new_side before s0"
      "open_channel s0 rid = (s1, ch)" "side_trace ident clean_up s1 cbs s2"
      "hub_wait clean_up s2 rid ch timed_out = Some (s3, Ok a)"
    using assms by (auto simp: hub_exchange_def)
  have inv0: "side_inv ident s0" using side_inv_steps [OF trace_steps [OF run(1)] side_inv_new] .
  then have inv1: "side_inv ident s1" using side_inv_open run(2) by blast
  have ch: "hs_asked s1 ch = rid" "ch < hs_next s1" "hs_buffers s1 ch = hs_buffers s0 (hs_next s0)"
    using run(2) by (auto simp: open_channel_def Let_def)
  have "hs_buffers s0 (hs_next s0) = []"
    using inv0 by (metis less_irrefl list.set_intros(1) neq_Nil_conv side_inv_def)
  moreover have "a \<in> set (hs_buffers s2 ch)"
    using run(4) by (auto simp: hub_wait_def split: list.splits if_splits)
  ultimately have "a \<in> set cbs"
    using trace_buffers [OF run(3), of ch] ch(3) by auto
  moreover have "hs_asked s2 ch = rid"
    using asked_steps [OF trace_steps [OF run(3)] ch(2)] ch(1) by simp
  ultimately show ?thesis
    using \<open>a \<in> set (hs_buffers s2 ch)\<close> side_inv_steps [OF trace_steps [OF run(3)] inv1]
    by (simp add: side_inv_def)
qed

lemma ask_worker_Ok:
  assumes "ask_worker env params = Ok rs"
  shows "\<exists>r. rs = [r] \<and>
    (job_tag (dj_job params) = ''opml'' \<and>
       (\<exists>q a. oq_req_id q = je_uuid env \<and> je_ask_opml env q = Ok a \<and> jr_output r = oa_answer a) \<or>
     job_tag (dj_job params) = ''tee'' \<and>
       (\<exists>q a. or_request_id q = je_uuid env \<and> je_ask_tee env q = Ok a \<and> jr_output r = ar_answer a))"
proof (cases "job_tag (dj_job params) = ''opml''")
  case True
  then show ?thesis
    using assms by (auto simp: ask_worker_def do_opml_job_def result_param_def outcome_simps Let_def)
      (metis opml_request.select_convs(3))
next
  case False
  then show ?thesis
    using assms by (auto simp: ask_worker_def do_tee_job_def result_param_def outcome_simps Let_def
        split: if_splits) (metis operator_req.select_convs(1))
qed

section \<open>Properties\<close>


abbreviation sample_vrf_env :: job_env where
  "sample_vrf_env \<equiv> vrf_env Debug sample_curve hex_lower sample_big_from_hex (\<lambda>s. Ok [1])
     (sample_contract 0 0 (Err ''rpc'')) (replicate 32 7) sample_env"


text \<open>C6. What the worker's answer is: when a job is given to a worker and succeeds, the output of the
  one reply is an answer that a callback brought to the hub after the question was registered, and it
  carries the id of this very question, whatever else the hub was asked and told meanwhile.\<close>

theorem worker_output_answers_job:
  assumes "\<And>q a. je_ask_opml env q = Ok a \<Longrightarrow> hub_exchange oa_req_id False (oq_req_id q) opml_cbs a"
    and "\<And>q a. je_ask_tee env q = Ok a \<Longrightarrow> hub_exchange ar_request_id True (or_request_id q) tee_cbs a"
    and "je_compute_vrf env (dj_tag params) (dj_position params) (job_prompt (dj_job params)) = Some (Ok vrf)"
    and "vr_selected vrf" "job_tag (dj_job params) = nc_node_type (oc_node (je_config env))"
    and "do_job env (params # rest) = Some (effects, Ok ())"
  shows "\<exists>r. sent_replies effects = [[r]] \<and>
    (if job_tag (dj_job params) = ''opml''
     then \<exists>a \<in> set opml_cbs. oa_req_id a = je_uuid env \<and> jr_output r = oa_answer a
     else \<exists>a \<in> set tee_cbs. ar_request_id a = je_uuid env \<and> jr_output r = ar_answer a)"
proof -
  have "je_hub_ready env" using assms(6) by (auto simp: do_job_def split: if_splits)
  then have fin: "end_job env (ask_worker env params) = (effects, Ok ())"
    using do_job_split [OF _ assms(3,5)] assms(4,6) by simp
  then obtain rs where rs: "ask_worker env params = Ok rs" "finish_job env rs = (effects, Ok ())"
    by (auto simp: end_job_def split: outcome.splits)
  obtain r where r: "rs = [r]" and branch: "job_tag (dj_job params) = ''opml'' \<and>
       (\<exists>q a. oq_req_id q = je_uuid env \<and> je_ask_opml env q = Ok a \<and> jr_output r = oa_answer a) \<or>
     job_tag (dj_job params) = ''tee'' \<and>
       (\<exists>q a. or_request_id q = je_uuid env \<and> je_ask_tee env q = Ok a \<and> jr_output r = ar_answer a)"
    using ask_worker_Ok [OF rs(1)] by blast
  have "sent_replies effects = [[r]]"
    using rs(2) r by (auto simp: finish_job_def Let_def sent_replies_def List.map_filter_simps split: outcome.splits)
  moreover have "\<exists>a \<in> set opml_cbs. oa_req_id a = je_uuid env \<and> jr_output r = oa_answer a"
    if "job_tag (dj_job params) = ''opml''"
    using branch that exchange_answers [OF assms(1)] by auto metis
  moreover have "\<exists>a \<in> set tee_cbs. ar_request_id a = je_uuid env \<and> jr_output r = ar_answer a"
    if "job_tag (dj_job params) \<noteq> ''opml''"
    using branch that exchange_answers [OF assms(2)] by auto metis
  ultimately show ?thesis by auto
qed

definition hub_answer :: opml_answer where
  "hub_answer =
     \<lparr>oa_req_id = ''u-1'', oa_node_id = [], oa_model = [], oa_prompt = [], oa_answer = ''yes'',
      oa_state_root = []\<rparr>"

lemma sample_exchange: "hub_exchange oa_req_id False ''u-1'' [hub_answer] hub_answer"
proof -
  obtain s1 where s1: "open_channel new_side ''u-1'' = (s1, 0)"
      "s1 = (new_side :: opml_answer hub_side)\<lparr>hs_channels := [''u-1'' \<mapsto> 0], hs_receivers := {0},
        hs_next := 1, hs_asked := (\<lambda>ch. [])(0 := ''u-1'')\<rparr>"
    by (simp add: open_channel_def new_side_def chan_insert_def)
  let ?s2 = "s1\<lparr>hs_buffers := (hs_buffers s1)(0 := [hub_answer])\<rparr>"
  have "hub_callback oa_req_id s1 hub_answer = Some ?s2"
    by (simp add: s1(2) hub_callback_def channel_send_def new_side_def hub_answer_def)
  then have "side_trace oa_req_id False s1 [hub_answer] ?s2"
    using trace_callback [OF trace_refl] by fastforce
  moreover have "hub_wait False ?s2 ''u-1'' 0 False = Some (drop_receiver ?s2 0, Ok hub_answer)"
    by (simp add: hub_wait_def)
  ultimately show ?thesis unfolding hub_exchange_def using trace_refl s1(1) by blast
qed

definition hub_env :: job_env where
  "hub_env = sample_env
     \<lparr>je_ask_opml := (\<lambda>q. if oq_req_id q = ''u-1'' then Ok hub_answer else Err RequestTimeoutError)\<rparr>"

lemma hub_env_job: "\<exists>effects. do_job hub_env [sample_job] = Some (effects, Ok ())"
proof -
  have ready: "wait_for_worker (\<lambda>i. Ok ''0'') (\<lambda>s. s = ''0'') 0 = Ok 0"
    by (simp add: wait_for_worker.simps)
  have "bump_clock mis [(''1'', nat_to_string (unat (41 :: u32)))] = Ok [(''1'', nat_to_string 42)]" for mis
    unfolding bump_clock_Ok using parse_u32_to_string [of 41] by fastforce
  then show ?thesis
    by (simp add: do_job_def hub_env_def sample_env_def sample_job_def job_reply_def sample_config_def
        do_opml_job_def ready finish_job_def)
qed

theorem worker_output_answers_job_witness:
  "\<exists>effects r. do_job hub_env [sample_job] = Some (effects, Ok ()) \<and> sent_replies effects = [[r]] \<and>
     jr_output r = ''yes''"
proof -
  obtain effects where run: "do_job hub_env [sample_job] = Some (effects, Ok ())"
    using hub_env_job by blast
  have opml: "hub_exchange oa_req_id False (oq_req_id q) [hub_answer] a" if "je_ask_opml hub_env q = Ok a" for q a
    using that sample_exchange by (simp add: hub_env_def split: if_splits)
  have tee: "hub_exchange ar_request_id True (or_request_id q) [] a" if "je_ask_tee hub_env q = Ok a" for q a
    using that by (simp add: hub_env_def sample_env_def)
  have "je_compute_vrf hub_env (dj_tag sample_job) (dj_position sample_job) (job_prompt (dj_job sample_job)) =
      Some (Ok (default_vrf_reply\<lparr>vr_selected := True\<rparr>))"
    "job_tag (dj_job sample_job) = nc_node_type (oc_node (je_config hub_env))"
    "job_tag (dj_job sample_job) = ''opml''"
    by (simp_all add: hub_env_def sample_env_def sample_job_def sample_config_def)
  from worker_output_answers_job [OF opml tee this(1) _ this(2) run] this(3) run
  show ?thesis by (auto simp: hub_answer_def)
qed

end
