(* ===== verification/Process_Runtime.thy ===== *)
theory Process_Runtime
  imports Node_Config
begin

text \<open>
  What the process is started in: the runtime of \<open>crates/tools/src/tokio_static.rs\<close>, \<open>main\<close> of
  \<open>operator/runer/src/main.rs\<close>, and two helpers beside the request path, the texts of the API errors
  of \<open>operator/node_api/src/error.rs\<close> and the signing key and date format of
  \<open>operator/verify_hub\<close>. The builder of the package \<open>tokio\<close> is a parameter. A future is given by the
  time it needs and its value, or nothing when it never completes; a panic is a value of it.
\<close>

section \<open>Runtime\<close>

record ('b, 'r) runtime_lib =
  rt_new_multi_thread :: 'b
  rt_enable_all :: "'b \<Rightarrow> 'b"
  rt_thread_name :: "string \<Rightarrow> 'b \<Rightarrow> 'b"
  rt_worker_threads :: "nat \<Rightarrow> 'b \<Rightarrow> ('b, string) outcome"
  rt_max_blocking_threads :: "nat \<Rightarrow> 'b \<Rightarrow> ('b, string) outcome"
  rt_build :: "'b \<Rightarrow> ('r, string) outcome"

definition new_runtime ::
  "('b, 'r) runtime_lib \<Rightarrow> nat option \<Rightarrow> nat option \<Rightarrow> ('r, string) outcome" where
  "new_runtime B worker_threads max_blocking_threads =
     (let builder = rt_thread_name B ''node-tokio-thread'' (rt_enable_all B (rt_new_multi_thread B)) in
      and_then (case worker_threads of None \<Rightarrow> Ok builder | Some n \<Rightarrow> rt_worker_threads B n builder)
        (\<lambda>builder1.
      and_then (case max_blocking_threads of
                  None \<Rightarrow> Ok builder1 | Some n \<Rightarrow> rt_max_blocking_threads B n builder1) (\<lambda>builder2.
        unwrap ''can build tokio runtime'' (rt_build B builder2))))"

definition TOKIO :: "('b, 'r) runtime_lib \<Rightarrow> ('r, string) outcome" where
  "TOKIO B = new_runtime B None None"

type_synonym 'a fut = "(nat \<times> 'a) option"

datatype elapsed = Elapsed

text \<open>
  \<open>tokio::time::timeout\<close> looks at the future before it looks at the clock, so a future that is done
  when its time is over still gives its value.
\<close>

definition with_timeout :: "nat \<Rightarrow> 'a fut \<Rightarrow> ('a, elapsed) outcome fut" where
  "with_timeout timeout f =
     (case f of
        None \<Rightarrow> Some (timeout, Err Elapsed)
      | Some (t, v) \<Rightarrow> if t \<le> timeout then Some (t, Ok v) else Some (timeout, Err Elapsed))"

text \<open>The thread waits on the runtime until the future is done: when, and with what.\<close>

definition block_on_given :: "'a fut \<Rightarrow> ('r, string) outcome \<Rightarrow> ((nat \<times> 'a), string) outcome option" where
  "block_on_given f runtime =
     (case runtime of
        Ok r \<Rightarrow> map_option Ok f
      | Err e \<Rightarrow> Some (Err e)
      | Panic m \<Rightarrow> Some (Panic m))"

definition block_on ::
  "('b, 'r) runtime_lib \<Rightarrow> 'a fut \<Rightarrow> nat \<Rightarrow> ((nat \<times> ('a, elapsed) outcome), string) outcome option" where
  "block_on B f timeout = block_on_given (with_timeout timeout f) (TOKIO B)"

definition block_forever_on ::
  "('b, 'r) runtime_lib \<Rightarrow> 'a fut \<Rightarrow> ((nat \<times> 'a), string) outcome option" where
  "block_forever_on B f = block_on_given f (TOKIO B)"

definition run_on ::
  "('b, 'r) runtime_lib \<Rightarrow> 'a fut \<Rightarrow> ((nat \<times> 'a), string) outcome option" where
  "run_on B f = (case TOKIO B of Ok r \<Rightarrow> map_option Ok f | Err e \<Rightarrow> Some (Err e) | Panic m \<Rightarrow> Some (Panic m))"

section \<open>Start\<close>

text \<open>The level of the log filter: \<open>RUST_LOG\<close>, or \<open>info\<close>.\<close>

definition rust_log :: "string option \<Rightarrow> string" where
  "rust_log env_var = (case env_var of Some v \<Rightarrow> v | None \<Rightarrow> ''info'')"

text \<open>\<open>main\<close>: \<open>init\<close> is what setting up the log with this filter gives, \<open>cli\<close> the future \<open>run_cli\<close>.\<close>

definition async_main ::
  "(string \<Rightarrow> (unit, string) outcome) \<Rightarrow> string option \<Rightarrow> (unit, string) outcome fut \<Rightarrow> (unit, string) outcome fut" where
  "async_main init env_var cli =
     (case init (rust_log env_var) of
        Ok u \<Rightarrow> cli
      | Err e \<Rightarrow> Some (0, Panic e)
      | Panic m \<Rightarrow> Some (0, Panic m))"

definition main_process ::
  "('b, 'r) runtime_lib \<Rightarrow> (string \<Rightarrow> (unit, string) outcome) \<Rightarrow> string option \<Rightarrow>
   (unit, string) outcome fut \<Rightarrow> ((nat \<times> (unit, string) outcome), string) outcome option" where
  "main_process B init env_var cli = block_forever_on B (async_main init env_var cli)"

section \<open>API errors\<close>

datatype api_error = APIFailToJson

fun api_error_text :: "api_error \<Rightarrow> string" where
  "api_error_text APIFailToJson = ''Error failed to serialize struct to JSON (Error Code: 2001)''"

datatype node_operator_error =
    NodeCustomError string
  | NodeSetupRegister string
  | NodeConnectTEEError string
  | NodeSendPromptError string
  | NodeDecodeSignerKeyError string
  | NodeNewVrfRangeContractError string
  | NodeGetVrfRangeContractError string

fun node_operator_error_text :: "node_operator_error \<Rightarrow> string" where
  "node_operator_error_text (NodeCustomError d) =
     ''Error: some error happened, detail: '' @ d @ '' (Error Code: 3001)''"
| "node_operator_error_text (NodeSetupRegister e) =
     ''Error: register to dispatcher failed, detail: '' @ e @ '' (Error Code: 3002)''"
| "node_operator_error_text (NodeConnectTEEError d) =
     ''Error: connect to tee service failed, detail: '' @ d @ ''  (Error Code: 3003)''"
| "node_operator_error_text (NodeSendPromptError d) =
     ''Error: send promtp to tee service failed, detail: '' @ d @ ''  (Error Code: 3004)''"
| "node_operator_error_text (NodeDecodeSignerKeyError e) =
     ''Error: decode signer private key error failed, detail: '' @ e @ ''  (Error Code: 3005)''"
| "node_operator_error_text (NodeNewVrfRangeContractError e) =
     ''Error: new vrf range contract failed, detail: '' @ e @ ''  (Error Code: 3006)''"
| "node_operator_error_text (NodeGetVrfRangeContractError d) =
     ''Error: get vrf range contract failed, detail: '' @ d @ ''  (Error Code: 3007)''"

section \<open>Hub helpers\<close>

record ('sk, 'sg) ed25519_lib =
  ed_sign :: "'sk \<Rightarrow> bytes \<Rightarrow> 'sg"
  ed_verify :: "'sk \<Rightarrow> bytes \<Rightarrow> 'sg \<Rightarrow> (unit, string) outcome"

definition server_sign :: "('sk, 'sg) ed25519_lib \<Rightarrow> 'sk \<Rightarrow> bytes \<Rightarrow> 'sg" where
  "server_sign E sign_key message = ed_sign E sign_key message"

definition server_verify :: "('sk, 'sg) ed25519_lib \<Rightarrow> 'sk \<Rightarrow> bytes \<Rightarrow> 'sg \<Rightarrow> bool" where
  "server_verify E sign_key message signature = is_ok (ed_verify E sign_key message signature)"

definition ed25519_laws :: "('sk, 'sg) ed25519_lib \<Rightarrow> bool" where
  "ed25519_laws E \<longleftrightarrow> (\<forall>k m. ed_verify E k m (ed_sign E k m) = Ok ())"

text \<open>Dates: \<open>fmt\<close> prints and \<open>parse\<close> reads with a pattern.\<close>

definition date_pattern :: string where
  "date_pattern = ''%Y-%m-%d %H:%M:%S''"

definition serialize_naive_datetime ::
  "(string \<Rightarrow> 'd \<Rightarrow> string) \<Rightarrow> (string \<Rightarrow> ('o, 'e) outcome) \<Rightarrow> 'd \<Rightarrow> ('o, 'e) outcome" where
  "serialize_naive_datetime fmt serialize_str date = (let s = fmt date_pattern date in serialize_str s)"

definition deserialize_naive_datetime ::
  "(string \<Rightarrow> string \<Rightarrow> ('d, 'x) outcome) \<Rightarrow> ('x \<Rightarrow> 'e) \<Rightarrow> (string, 'e) outcome \<Rightarrow> ('d, 'e) outcome" where
  "deserialize_naive_datetime parse custom str =
     and_then str (\<lambda>s. map_err custom (parse s date_pattern))"

section \<open>Lemmas\<close>

lemma server_verifies: "ed25519_laws E \<Longrightarrow> server_verify E k m (server_sign E k m)"
  by (simp add: ed25519_laws_def server_verify_def server_sign_def)

lemma date_roundtrip:
  assumes "\<And>d. parse (fmt date_pattern d) date_pattern = Ok d"
  shows "deserialize_naive_datetime parse custom (serialize_naive_datetime fmt Ok d) = Ok d"
  using assms by (simp add: deserialize_naive_datetime_def serialize_naive_datetime_def)

lemma TOKIO_not_Err: "TOKIO B \<noteq> Err e"
  by (simp add: TOKIO_def new_runtime_def Let_def outcome_simps)

text \<open>
  A thread that blocks with a limit always comes back, no later than the limit; without one it
  comes back exactly when the future completes, and then both give the same value if the limit is
  long enough.
\<close>

lemma block_on_returns:
  assumes "TOKIO B = Ok r"
  shows "\<exists>t res. block_on B f timeout = Some (Ok (t, res)) \<and> t \<le> timeout \<and>
      (res = Err Elapsed \<longleftrightarrow> (\<forall>t' v. f = Some (t', v) \<longrightarrow> timeout < t'))"
    and "block_forever_on B f = None \<longleftrightarrow> f = None"
    and "f = Some (t', v) \<Longrightarrow> t' \<le> timeout \<Longrightarrow>
      block_on B f timeout = Some (Ok (t', Ok v)) \<and> block_forever_on B f = Some (Ok (t', v))"
  using assms
  by (auto simp: block_on_def block_forever_on_def block_on_given_def with_timeout_def
      split: option.splits)

end
