(* ===== verification/Shared_Tools.thy ===== *)
theory Shared_Tools
  imports Prelude
begin

text \<open>
  Tools the crates share: the lock \<open>RwShare\<close> of \<open>crates/tools/src/rw_share.rs\<close>, the digest
  helper of \<open>crates/tools/src/helper.rs\<close> (its checks of addresses and keys are in
  \<open>Node_Config\<close>), and the debug print of \<open>Payload\<close>, which stands twice in the sources
  (\<open>crates/types/src/raw_wrapper.rs\<close>, \<open>crates/common/src/types.rs\<close>). The lock of the package
  \<open>parking_lot\<close> is a parameter: for a kind of attempt, the time it starts and how long it may
  wait, the time at which the lock is granted. Times are milliseconds.
\<close>

section \<open>RwShare\<close>

datatype lock_call = TryReadFor | TryReadRecursiveFor | TryWriteFor

type_synonym try_lock = "lock_call \<Rightarrow> nat \<Rightarrow> nat \<Rightarrow> nat option"

text \<open>Attempts that follow each other by \<open>or_else\<close>: the next one starts when the last has failed.\<close>

fun or_else_chain :: "try_lock \<Rightarrow> (lock_call \<times> nat) list \<Rightarrow> nat \<Rightarrow> nat option" where
  "or_else_chain try [] now = None"
| "or_else_chain try ((call, wait) # rest) now =
     (case try call now wait of
        Some t \<Rightarrow> Some t
      | None \<Rightarrow> or_else_chain try rest (now + wait))"

definition read_attempts :: "(lock_call \<times> nat) list" where
  "read_attempts =
     [(TryReadFor, 100), (TryReadFor, 30 * 1000), (TryReadRecursiveFor, 60 * 1000),
      (TryReadRecursiveFor, 180 * 1000)]"

definition write_attempts :: "(lock_call \<times> nat) list" where
  "write_attempts = [(TryWriteFor, 100), (TryWriteFor, 120 * 1000), (TryWriteFor, 180 * 1000)]"

text \<open>The closure gets the value the lock protects at the time it is granted.\<close>

definition share_ref :: "try_lock \<Rightarrow> (nat \<Rightarrow> 'a) \<Rightarrow> ('a \<Rightarrow> 'r) \<Rightarrow> nat \<Rightarrow> ('r, string) outcome" where
  "share_ref try content f now =
     and_then
       (unwrap_option ''Failed to take a read lock for over 5 minutes this must be a deadlock''
          (or_else_chain try read_attempts now))
       (\<lambda>t. Ok (f (content t)))"

definition share_mut ::
  "try_lock \<Rightarrow> (nat \<Rightarrow> 'a) \<Rightarrow> ('a \<Rightarrow> 'r \<times> 'a) \<Rightarrow> nat \<Rightarrow> ('r \<times> 'a, string) outcome" where
  "share_mut try content f now =
     and_then
       (unwrap_option ''Failed to take a write lock for over 5 minutes this must be a deadlock''
          (or_else_chain try write_attempts now))
       (\<lambda>t. Ok (f (content t)))"

text \<open>What the package documents: an attempt succeeds within its time exactly when the lock can be
  granted to that kind of attempt at some moment of it. \<open>free\<close> says when it can.\<close>

definition lock_laws :: "try_lock \<Rightarrow> (lock_call \<Rightarrow> nat \<Rightarrow> bool) \<Rightarrow> bool" where
  "lock_laws try free \<longleftrightarrow>
     (\<forall>call now wait.
        case try call now wait of
          Some t \<Rightarrow> now \<le> t \<and> t \<le> now + wait \<and> free call t
        | None \<Rightarrow> \<forall>t. now \<le> t \<and> t \<le> now + wait \<longrightarrow> \<not> free call t)"

section \<open>Helper\<close>

definition sha256_str_to_hex :: "(bytes \<Rightarrow> bytes) \<Rightarrow> string \<Rightarrow> string" where
  "sha256_str_to_hex sha256 s = hex_lower (sha256 (string_bytes s))"

section \<open>Payload\<close>

text \<open>\<open>std::str::from_utf8\<close> succeeds: the well-formed byte sequences of the Unicode standard.\<close>

definition in_range :: "nat \<Rightarrow> nat \<Rightarrow> u8 \<Rightarrow> bool" where
  "in_range lo hi b \<longleftrightarrow> lo \<le> unat b \<and> unat b \<le> hi"

definition continuation :: "u8 \<Rightarrow> bool" where
  "continuation b \<longleftrightarrow> in_range 0x80 0xBF b"

definition starts_three :: "u8 \<Rightarrow> u8 \<Rightarrow> bool" where
  "starts_three a b \<longleftrightarrow>
     unat a = 0xE0 \<and> in_range 0xA0 0xBF b \<or> in_range 0xE1 0xEC a \<and> continuation b \<or>
     unat a = 0xED \<and> in_range 0x80 0x9F b \<or> in_range 0xEE 0xEF a \<and> continuation b"

definition starts_four :: "u8 \<Rightarrow> u8 \<Rightarrow> bool" where
  "starts_four a b \<longleftrightarrow>
     unat a = 0xF0 \<and> in_range 0x90 0xBF b \<or> in_range 0xF1 0xF3 a \<and> continuation b \<or>
     unat a = 0xF4 \<and> in_range 0x80 0x8F b"

fun is_utf8 :: "bytes \<Rightarrow> bool" where
  "is_utf8 [] = True"
| "is_utf8 (a # bs) =
     (if unat a < 0x80 then is_utf8 bs
      else case bs of
             [] \<Rightarrow> False
           | b # cs \<Rightarrow>
               if in_range 0xC2 0xDF a then continuation b \<and> is_utf8 cs
               else case cs of
                      [] \<Rightarrow> False
                    | c # ds \<Rightarrow>
                        if starts_three a b then continuation c \<and> is_utf8 ds
                        else case ds of
                               [] \<Rightarrow> False
                             | d # es \<Rightarrow> starts_four a b \<and> continuation c \<and> continuation d \<and> is_utf8 es)"

definition bytes_string :: "bytes \<Rightarrow> string" where
  "bytes_string bs = map (\<lambda>b. char_of (unat b)) bs"

definition payload_debug :: "bytes \<Rightarrow> string" where
  "payload_debug bs =
     (if is_utf8 bs then ''Payload('' @ [CHR 0x22] @ bytes_string bs @ [CHR 0x22] @ '')''
      else ''Payload('' @ concat (take 32 (map hex_byte bs)) @
        (if 32 < length bs then ''.. <len '' @ nat_to_string (length bs) @ ''>'' else []) @ '')'')"

section \<open>Lemmas\<close>

text \<open>A chain fails exactly when the lock is never granted while one of its attempts waits.\<close>

fun never_granted :: "(lock_call \<Rightarrow> nat \<Rightarrow> bool) \<Rightarrow> (lock_call \<times> nat) list \<Rightarrow> nat \<Rightarrow> bool" where
  "never_granted free [] now = True"
| "never_granted free ((call, wait) # rest) now =
     ((\<forall>t \<in> {now..now + wait}. \<not> free call t) \<and> never_granted free rest (now + wait))"

lemma chain_result:
  assumes "lock_laws try free"
  shows "case or_else_chain try attempts now of
      None \<Rightarrow> never_granted free attempts now
    | Some t \<Rightarrow> \<not> never_granted free attempts now \<and> now \<le> t \<and> t \<le> now + sum_list (map snd attempts)"
proof (induction attempts arbitrary: now)
  case (Cons attempt rest)
  obtain call wait where a: "attempt = (call, wait)" by fastforce
  have law: "case try call now wait of
      Some t \<Rightarrow> now \<le> t \<and> t \<le> now + wait \<and> free call t
    | None \<Rightarrow> \<forall>t. now \<le> t \<and> t \<le> now + wait \<longrightarrow> \<not> free call t"
    using assms unfolding lock_laws_def by blast
  show ?case
  proof (cases "try call now wait")
    case None
    then have "\<forall>t \<in> {now..now + wait}. \<not> free call t" using law by simp
    then show ?thesis using Cons [of "now + wait"] None by (auto simp: a split: option.splits)
  next
    case (Some t)
    then show ?thesis using law by (auto simp: a intro: trans_le_add1)
  qed
qed simp

lemma bytes_string_inj: "bytes_string a = bytes_string b \<longleftrightarrow> a = b"
proof -
  have "inj (\<lambda>b :: u8. (char_of (unat b) :: char))"
  proof (rule injI)
    fix x y :: u8
    assume "(char_of (unat x) :: char) = char_of (unat y)"
    then have "(of_char (char_of (unat x)) :: nat) = of_char (char_of (unat y))" by simp
    then show "x = y" by (simp add: word_unat_eq_iff)
  qed
  then show ?thesis by (simp add: bytes_string_def inj_map_eq_map)
qed

lemma hex_digit_inj: "i < 16 \<Longrightarrow> j < 16 \<Longrightarrow> hex_digit i = hex_digit j \<Longrightarrow> i = j"
  using to_digit_hex_digit by (metis option.inject)

lemma hex_byte_inj: "hex_byte a = hex_byte b \<Longrightarrow> a = b"
proof -
  assume "hex_byte a = hex_byte b"
  then have "unat a div 16 = unat b div 16" "unat a mod 16 = unat b mod 16"
    by (auto simp: hex_byte_def less_mult_imp_div_less intro: hex_digit_inj)
  then have "unat a = unat b" by (metis div_mult_mod_eq)
  then show ?thesis by (simp add: word_unat_eq_iff)
qed

lemma hex_lower_inj: "hex_lower a = hex_lower b \<Longrightarrow> a = b"
proof (induction a arbitrary: b)
  case Nil
  then show ?case by (cases b) (simp_all add: hex_lower_def hex_byte_def)
next
  case (Cons x a)
  then obtain y c where b: "b = y # c" by (cases b) (auto simp: hex_lower_def hex_byte_def)
  then have "hex_byte x @ hex_lower a = hex_byte y @ hex_lower c"
    using Cons.prems by (simp add: hex_lower_def)
  then have "hex_byte x = hex_byte y" "hex_lower a = hex_lower c" by simp_all
  then show ?case using Cons.IH hex_byte_inj b by simp
qed

text \<open>The digits at the front of a text.\<close>

lemma takeWhile_hex_lower:
  "\<not> is_ascii_hexdigit c \<Longrightarrow> takeWhile is_ascii_hexdigit (hex_lower bs @ c # rest) = hex_lower bs"
  using hex_lower_hexdigits [of bs] by (subst takeWhile_append2) (auto simp: list_all_iff)

lemma take_hex: "concat (take n (map hex_byte bs)) = hex_lower (take n bs)"
  by (simp add: hex_lower_def take_map)

lemma hex_then_tail:
  assumes "hex_lower a @ c # s = hex_lower b @ d # t" "\<not> is_ascii_hexdigit c" "\<not> is_ascii_hexdigit d"
  shows "a = b \<and> c = d \<and> s = t"
proof -
  have "hex_lower a = hex_lower b"
    using takeWhile_hex_lower [OF assms(2), of a s] takeWhile_hex_lower [OF assms(3), of b t] assms(1)
    by simp
  then show ?thesis using hex_lower_inj assms(1) by auto
qed

lemma quote_no_digit: "is_utf8 a \<Longrightarrow> \<not> is_utf8 b \<Longrightarrow> payload_debug a \<noteq> payload_debug b"
proof -
  assume a: "is_utf8 a" and b: "\<not> is_utf8 b"
  then obtain x bs where "b = x # bs" by (cases b) auto
  then obtain c s where "payload_debug b = ''Payload('' @ c # s" "is_ascii_hexdigit c"
    using b hex_digit_is_hexdigit [of "unat x div 16"]
    by (auto simp: payload_debug_def hex_byte_def less_mult_imp_div_less)
  moreover have "\<not> is_ascii_hexdigit (CHR 0x22)" by code_simp
  ultimately show ?thesis using a by (auto simp: payload_debug_def)
qed

lemma ball_join:
  assumes "(a :: nat) \<le> b" "b \<le> c"
  shows "(\<forall>t \<in> {a..b}. P t) \<and> (\<forall>t \<in> {b..c}. P t) \<longleftrightarrow> (\<forall>t \<in> {a..c}. P t)"
proof -
  have "{a..c} = {a..b} \<union> {b..c}" using assms by (simp add: ivl_disj_un_two_touch(4))
  then show ?thesis by (simp only: ball_Un)
qed

lemma never_granted_read:
  "never_granted free read_attempts now \<longleftrightarrow>
     (\<forall>t \<in> {now..now + 30100}. \<not> free TryReadFor t) \<and>
     (\<forall>t \<in> {now + 30100..now + 270100}. \<not> free TryReadRecursiveFor t)"
  using ball_join [of now "now + 100" "now + 30100" "\<lambda>t. \<not> free TryReadFor t"]
    ball_join [of "now + 30100" "now + 90100" "now + 270100" "\<lambda>t. \<not> free TryReadRecursiveFor t"]
  by (simp add: read_attempts_def ac_simps) argo

lemma never_granted_write:
  "never_granted free write_attempts now \<longleftrightarrow> (\<forall>t \<in> {now..now + 300100}. \<not> free TryWriteFor t)"
  using ball_join [of now "now + 100" "now + 120100" "\<lambda>t. \<not> free TryWriteFor t"]
    ball_join [of now "now + 120100" "now + 300100" "\<lambda>t. \<not> free TryWriteFor t"]
  by (simp add: write_attempts_def ac_simps) argo

section \<open>Properties\<close>

text \<open>When \<open>RwShare\<close> gives up: a write panics exactly when the lock cannot be granted for
  300.1 seconds, and a read exactly when no fair reader is admitted for 30.1 seconds and no
  recursive one for the 240 seconds after that - 270.1 seconds in all, less than the five minutes
  of its message. Otherwise the closure runs on the content at a moment within these bounds.\<close>

theorem rw_share_gives_up:
  assumes "lock_laws try free"
  shows "(case share_ref try content f now of
       Panic m \<Rightarrow> (\<forall>t \<in> {now..now + 30100}. \<not> free TryReadFor t) \<and>
                 (\<forall>t \<in> {now + 30100..now + 270100}. \<not> free TryReadRecursiveFor t)
     | Ok r \<Rightarrow> \<exists>t \<in> {now..now + 270100}. r = f (content t)
     | Err e \<Rightarrow> False) \<and>
    (case share_mut try content g now of
       Panic m \<Rightarrow> \<forall>t \<in> {now..now + 300100}. \<not> free TryWriteFor t
     | Ok r \<Rightarrow> \<exists>t \<in> {now..now + 300100}. r = g (content t)
     | Err e \<Rightarrow> False)"
proof -
  have "sum_list (map snd read_attempts) = 270100" "sum_list (map snd write_attempts) = 300100"
    by (simp_all add: read_attempts_def write_attempts_def)
  then show ?thesis
    using chain_result [OF assms, of read_attempts now] chain_result [OF assms, of write_attempts now]
    unfolding never_granted_read never_granted_write
    by (auto simp: share_ref_def share_mut_def unwrap_option_def split: option.splits)
qed

text \<open>A lock that is released after one minute.\<close>

definition sample_lock :: try_lock where
  "sample_lock call now wait =
     (if 60000 \<le> now + wait then Some (max now 60000) else None)"

theorem rw_share_gives_up_witness:
  "\<exists>t \<in> {0..270100}. share_ref sample_lock (\<lambda>t. t) (\<lambda>x. x + 1) 0 = Ok (t + 1)"
proof -
  have "lock_laws sample_lock (\<lambda>call t. 60000 \<le> t)"
    by (auto simp: lock_laws_def sample_lock_def)
  moreover have "share_ref sample_lock (\<lambda>t. t) (\<lambda>x. x + 1) 0 \<noteq> Panic m" for m
    by (simp add: share_ref_def sample_lock_def read_attempts_def unwrap_option_def)
  ultimately show ?thesis
    using rw_share_gives_up [where content = "\<lambda>t. t" and f = "\<lambda>x. x + 1" and now = 0 and g = "\<lambda>x. ((), x)"]
    by (cases "share_ref sample_lock (\<lambda>t. t) (\<lambda>x. x + 1) 0") fastforce+
qed

text \<open>The debug print of a payload tells payloads apart: two different ones print the same only when
  both are more than 32 bytes long, not UTF-8, of the same length, and equal in their first 32
  bytes.\<close>

theorem payload_debug_distinguishes:
  assumes "payload_debug a = payload_debug b"
  shows "a = b \<or> \<not> is_utf8 a \<and> \<not> is_utf8 b \<and> 32 < length a \<and> length a = length b \<and>
    take 32 a = take 32 b"
proof -
  have quote: "\<not> is_ascii_hexdigit (CHR 0x22)" "\<not> is_ascii_hexdigit (CHR '')'')"
      "\<not> is_ascii_hexdigit (CHR ''.'')"
    by code_simp+
  define tail where "tail bs = (if 32 < length bs then ''.. <len '' @ nat_to_string (length bs) @ ''>'' else []) @ '')''"
    for bs :: bytes
  have tail: "\<exists>c s. tail bs = c # s \<and> \<not> is_ascii_hexdigit c" for bs
    using quote by (simp add: tail_def)
  have print: "payload_debug bs = ''Payload('' @ hex_lower (take 32 bs) @ tail bs" if "\<not> is_utf8 bs" for bs
    using that by (simp add: payload_debug_def take_hex tail_def)
  show ?thesis
  proof (cases "is_utf8 a = is_utf8 b")
    case True
    show ?thesis
    proof (cases "is_utf8 a")
      case t: True
      then show ?thesis using True assms by (simp add: payload_debug_def bytes_string_inj)
    next
      case f: False
      then have "take 32 a = take 32 b" "tail a = tail b"
        using assms print [of a] print [of b] True hex_then_tail tail [of a] tail [of b]
        by (metis append_assoc same_append_eq)+
      then show ?thesis using f True nat_to_string_inject
        by (auto simp: tail_def split: if_splits)
    qed
  next
    case False
    then show ?thesis using assms quote_no_digit by metis
  qed
qed

end
