(* ===== verification/Test_Support.thy ===== *)
theory Test_Support
  imports Prelude
begin

text \<open>
  What the tests of the repository share: assertions, and loops that end when their time is over. A test
  returns \<open>Ok\<close> when it passes and panics when an assertion fails.
\<close>

section \<open>Assertions\<close>

text \<open>\<open>assert!\<close>, and a call whose result is only asked for success.\<close>

definition assert_that :: "bool \<Rightarrow> (unit, 'e) outcome" where
  "assert_that p = (if p then Ok () else Panic ''assertion failed'')"

lemma assert_that_eq_Ok [simp]: "assert_that p = Ok u \<longleftrightarrow> p"
  by (simp add: assert_that_def)

lemma assert_that_True [simp]: "assert_that True = Ok ()"
  by (simp add: assert_that_def)

fun ask_ok :: "('a, 'e) outcome \<Rightarrow> (bool, 'f) outcome" where
  "ask_ok (Ok x) = Ok True"
| "ask_ok (Err e) = Ok False"
| "ask_ok (Panic m) = Panic m"

lemma ask_ok_eq_True [simp]: "ask_ok r = Ok True \<longleftrightarrow> is_ok r"
  by (cases r) auto

section \<open>Loops with a time limit\<close>

text \<open>A loop that looks at the clock before each round. How many rounds fit is up to the machine: it is an
  argument, and what is shown holds for every number of rounds in a range.\<close>

fun timed_loop :: "nat \<Rightarrow> ('s \<Rightarrow> ('s, 'e) outcome) \<Rightarrow> 's \<Rightarrow> ('s, 'e) outcome" where
  "timed_loop 0 body s = Ok s"
| "timed_loop (Suc n) body s = and_then (body s) (timed_loop n body)"

lemma timed_loop_invariant:
  assumes "I 0 s" and step: "\<And>k s. I k s \<Longrightarrow> k < n \<Longrightarrow> \<exists>s'. body s = Ok s' \<and> I (Suc k) s'"
  shows "\<exists>s'. timed_loop n body s = Ok s' \<and> I n s'"
proof -
  have "\<exists>s'. timed_loop m body s = Ok s' \<and> I (k + m) s'" if "I k s" "k + m \<le> n" for m k s
    using that
  proof (induction m arbitrary: k s)
    case (Suc m)
    obtain s' where "body s = Ok s'" "I (Suc k) s'" using step [OF Suc.prems(1)] Suc.prems(2) by auto
    then show ?case using Suc.IH [of "Suc k" s'] Suc.prems(2) by simp
  qed simp
  from this [OF assms(1), of n] show ?thesis by simp
qed

text \<open>A counter of the type \<open>i32\<close>, given by its bit pattern.\<close>

definition incr_i32 :: "profile \<Rightarrow> u32 \<Rightarrow> (u32, 'e) outcome" where
  "incr_i32 b n = (if b = Debug \<and> n = 2 ^ 31 - 1 then Panic ''attempt to add with overflow'' else Ok (n + 1))"

lemma incr_i32_fits: "k < 2 ^ 31 - 1 \<Longrightarrow> incr_i32 b (of_nat k) = Ok (of_nat (Suc k))"
proof -
  assume k: "k < 2 ^ 31 - 1"
  then have "unat (of_nat k :: u32) = k" by (simp add: unat_of_nat)
  then have "(of_nat k :: u32) \<noteq> 2 ^ 31 - 1" using k by (auto dest: arg_cong [of _ _ unat])
  then show ?thesis by (simp add: incr_i32_def add.commute)
qed

end
