(* ===== verification/Vrf_Tests.thy ===== *)
theory Vrf_Tests
  imports Test_Support Compute_Vrf
begin

text \<open>
  The tests of the VRF crate as definitions over the model: \<open>crates/vrf/src/unit_tests/vrf_test.rs\<close>,
  the test of \<open>sample.rs\<close> and the key pairs of \<open>test_utils.rs\<close>. A test that
  may not return has an optional outcome, and \<open>Err\<close> when a property of \<open>proptest\<close> fails. The packages stay parameters, \<open>enc\<close> and \<open>dec\<close> are \<open>hex::encode\<close> and \<open>hex::decode\<close>. Shown: which
  tests pass on every curve with the laws of \<open>Ecvrf\<close>, and that the vectors for the stages of a proof
  imply those for the whole of it.
\<close>

section \<open>Cases\<close>

text \<open>A test runs over its cases one after the other.\<close>

fun each_case :: "('v \<Rightarrow> (unit, string) outcome option) \<Rightarrow> 'v list \<Rightarrow> (unit, string) outcome option" where
  "each_case f [] = Some (Ok ())"
| "each_case f (v # vs) = bind_running (f v) (\<lambda>_. each_case f vs)"

lemma bind_running_eq_Ok [outcome_simps]:
  "bind_running m f = Some (Ok y) \<longleftrightarrow> (\<exists>x. m = Some (Ok x) \<and> f x = Some (Ok y))"
  by (auto simp: bind_running_def split: option.splits outcome.splits)

lemma bind_running_Ok [simp]: "bind_running (Some (Ok x)) f = f x"
  by (simp add: bind_running_def)

lemma each_case_Ok [simp]:
  "each_case f vs = Some (Ok ()) \<longleftrightarrow> (\<forall>v \<in> set vs. f v = Some (Ok ()))"
  by (induction vs) (auto simp: outcome_simps)

section \<open>Generated keys\<close>

text \<open>\<open>SigningKey::generate(rng)\<close> is the function \<open>generate\<close> of the state of the generator.\<close>

definition generate_keypair :: "('r \<Rightarrow> bytes) \<Rightarrow> 'r \<Rightarrow> vrf_private_key" where
  "generate_keypair generate rng = (let sign_key = generate rng in sign_key)"

definition generate_for_testing :: "('r \<Rightarrow> bytes) \<Rightarrow> 'r \<Rightarrow> vrf_private_key" where
  "generate_for_testing generate rng = (let sign_key = generate rng in sign_key)"

record ('k, 'p) key_pair =
  kp_private_key :: 'k
  kp_public_key :: 'p

definition key_pair_from :: "('k \<Rightarrow> 'p) \<Rightarrow> 'k \<Rightarrow> ('k, 'p) key_pair" where
  "key_pair_from public private_key =
     \<lparr>kp_private_key = private_key, kp_public_key = public private_key\<rparr>"

definition key_pair_generate_for_testing ::
  "('r \<Rightarrow> 'k) \<Rightarrow> ('k \<Rightarrow> 'p) \<Rightarrow> 'r \<Rightarrow> ('k, 'p) key_pair" where
  "key_pair_generate_for_testing generate_private public rng =
     (let private_key = generate_private rng in key_pair_from public private_key)"

text \<open>\<open>ser_private\<close> and \<open>ser_public\<close> are \<open>bincode\<close>'s \<open>serialize\<close> at the two types.\<close>

definition key_pair_debug ::
  "('k \<Rightarrow> (bytes, string) outcome) \<Rightarrow> ('p \<Rightarrow> (bytes, string) outcome) \<Rightarrow> (bytes \<Rightarrow> string) \<Rightarrow>
   ('k, 'p) key_pair \<Rightarrow> (string, string) outcome" where
  "key_pair_debug ser_private ser_public enc kp =
     and_then (unwrap ''called Result::unwrap on an Err value'' (ser_private (kp_private_key kp))) (\<lambda>v.
     and_then (unwrap ''called Result::unwrap on an Err value'' (ser_public (kp_public_key kp))) (\<lambda>w.
       Ok (enc (v @ w))))"

definition uniform_keypair_strategy ::
  "(bytes \<Rightarrow> 'r) \<Rightarrow> ('r \<Rightarrow> 'k) \<Rightarrow> ('k \<Rightarrow> 'p) \<Rightarrow> bytes \<Rightarrow> ('k, 'p) key_pair" where
  "uniform_keypair_strategy from_seed generate_private public seed =
     (let rng = from_seed seed in key_pair_generate_for_testing generate_private public rng)"

section \<open>Test vectors\<close>

record vrf_test_vector =
  tv_SK :: string
  tv_PK :: string
  tv_alpha :: bytes
  tv_x :: string
  tv_H :: string
  tv_k :: string
  tv_U :: string
  tv_V :: string
  tv_pi :: string
  tv_beta :: string

definition TESTVECTORS :: "vrf_test_vector list" where
  "TESTVECTORS =
    [\<lparr>tv_SK = ''9d61b19deffd5a60ba844af492ec2cc44449c5697b326919703bac031cae7f60'',
      tv_PK = ''d75a980182b10ab7d54bfed3c964073a0ee172f3daa62325af021a68f707511a'',
      tv_alpha = [],
      tv_x = ''7c2cac12e69be96ae9065065462385e8fcff2768d980c0a3a520f006904de90f'',
      tv_H = ''5b2c80db3ce2d79cc85b1bfb269f02f915c5f0e222036dc82123f640205d0d24'',
      tv_k = (''647ac2b3ca3f6a77e4c4f4f79c6c4c8ce1f421a9baaa294b0adf0244915130f7'' @
        ''067640acb6fd9e7e84f8bc30d4e03a95e410b82f96a5ada97080e0f187758d38''),
      tv_U = ''a21c342b8704853ad10928e3db3e58ede289c798e3cdfd485fbbb8c1b620604f'',
      tv_V = ''426fe41752f0b27439eb3d0c342cb645174a720cae2d4e9bb37de034eefe27ad'',
      tv_pi = (''9275df67a68c8745c0ff97b48201ee6db447f7c93b23ae24cdc2400f52fdb08a'' @
        ''1a6ac7ec71bf9c9c76e96ee4675ebff60625af28718501047bfd87b810c2d213'' @
        ''9b73c23bd69de66360953a642c2a330a''),
      tv_beta = (''a64c292ec45f6b252828aff9a02a0fe88d2fcc7f5fc61bb328f03f4c6c0657a9'' @
        ''d26efb23b87647ff54f71cd51a6fa4c4e31661d8f72b41ff00ac4d2eec2ea7b3'')\<rparr>,
     \<lparr>tv_SK = ''4ccd089b28ff96da9db6c346ec114e0f5b8a319f35aba624da8cf6ed4fb8a6fb'',
      tv_PK = ''3d4017c3e843895a92b70aa74d1b7ebc9c982ccf2ec4968cc0cd55f12af4660c'',
      tv_alpha = [0x72],
      tv_x = ''c799d106d5927970e5989f5671131fa27e6c6b3b7f821c5e259a24b02e502e01'',
      tv_H = ''08e18a34f3923db32e80834fb8ced4e878037cd0459c63ddd66e5004258cf76c'',
      tv_k = (''627237308294a8b344a09ad893997c630153ee514cd292eddd577a9068e2a6f2'' @
        ''4cbee0038beb0b1ee5df8be08215e9fc74608e6f9358b0e8d6383b1742a70628''),
      tv_U = ''18b5e500cb34690ced061a0d6995e2722623c105221eb91b08d90bf0491cf979'',
      tv_V = ''87e1f47346c86dbbd2c03eafc7271caa1f5307000a36d1f71e26400955f1f627'',
      tv_pi = (''84a63e74eca8fdd64e9972dcda1c6f33d03ce3cd4d333fd6cc789db12b5a7b9d'' @
        ''03f1cb6b2bf7cd81a2a20bacf6e1c04e59f2fa16d9119c73a45a97194b504fb9'' @
        ''a5c8cf37f6da85e03368d6882e511008''),
      tv_beta = (''cddaa399bb9c56d3be15792e43a6742fb72b1d248a7f24fd5cc585b232c26c93'' @
        ''4711393b4d97284b2bcca588775b72dc0b0f4b5a195bc41f8d2b80b6981c784e'')\<rparr>,
     \<lparr>tv_SK = ''c5aa8df43f9f837bedb7442f31dcb7b166d38535076f094b85ce3a2e0b4458f7'',
      tv_PK = ''fc51cd8e6218a1a38da47ed00230f0580816ed13ba3303ac5deb911548908025'',
      tv_alpha = [0xaf, 0x82],
      tv_x = ''ef76bea4dae9a6cb6013cf2cbce0e2a8b94d7f4ec5c2f51b1325a181991ea90c'',
      tv_H = ''e4581824b70badf0e57af789dd8cf85513d4b9814566de0e3f738439becfba33'',
      tv_k = (''a950f736af2e3ae2dbcb76795f9cbd57c671eee64ab17069f945509cd6c4a748'' @
        ''52fe1bbc331e1bd573038ec703ca28601d861ad1e9684ec89d57bc22986acb0e''),
      tv_U = ''5114dc4e741b7c4a28844bc585350240a51348a05f337b5fd75046d2c2423f7a'',
      tv_V = ''a6d5780c472dea1ace78795208aaa05473e501ed4f53da57e1fb13b7e80d7f59'',
      tv_pi = (''aca8ade9b7f03e2b149637629f95654c94fc9053c225ec21e5838f193af2b727'' @
        ''b84ad849b0039ad38b41513fe5a66cdd2367737a84b488d62486bd2fb110b480'' @
        ''1a46bfca770af98e059158ac563b690f''),
      tv_beta = (''d938b2012f2551b0e13a49568612effcbdca2aed5d1d3a13f47e180e01218916'' @
        ''e049837bd246f66d5058e56d3413dbbbad964f5e9f160a81c9a1355dcd99b453'')\<rparr>]"

text \<open>The macro \<open>from_string!\<close>, one function for each of its types.\<close>

definition hex_decoded :: "(string \<Rightarrow> bytes option) \<Rightarrow> string \<Rightarrow> (bytes, string) outcome" where
  "hex_decoded dec s = unwrap_option ''called Result::unwrap on an Err value'' (dec s)"

definition point_from_string ::
  "('p, 's) curve \<Rightarrow> (string \<Rightarrow> bytes option) \<Rightarrow> string \<Rightarrow> ('p, string) outcome" where
  "point_from_string C dec s = and_then (hex_decoded dec s) (unwrap_decompress C)"

definition public_from_string ::
  "('p, 's) curve \<Rightarrow> (string \<Rightarrow> bytes option) \<Rightarrow> string \<Rightarrow> (vrf_public_key, string) outcome" where
  "public_from_string C dec s =
     and_then (hex_decoded dec s)
       (\<lambda>v. unwrap ''called Result::unwrap on an Err value'' (public_try_from C v))"

definition private_from_string ::
  "(string \<Rightarrow> bytes option) \<Rightarrow> string \<Rightarrow> (vrf_private_key, string) outcome" where
  "private_from_string dec s =
     and_then (hex_decoded dec s)
       (\<lambda>v. unwrap ''called Result::unwrap on an Err value'' (private_try_from_bytes v))"

definition proof_from_string ::
  "('p, 's) curve \<Rightarrow> (string \<Rightarrow> bytes option) \<Rightarrow> string \<Rightarrow> (('p, 's) ecvrf_proof, string) outcome" where
  "proof_from_string C dec s =
     and_then (hex_decoded dec s)
       (\<lambda>v. unwrap ''called Result::unwrap on an Err value'' (proof_try_from C v))"

section \<open>The tests\<close>

definition gen_keypair_prove_and_verify ::
  "profile \<Rightarrow> ('p, 's) curve \<Rightarrow> ('r \<Rightarrow> bytes) \<Rightarrow> 'r \<Rightarrow> (bytes, string) outcome option" where
  "gen_keypair_prove_and_verify b C generate rng =
     (let message = string_bytes ''Test message, hello, hetu!'';
          private_key = generate_keypair generate rng;
          public_key = public_from C private_key
      in bind_running (prove b C private_key message) (\<lambda>pf.
         bind_running (verify b C public_key pf message) (\<lambda>_.
           let random_num = output_from C pf in Some (Ok random_num))))"

definition test_expand_secret_key ::
  "('p, 's) curve \<Rightarrow> (bytes \<Rightarrow> string) \<Rightarrow> (string \<Rightarrow> bytes option) \<Rightarrow> vrf_test_vector list \<Rightarrow>
   (unit, string) outcome option" where
  "test_expand_secret_key C enc dec = each_case (\<lambda>tv. Some (
     and_then (private_from_string dec (tv_SK tv)) (\<lambda>sk.
       let esk = expanded_from C sk;
           pk = public_from C sk
       in and_then (assert_that (tv_PK tv = enc pk)) (\<lambda>_.
          assert_that (tv_x tv = enc (scalar_to_bytes C (key_scalar esk)))))))"

definition test_hash_to_curve ::
  "profile \<Rightarrow> ('p, 's) curve \<Rightarrow> (bytes \<Rightarrow> string) \<Rightarrow> (string \<Rightarrow> bytes option) \<Rightarrow> vrf_test_vector list \<Rightarrow>
   (unit, string) outcome option" where
  "test_hash_to_curve b C enc dec = each_case (\<lambda>tv.
     bind_running (Some (public_from_string C dec (tv_PK tv))) (\<lambda>pk.
     bind_running (hash_to_curve b C pk (tv_alpha tv)) (\<lambda>h_point.
       Some (assert_that (tv_H tv = enc (compress C h_point))))))"

definition test_nonce_generation ::
  "('p, 's) curve \<Rightarrow> (bytes \<Rightarrow> string) \<Rightarrow> (string \<Rightarrow> bytes option) \<Rightarrow> vrf_test_vector list \<Rightarrow>
   (unit, string) outcome option" where
  "test_nonce_generation C enc dec = each_case (\<lambda>tv. Some (
     and_then (private_from_string dec (tv_SK tv)) (\<lambda>key.
     and_then (point_from_string C dec (tv_H tv)) (\<lambda>h_point.
       let sk = expanded_from C key;
           k = nonce_generation_bytes C (key_nonce sk) h_point
       in assert_that (tv_k tv = enc k)))))"

definition test_hash_points ::
  "('p, 's) curve \<Rightarrow> (bytes \<Rightarrow> string) \<Rightarrow> (string \<Rightarrow> bytes option) \<Rightarrow> vrf_test_vector list \<Rightarrow>
   (unit, string) outcome option" where
  "test_hash_points C enc dec = each_case (\<lambda>tv. Some (
     and_then (private_from_string dec (tv_SK tv)) (\<lambda>key.
     and_then (point_from_string C dec (tv_H tv)) (\<lambda>h_point.
       let sk = expanded_from C key;
           k_bytes = nonce_generation_bytes C (key_nonce sk) h_point;
           k_scalar = scalar_from_bytes_mod_order_wide C k_bytes;
           gam = point_mul C h_point (key_scalar sk);
           u = point_mul C (basepoint C) k_scalar;
           v = point_mul C h_point k_scalar
       in and_then (assert_that (tv_U tv = enc (compress C u))) (\<lambda>_.
          and_then (assert_that (tv_V tv = enc (compress C v))) (\<lambda>_.
            let c_scalar = hash_points C [h_point, gam, u, v];
                s_sum = scalar_add C k_scalar (scalar_mul C c_scalar (key_scalar sk));
                s_scalar = scalar_from_bytes_mod_order C (scalar_to_bytes C s_sum);
                pi = \<lparr>gamma = gam, proof_c = c_scalar, proof_s = s_scalar\<rparr>
            in assert_that (tv_pi tv = enc (proof_to_bytes C pi))))))))"

definition test_prove ::
  "profile \<Rightarrow> ('p, 's) curve \<Rightarrow> (bytes \<Rightarrow> string) \<Rightarrow> (string \<Rightarrow> bytes option) \<Rightarrow> vrf_test_vector list \<Rightarrow>
   (unit, string) outcome option" where
  "test_prove b C enc dec = each_case (\<lambda>tv.
     bind_running (Some (private_from_string dec (tv_SK tv))) (\<lambda>sk.
     bind_running (prove b C sk (tv_alpha tv)) (\<lambda>pi.
       Some (assert_that (tv_pi tv = enc (proof_to_bytes C pi))))))"

definition test_verify ::
  "profile \<Rightarrow> ('p, 's) curve \<Rightarrow> (string \<Rightarrow> bytes option) \<Rightarrow> vrf_test_vector list \<Rightarrow>
   (unit, string) outcome option" where
  "test_verify b C dec = each_case (\<lambda>tv.
     bind_running (Some (public_from_string C dec (tv_PK tv))) (\<lambda>pk.
     bind_running (Some (proof_from_string C dec (tv_pi tv))) (\<lambda>pi.
     bind_running (map_option ask_ok (verify b C pk pi (tv_alpha tv))) (\<lambda>ok.
       Some (assert_that ok)))))"

definition test_output_from_proof ::
  "profile \<Rightarrow> ('p, 's) curve \<Rightarrow> (bytes \<Rightarrow> string) \<Rightarrow> (string \<Rightarrow> bytes option) \<Rightarrow> vrf_test_vector list \<Rightarrow>
   (unit, string) outcome option" where
  "test_output_from_proof b C enc dec = each_case (\<lambda>tv.
     bind_running (Some (private_from_string dec (tv_SK tv))) (\<lambda>sk.
     bind_running (prove b C sk (tv_alpha tv)) (\<lambda>pi.
       Some (assert_that (tv_beta tv = enc (output_from C pi))))))"

text \<open>A property of \<open>proptest\<close>: \<open>prop_assert!\<close> returns an error.\<close>

definition prop_assert :: "bool \<Rightarrow> (unit, string) outcome" where
  "prop_assert p = (if p then Ok () else Err ''TestCaseError::Fail'')"

definition test_prove_and_verify ::
  "profile \<Rightarrow> ('p, 's) curve \<Rightarrow> bytes \<Rightarrow> bytes \<Rightarrow> (vrf_private_key, vrf_public_key) key_pair \<Rightarrow>
   (unit, string) outcome option" where
  "test_prove_and_verify b C hash1 hash2 keypair =
     (let pk = kp_public_key keypair; sk = kp_private_key keypair;
          pk_test = public_from C sk
      in bind_running (Some (prop_assert (pk = pk_test))) (\<lambda>_.
         bind_running (prove b C sk hash1) (\<lambda>proof1.
         bind_running (map_option ask_ok (verify b C pk proof1 hash1)) (\<lambda>ok1.
         bind_running (Some (prop_assert ok1)) (\<lambda>_.
         bind_running (map_option ask_ok (verify b C pk proof1 hash2)) (\<lambda>ok2.
           Some (prop_assert (\<not> ok2))))))))"

text \<open>The test of \<open>sample.rs\<close>; the literal \<open>0.1\<close> is \<open>f64_0_1\<close>.\<close>

definition vrf_output_hex :: string where
  "vrf_output_hex =
     ''a64c292ec45f6b252828aff9a02a0fe88d2fcc7f5fc61bb328f03f4c6c0657a9'' @
     ''d26efb23b87647ff54f71cd51a6fa4c4e31661d8f72b41ff00ac4d2eec2ea7b3''"

definition test_meets :: "(string \<Rightarrow> nat option) \<Rightarrow> (unit, string) outcome" where
  "test_meets big_from_hex =
     (let sampler = sampler_new 512
      in and_then (hex_to_biguint big_from_hex sampler vrf_output_hex) (\<lambda>vrf_output.
           let target_probability = f64_0_1;
               threshold = calculate_threshold sampler target_probability;
               meets = meets_threshold sampler vrf_output threshold
           in assert_that (meets = False)))"

lemma test_vector_lengths:
  "list_all (\<lambda>tv. length (tv_SK tv) = 64 \<and> length (tv_PK tv) = 64 \<and> length (tv_x tv) = 64 \<and>
     length (tv_H tv) = 64 \<and> length (tv_k tv) = 128 \<and> length (tv_U tv) = 64 \<and> length (tv_V tv) = 64 \<and>
     length (tv_pi tv) = 2 * PROOF_LENGTH \<and> length (tv_beta tv) = 2 * OUTPUT_LENGTH) TESTVECTORS"
  by (simp add: TESTVECTORS_def PROOF_LENGTH_def OUTPUT_LENGTH_def)

lemma meets_uses_first_output: "tv_beta (hd TESTVECTORS) = vrf_output_hex"
  by (simp add: TESTVECTORS_def vrf_output_hex_def)

section \<open>Properties\<close>

text \<open>The test with a generated key passes whenever the search for a curve point ends, as it does but for
  a hash that misses the curve on all counters.\<close>

theorem generated_key_test_passes:
  assumes "curve_laws C" "length (generate rng) = 32"
    and "hash_to_curve b C (public_from C (generate rng)) (string_bytes ''Test message, hello, hetu!'') = Some (Ok h)"
  shows "\<exists>out. gen_keypair_prove_and_verify b C generate rng = Some (Ok out) \<and> length out = OUTPUT_LENGTH"
proof -
  obtain pf where "prove b C (generate rng) (string_bytes ''Test message, hello, hetu!'') = Some (Ok pf)"
      "verify b C (public_from C (generate rng)) pf (string_bytes ''Test message, hello, hetu!'') = Some (Ok ())"
    using prove_verifies [OF assms] by blast
  then show ?thesis
    by (simp add: gen_keypair_prove_and_verify_def generate_keypair_def bind_running_def
        length_output [OF assms(1)] OUTPUT_LENGTH_def)
qed

text \<open>
  The vectors for the stages imply those for the whole: when the expanded keys, the points hashed
  to and the assembled proofs are as listed, \<open>prove\<close> makes the listed proofs and \<open>verify\<close> accepts what the
  listed texts say. So a change of \<open>prove\<close> alone can only break \<open>test_prove\<close> by not being the composition
  of its stages.
\<close>

lemma private_from_string_length: "private_from_string dec s = Ok sk \<Longrightarrow> length sk = 32"
  by (auto simp: private_from_string_def private_try_from_bytes_def outcome_simps dest: slice_length)

lemma stage_vector:
  assumes laws: "curve_laws C" and hex: "\<And>bs. dec (enc bs) = Some bs"
    and sk: "private_from_string dec (tv_SK tv) = Ok sk" and PK: "tv_PK tv = enc (public_from C sk)"
    and pk: "public_from_string C dec (tv_PK tv) = Ok pk"
    and h: "hash_to_curve b C pk (tv_alpha tv) = Some (Ok h)" "tv_H tv = enc (compress C h)"
    and points: "test_hash_points C enc dec [tv] = Some (Ok ())"
  shows "\<exists>pf. prove b C sk (tv_alpha tv) = Some (Ok pf) \<and> tv_pi tv = enc (proof_to_bytes C pf) \<and>
    pk = public_from C sk"
proof -
  have "public_from C sk = compress C (point_mul C (basepoint C) (key_scalar (expanded_from C sk)))"
    using curve_lawsD(12) [OF laws private_from_string_length [OF sk]] by (simp add: public_from_def)
  then have pk': "pk = public_from C sk"
    using pk by (auto simp: public_from_string_def hex_decoded_def PK hex public_try_from_def outcome_simps
        curve_lawsD(2,3) [OF laws] split: if_splits)
  have "point_from_string C dec (tv_H tv) = Ok h"
    by (simp add: point_from_string_def hex_decoded_def h(2) hex unwrap_decompress_compress [OF laws])
  then have "tv_pi tv = enc (proof_to_bytes C pf)" if "prove b C sk (tv_alpha tv) = Some (Ok pf)" for pf
  proof -
    have "\<exists>k. tv_pi tv = enc (proof_to_bytes C \<lparr>gamma = point_mul C h (key_scalar (expanded_from C sk)),
          proof_c = hash_points C [h, point_mul C h (key_scalar (expanded_from C sk)), point_mul C (basepoint C) k, point_mul C h k],
          proof_s = scalar_add C k (scalar_mul C (hash_points C [h, point_mul C h (key_scalar (expanded_from C sk)),
            point_mul C (basepoint C) k, point_mul C h k]) (key_scalar (expanded_from C sk)))\<rparr>) \<and>
        k = scalar_from_bytes_mod_order_wide C (nonce_generation_bytes C (key_nonce (expanded_from C sk)) h)"
      using points \<open>point_from_string C dec (tv_H tv) = Ok h\<close> sk
      by (simp add: test_hash_points_def outcome_simps Let_def curve_lawsD(5) [OF laws])
    then show ?thesis
      using h(1) that pk' by (auto simp: prove_def prove_expanded_def public_from_def bind_running_def Let_def)
  qed
  moreover have "\<exists>pf. prove b C sk (tv_alpha tv) = Some (Ok pf)"
    using h(1) pk' by (simp add: prove_def prove_expanded_def public_from_def bind_running_def Let_def)
  ultimately show ?thesis using pk' by blast
qed

theorem stage_vectors_give_proofs:
  assumes laws: "curve_laws C" and hex: "\<And>bs. dec (enc bs) = Some bs"
    and expand: "test_expand_secret_key C enc dec vs = Some (Ok ())"
    and curve: "test_hash_to_curve b C enc dec vs = Some (Ok ())"
    and points: "test_hash_points C enc dec vs = Some (Ok ())"
  shows "test_prove b C enc dec vs = Some (Ok ()) \<and> test_verify b C dec vs = Some (Ok ())"
proof -
  have "\<exists>sk pf. private_from_string dec (tv_SK tv) = Ok sk \<and> prove b C sk (tv_alpha tv) = Some (Ok pf) \<and>
      tv_pi tv = enc (proof_to_bytes C pf) \<and> public_from_string C dec (tv_PK tv) = Ok (public_from C sk)"
    if "tv \<in> set vs" for tv
  proof -
    have one: "test_expand_secret_key C enc dec [tv] = Some (Ok ())" "test_hash_to_curve b C enc dec [tv] = Some (Ok ())"
        "test_hash_points C enc dec [tv] = Some (Ok ())"
      using expand curve points that
      by (simp_all add: test_expand_secret_key_def test_hash_to_curve_def test_hash_points_def)
    obtain sk where sk: "private_from_string dec (tv_SK tv) = Ok sk" "tv_PK tv = enc (public_from C sk)"
      using one(1) by (auto simp: test_expand_secret_key_def outcome_simps Let_def)
    obtain pk h where pk: "public_from_string C dec (tv_PK tv) = Ok pk"
        "hash_to_curve b C pk (tv_alpha tv) = Some (Ok h)" "tv_H tv = enc (compress C h)"
      using one(2) by (auto simp: test_hash_to_curve_def outcome_simps)
    from stage_vector [OF laws hex sk pk one(3)] show ?thesis using sk(1) pk(1) by blast
  qed
  moreover have "proof_from_string C dec (enc (proof_to_bytes C pf)) = Ok pf \<and>
      verify b C (public_from C sk) pf (tv_alpha tv) = Some (Ok ())"
    if "private_from_string dec (tv_SK tv) = Ok sk" "prove b C sk (tv_alpha tv) = Some (Ok pf)" for sk pf tv
    using prove_reads_back [OF laws that(2)] proved_verifies [OF laws private_from_string_length [OF that(1)] that(2)]
    by (simp add: proof_from_string_def hex_decoded_def hex)
  ultimately show ?thesis
    unfolding test_prove_def test_verify_def each_case_Ok
    by (fastforce simp: bind_running_def)
qed

text \<open>The theorem applies: a vector computed on the concrete curve of \<open>Ecvrf\<close> passes the tests of the
  stages.\<close>

theorem stage_vectors_give_proofs_witness:
  "\<exists>tv. test_hash_points sample_curve hex_lower sample_hex_decode [tv] = Some (Ok ()) \<and>
     test_prove Debug sample_curve hex_lower sample_hex_decode [tv] = Some (Ok ()) \<and>
     test_verify Debug sample_curve sample_hex_decode [tv] = Some (Ok ())"
proof -
  let ?C = sample_curve and ?sk = "replicate 32 7 :: u8 list"
  obtain h where h: "hash_to_curve Debug ?C (public_from ?C ?sk) [1] = Some (Ok h)"
    by (simp add: sample_hash_to_curve)
  obtain pf where pf: "prove Debug ?C ?sk [1] = Some (Ok pf)"
    using prove_verifies [OF sample_curve_laws _ h] by auto
  define esk where "esk = expanded_from ?C ?sk"
  define k where "k = scalar_from_bytes_mod_order_wide ?C (nonce_generation_bytes ?C (key_nonce esk) h)"
  define tv where "tv = \<lparr>tv_SK = hex_lower ?sk, tv_PK = hex_lower (public_from ?C ?sk), tv_alpha = [1],
    tv_x = hex_lower (scalar_to_bytes ?C (key_scalar esk)), tv_H = hex_lower (compress ?C h), tv_k = [],
    tv_U = hex_lower (compress ?C (point_mul ?C (basepoint ?C) k)), tv_V = hex_lower (compress ?C (point_mul ?C h k)),
    tv_pi = hex_lower (proof_to_bytes ?C pf), tv_beta = []\<rparr>"
  have key: "private_from_string sample_hex_decode (tv_SK tv) = Ok ?sk"
    by (simp add: tv_def private_from_string_def hex_decoded_def sample_hex_decode_lower
        private_try_from_bytes_def slice_def)
  have "public_from_string ?C sample_hex_decode (tv_PK tv) = Ok (public_from ?C ?sk)"
    using public_key_reads_back [OF sample_curve_laws _ sample_key_order]
    by (simp add: tv_def public_from_string_def hex_decoded_def sample_hex_decode_lower)
  then have tests: "test_expand_secret_key ?C hex_lower sample_hex_decode [tv] = Some (Ok ())"
      "test_hash_to_curve Debug ?C hex_lower sample_hex_decode [tv] = Some (Ok ())"
    using key h
    by (simp_all add: test_expand_secret_key_def test_hash_to_curve_def Let_def) (simp_all add: tv_def esk_def)
  have "point_from_string ?C sample_hex_decode (tv_H tv) = Ok h"
    by (simp add: tv_def point_from_string_def hex_decoded_def sample_hex_decode_lower
        unwrap_decompress_compress [OF sample_curve_laws])
  moreover have "pf = \<lparr>gamma = point_mul ?C h (key_scalar esk),
      proof_c = hash_points ?C [h, point_mul ?C h (key_scalar esk), point_mul ?C (basepoint ?C) k, point_mul ?C h k],
      proof_s = scalar_add ?C k (scalar_mul ?C (hash_points ?C [h, point_mul ?C h (key_scalar esk),
        point_mul ?C (basepoint ?C) k, point_mul ?C h k]) (key_scalar esk))\<rparr>"
    using pf h by (simp add: prove_def prove_expanded_def public_from_def Let_def k_def esk_def)
  ultimately have "test_hash_points ?C hex_lower sample_hex_decode [tv] = Some (Ok ())"
    using key
    by (simp add: test_hash_points_def Let_def curve_lawsD(5) [OF sample_curve_laws] flip: esk_def k_def)
      (simp add: tv_def)
  with stage_vectors_give_proofs [OF sample_curve_laws sample_hex_decode_lower tests] show ?thesis by blast
qed

text \<open>The property over random hashes does not exclude that both are the same: then its last assertion
  fails, after the first two have passed.\<close>

theorem equal_hashes_fail:
  assumes "curve_laws C" "length sk = 32" "hash_to_curve b C (public_from C sk) h = Some (Ok p)"
  shows "test_prove_and_verify b C h h (key_pair_from (public_from C) sk) = Some (Err ''TestCaseError::Fail'')"
proof -
  obtain pf where "prove b C sk h = Some (Ok pf)" "verify b C (public_from C sk) pf h = Some (Ok ())"
    using prove_verifies [OF assms] by blast
  then show ?thesis
    by (simp add: test_prove_and_verify_def key_pair_from_def prop_assert_def bind_running_def)
qed

lemma point_one_percent: "f64_to_u64 (f64_mul f64_0_1 (Fin 100 0)) = 10"
proof -
  have l: "bitlen 720575940379279400 = 60" "bitlen 5629499534213120 = 53"
    by (simp_all add: bitlen.simps)
  have "f64_mul f64_0_1 (Fin 100 0) = Fin 5629499534213120 (-49)"
    by (simp add: f64_0_1_def round_float_def round_mag_def f64_format_def round_half_even_def l)
  then show ?thesis by (simp add: trunc_int_def saturate_u64_def)
qed

text \<open>The output of the test begins with the digit \<open>a\<close>, so it lies above a tenth of the range.\<close>

lemma vrf_output_hex_facts:
  "list_all is_ascii_hexdigit vrf_output_hex" "vrf_output_hex = ''a'' @ tl vrf_output_hex"
  "length (tl vrf_output_hex) = 127" "vrf_output_hex \<noteq> []"
  by (simp_all add: vrf_output_hex_def is_ascii_hexdigit_def)

lemma sixteen: "m = 4 * n + 4 \<Longrightarrow> 16 * 16 ^ n = (2 :: nat) ^ m"
  by (simp add: power_add power_mult)

theorem meets_test_passes:
  assumes "hex_laws enc big_from_hex"
  shows "test_meets big_from_hex = Ok ()"
proof -
  note t = vrf_output_hex_facts(2,3)
  have "big_from_hex vrf_output_hex = Some (hex_value vrf_output_hex)"
    using assms vrf_output_hex_facts(1,4) by (simp add: hex_laws_def)
  moreover have "10 * 16 ^ 127 \<le> hex_value vrf_output_hex"
    by (subst t(1), subst hex_value_append, subst t(2)) (simp add: hex_value_def [of "''a''"] to_digit_def del: power_numeral)
  moreover have "calculate_threshold (sampler_new 512) f64_0_1 = 2 ^ 512 * 10 div 100"
    unfolding calculate_threshold_def point_one_percent Let_def by (simp add: sampler_new_def del: power_numeral)
  moreover have "(2::nat) ^ 512 = 16 * 16 ^ 127"
    by (rule sixteen [of 512 127, symmetric]) simp
  moreover have "16 * n * 10 div 100 \<le> 10 * n" for n :: nat by simp
  ultimately have "\<not> hex_value vrf_output_hex < calculate_threshold (sampler_new 512) f64_0_1"
    by (metis leD le_trans)
  with \<open>big_from_hex vrf_output_hex = _\<close> show ?thesis
    by (simp only: test_meets_def hex_to_biguint_def meets_threshold_def Let_def unwrap_option_Some and_then.simps) simp
qed

end
