(* ===== verification/Crypto_Tests.thy ===== *)
theory Crypto_Tests
  imports Test_Support Recovery Crypto_Core
begin

text \<open>
  The tests of the crate \<open>common\<close> as definitions over the model: those of
  \<open>crates/common/src/ordinary_clock.rs\<close>, \<open>crypto/core.rs\<close> and \<open>crypto/recovery.rs\<close>. Output is
  left out. Shown: they pass on every instance of the packages with the documented laws, and what the
  clocks of the stress tests are after any number of rounds.
\<close>

section \<open>The tests of \<open>ordinary_clock.rs\<close>\<close>

definition default_is_genesis :: "(unit, string) outcome" where
  "default_is_genesis =
     (if is_genesis new_clock then Ok () else Err ''Condition failed: OrdinaryClock::default().is_genesis()'')"

text \<open>The clock of a test: the ids below \<open>n\<close>, each with the value 0.\<close>

definition zero_clock :: "nat \<Rightarrow> ordinary_clock" where
  "zero_clock n = OrdinaryClock (btm_collect (map (\<lambda>i. (of_nat i, 0)) [0..<n]))"

definition clock_sha256 ::
  "profile \<Rightarrow> ((key_id, u32) btree_map \<Rightarrow> (bytes, 'd) outcome) \<Rightarrow> (bytes \<Rightarrow> bytes) \<Rightarrow>
   (ordinary_clock \<times> bytes, string) outcome" where
  "clock_sha256 b serialize sha256 =
     and_then (update b (zero_clock 4) [new_clock] 0) (\<lambda>clock.
     and_then (calculate_sha256 serialize sha256 clock) (\<lambda>digest. Ok (clock, digest)))"

text \<open>The sizes \<open>1 << n\<close> for the even \<open>n\<close> up to 12.\<close>

definition stress_sizes :: "nat list" where
  "stress_sizes = map (\<lambda>n. 2 ^ n) [0, 2, 4, 6, 8, 10, 12]"

definition raw_round ::
  "profile \<Rightarrow> ordinary_clock \<Rightarrow> ordinary_clock \<times> u32 \<Rightarrow> (ordinary_clock \<times> u32, string) outcome" where
  "raw_round b clock s =
     (case s of (current_clock, count) \<Rightarrow>
        let num_merged = 0 in
        and_then (update b current_clock (replicate num_merged clock) 0) (\<lambda>updated_clock.
        and_then (incr_i32 b count) (\<lambda>count'. Ok (updated_clock, count'))))"

definition stress_raw_update :: "profile \<Rightarrow> (nat \<Rightarrow> nat) \<Rightarrow> ((ordinary_clock \<times> u32) list, string) outcome" where
  "stress_raw_update b rounds =
     traverse (\<lambda>size. let clock = zero_clock size in timed_loop (rounds size) (raw_round b clock) (clock, 0))
       stress_sizes"

text \<open>In the concurrent test each task has clocks of its own; only the counter is shared. It is an atomic
  \<open>usize\<close> whose additions wrap, so their order does not matter.\<close>

definition stress_raw_update_concurrency ::
  "profile \<Rightarrow> nat \<Rightarrow> (nat \<Rightarrow> nat \<Rightarrow> nat) \<Rightarrow> ((ordinary_clock list \<times> u64) list, string) outcome" where
  "stress_raw_update_concurrency b core rounds =
     traverse (\<lambda>size.
       let clock = zero_clock size; num_merged = 0 in
       and_then
         (traverse (\<lambda>task. timed_loop (rounds size task)
            (\<lambda>current_clock. update b current_clock (replicate num_merged clock) 0) clock) [0..<core])
         (\<lambda>clocks. Ok (clocks, of_nat (\<Sum>task \<leftarrow> [0..<core]. rounds size task))))
       stress_sizes"

text \<open>\<open>unwrap\<close> of an optional key, and \<open>assert_eq!\<close> with the key that was generated.\<close>

definition assert_recovers ::
  "('sk, 'pk, 'rsg, 'sg) recovery_api \<Rightarrow> 'pk \<Rightarrow> 'rsg \<Rightarrow> bytes \<Rightarrow> (unit, string) outcome" where
  "assert_recovers R public_key sig clock_hash =
     and_then (recover_public_key R sig clock_hash) (\<lambda>found.
     and_then (unwrap_option ''called Option::unwrap on a None value'' found) (\<lambda>recover_pubkey.
       if recover_pubkey = public_key then Ok () else Panic ''assertion failed: left == right''))"

definition stress_verify_update ::
  "profile \<Rightarrow> ('sk, 'pk, 'rsg, 'sg) recovery_api \<Rightarrow> (ordinary_clock \<Rightarrow> bytes) \<Rightarrow> 'sk \<times> 'pk \<Rightarrow>
   (nat \<Rightarrow> nat) \<Rightarrow> ((ordinary_clock \<times> u32) list, string) outcome" where
  "stress_verify_update b R digest pair rounds =
     (case pair of (secret_key, public_key) \<Rightarrow>
        traverse (\<lambda>size.
          let clock = zero_clock size; clock_hash = digest clock in
          and_then (sign_message_recover_pk R secret_key (digest clock)) (\<lambda>signature_recover.
            timed_loop (rounds size)
              (\<lambda>s. and_then (assert_recovers R public_key signature_recover clock_hash) (\<lambda>_. raw_round b clock s))
              (clock, 0)))
          stress_sizes)"

text \<open>One round of the last test: the signature of the round before is checked against the digest of the
  current clock, the clock is updated, and the new clock is signed.\<close>

definition sig_verify_round ::
  "profile \<Rightarrow> ('sk, 'pk, 'rsg, 'sg) recovery_api \<Rightarrow> (ordinary_clock \<Rightarrow> bytes) \<Rightarrow> 'sk \<times> 'pk \<Rightarrow> ordinary_clock \<Rightarrow>
   (ordinary_clock \<times> u32) \<times> 'rsg option \<Rightarrow> ((ordinary_clock \<times> u32) \<times> 'rsg option, string) outcome" where
  "sig_verify_round b R digest pair clock s =
     (case s of ((current_clock, count), signatures) \<Rightarrow>
        and_then (case signatures of
                    None \<Rightarrow> Ok ()
                  | Some sg \<Rightarrow> assert_recovers R (snd pair) sg (digest current_clock)) (\<lambda>_.
        and_then (raw_round b clock (current_clock, count)) (\<lambda>(updated_clock, count').
        and_then (sign_message_recover_pk R (fst pair) (digest updated_clock)) (\<lambda>signature_recover.
          Ok ((updated_clock, count'), Some signature_recover)))))"

definition stress_sig_verify_update ::
  "profile \<Rightarrow> ('sk, 'pk, 'rsg, 'sg) recovery_api \<Rightarrow> (ordinary_clock \<Rightarrow> bytes) \<Rightarrow> 'sk \<times> 'pk \<Rightarrow>
   (nat \<Rightarrow> nat) \<Rightarrow> (((ordinary_clock \<times> u32) \<times> 'rsg option) list, string) outcome" where
  "stress_sig_verify_update b R digest pair rounds =
     traverse (\<lambda>size.
       let clock = zero_clock size in
       timed_loop (rounds size) (sig_verify_round b R digest pair clock) ((clock, 0), None))
       stress_sizes"

section \<open>The tests of \<open>core.rs\<close>\<close>

text \<open>\<open>derive(Hash)\<close> hashes the fields in order; a vector of bytes is its length, then its elements.\<close>

definition foo_calls :: "u32 \<times> bytes \<Rightarrow> hasher_call list" where
  "foo_calls foo = [Write_u32 (fst foo), Write_usize (of_nat (length (snd foo))), Write (snd foo)]"

definition struct_digest :: "(bytes \<Rightarrow> bytes) \<Rightarrow> (unit, string) outcome" where
  "struct_digest sha256 =
     (let foo = (42, string_bytes ''hello'')
      in if sha256 (digest_hash foo_calls foo) \<noteq> replicate 32 0 then Ok ()
         else Panic ''assertion failed: left != right'')"

definition generate_keypair_test ::
  "('m, 'sk, 'pk, 'sg, 'kp, 'spk, 'ssg) crypto_api \<Rightarrow> bytes \<Rightarrow> 'sk \<Rightarrow> 'kp \<Rightarrow> (string \<times> string, string) outcome"
  where
  "generate_keypair_test A secret_key sk keypair =
     (let crypto = new_random A secret_key sk keypair FlavorSecp256k1 in
      and_then (assert_that (is_ok crypto)) (\<lambda>_.
      and_then (unwrap ''called Result::unwrap on an Err value'' crypto) (\<lambda>crypto.
      let keys = to_hex A crypto in
      and_then (assert_that (keys \<noteq> None)) (\<lambda>_.
        unwrap_option ''called Option::unwrap on a None value'' keys))))"

definition verify_batched ::
  "(string, 'sk, 'pk, 'sg, 'kp, 'spk, 'ssg) crypto_api \<Rightarrow> (nat \<Rightarrow> bytes) \<Rightarrow> (unit, string) outcome" where
  "verify_batched A rnd =
     (let message = ''hello'' in
      and_then (traverse (\<lambda>i. new_hardcoded A 4 i FlavorSchnorrkel) [0..<4]) (\<lambda>crypto.
      let verifiable = map (\<lambda>(i, c). crypto_sign A (rnd i) c message) (enumerate 0 crypto)
      in crypto_verify_batch A (crypto ! 0) [0, 1, 2, 3] verifiable))"

section \<open>The test of \<open>recovery.rs\<close>\<close>

definition sign_recover_verify ::
  "('sk, 'pk, 'rsg, 'sg) recovery_api \<Rightarrow> (string \<Rightarrow> bytes) \<Rightarrow> 'sk \<times> 'pk \<Rightarrow> (unit, string) outcome" where
  "sign_recover_verify R digest pair =
     (case pair of (secret_key, public_key) \<Rightarrow>
        let msg = digest ''Hello, Ethereum!'' in
        and_then (sign_message_recover_pk R secret_key msg) (\<lambda>signature_recover.
        let (rid, data) = rsg_to_compact R signature_recover;
            recovery_id_byte = of_int rid;
            sig_hex = api_hex_encode R (data @ [recovery_id_byte]);
            msg_hex = api_hex_encode R msg;
            ret = verify_secp256k1_recovery_pk R sig_hex msg_hex
        in and_then (recover_public_key R signature_recover msg) (\<lambda>found.
           and_then (unwrap_option ''called Option::unwrap on a None value'' found) (\<lambda>recover_pubkey.
           and_then (ask_ok ret) (\<lambda>ok.
           and_then (assert_that ok) (\<lambda>_.
             if recover_pubkey = public_key then Ok () else Panic ''assertion failed: left == right''))))))"

section \<open>Properties\<close>

lemma zero_clock_facts: "wf_clock (zero_clock n)" "level (zero_clock n) k = 0"
  by (auto simp: zero_clock_def wf_clock_def level_def btree_simps split: option.split dest!: map_of_SomeD)

theorem genesis_test_passes: "default_is_genesis = Ok ()"
  by (simp add: default_is_genesis_def is_genesis_level level_def) (simp add: new_clock_def)

theorem clock_sha256_passes:
  assumes "\<And>m. \<exists>d. serialize m = Ok d"
  shows "\<exists>clock digest. clock_sha256 b serialize sha256 = Ok (clock, digest) \<and> level clock = (\<lambda>_. 0)(0 := 1)"
proof -
  have l: "level (join_clock (zero_clock 4) new_clock) k = 0" for k
    by (simp add: level_join_clock zero_clock_facts) (simp add: level_def new_clock_def)
  then have "update b (zero_clock 4) [new_clock] 0 = (Ok (bump (join_clock (zero_clock 4) new_clock) 0) :: (_, string) outcome)"
      (is "_ = Ok ?c")
    by (simp add: update_in_range)
  moreover have "level ?c = (\<lambda>_. 0)(0 := 1)"
    using l by (simp add: level_bump fun_eq_iff)
  moreover obtain d where "serialize (clock_map ?c) = Ok d" using assms by blast
  ultimately show ?thesis by (simp add: clock_sha256_def calculate_sha256_def)
qed

text \<open>A round of the stress tests raises the level of the id 0 and the counter by one.\<close>

definition after_rounds :: "nat \<Rightarrow> ordinary_clock \<times> u32 \<Rightarrow> bool" where
  "after_rounds k s \<longleftrightarrow> wf_clock (fst s) \<and> level (fst s) = (\<lambda>_. 0)(0 := k) \<and> snd s = of_nat k"

lemma after_rounds_start: "after_rounds 0 (zero_clock n, 0)"
  by (auto simp: after_rounds_def zero_clock_facts)

lemma raw_round_step:
  assumes "after_rounds k s" "k < 2 ^ 31 - 1"
  shows "\<exists>s'. raw_round b clock s = Ok s' \<and> after_rounds (Suc k) s'"
proof -
  obtain c where s: "s = (c, of_nat k)" "wf_clock c" "level c = (\<lambda>_. 0)(0 := k)"
    using assms(1) by (cases s) (simp add: after_rounds_def)
  have l: "level c 0 + 1 < 2 ^ 32" using s(3) assms(2) by simp
  have "update b c [] 0 = (Ok (bump c 0) :: (_, string) outcome)" using l update_in_range [of c "[]"] by simp
  then have "raw_round b clock s = Ok (bump c 0, of_nat (Suc k))"
    by (simp add: raw_round_def s(1) incr_i32_fits [OF assms(2)] del: of_nat_Suc)
  moreover have "after_rounds (Suc k) (bump c 0, of_nat (Suc k))"
    using wf_bump [OF s(2)] level_bump [OF l] s(3) by (simp add: after_rounds_def fun_eq_iff)
  ultimately show ?thesis by blast
qed

theorem stress_raw_update_passes:
  assumes "\<And>size. rounds size < 2 ^ 31"
  shows "\<exists>res. stress_raw_update b rounds = Ok res \<and>
    list_all2 (\<lambda>size s. level (fst s) = (\<lambda>_. 0)(0 := rounds size) \<and> snd s = of_nat (rounds size)) stress_sizes res"
proof -
  have "\<exists>s. timed_loop (rounds size) (raw_round b (zero_clock size)) (zero_clock size, 0) = Ok s \<and>
      after_rounds (rounds size) s" for size
    using assms [of size]
    by (intro timed_loop_invariant after_rounds_start raw_round_step) simp_all
  then obtain g where g: "\<And>size. timed_loop (rounds size) (raw_round b (zero_clock size)) (zero_clock size, 0) = Ok (g size)"
      "\<And>size. after_rounds (rounds size) (g size)"
    by metis
  then have "stress_raw_update b rounds = Ok (map g stress_sizes)"
    unfolding stress_raw_update_def by (intro traverse_Ok) simp
  then show ?thesis using g(2) by (simp add: list_all2_map2 list_all2_same after_rounds_def)
qed

text \<open>The concurrent test: every task ends with its own number of rounds at the id 0, and the shared counter
  has their sum.\<close>

lemma update_step:
  assumes "wf_clock c \<and> level c = (\<lambda>_. 0)(0 := k)" "k < 2 ^ 32 - 1"
  shows "\<exists>c'. update b c [] 0 = Ok c' \<and> wf_clock c' \<and> level c' = (\<lambda>_. 0)(0 := Suc k)"
proof -
  have l: "level c 0 + 1 < 2 ^ 32" using assms by simp
  then have "update b c [] 0 = Ok (bump c 0)" using update_in_range [of c "[]"] by simp
  then show ?thesis using wf_bump [of c] level_bump [OF l] assms(1) by (auto simp: fun_eq_iff)
qed

theorem stress_raw_update_concurrency_passes:
  assumes "\<And>size task. rounds size task < 2 ^ 32"
  shows "\<exists>res. stress_raw_update_concurrency b core rounds = Ok res \<and>
    list_all2 (\<lambda>size (clocks, count).
      map (\<lambda>c. level c 0) clocks = map (rounds size) [0..<core] \<and>
      count = of_nat (\<Sum>task \<leftarrow> [0..<core]. rounds size task)) stress_sizes res"
proof -
  have "\<exists>c. timed_loop n (\<lambda>c. update b c [] 0) (zero_clock size) = (Ok c :: (_, string) outcome) \<and>
      wf_clock c \<and> level c = (\<lambda>_. 0)(0 := n)" if "n < 2 ^ 32" for n size
    using that by (intro timed_loop_invariant update_step) (auto simp: zero_clock_facts)
  then obtain g where g: "\<And>n size. n < 2 ^ 32 \<Longrightarrow>
        timed_loop n (\<lambda>c. update b c [] 0) (zero_clock size) = (Ok (g n size) :: (_, string) outcome)"
      "\<And>n size. n < 2 ^ 32 \<Longrightarrow> level (g n size) = (\<lambda>_. 0)(0 := n)"
    by metis
  let ?clocks = "\<lambda>size. map (\<lambda>task. g (rounds size task) size) [0..<core]"
  have "traverse (\<lambda>task. timed_loop (rounds size task) (\<lambda>c. update b c [] 0) (zero_clock size)) [0..<core] =
      (Ok (?clocks size) :: (_, string) outcome)" for size
    by (intro traverse_Ok g assms)
  then have "stress_raw_update_concurrency b core rounds =
      Ok (map (\<lambda>size. (?clocks size, of_nat (\<Sum>task \<leftarrow> [0..<core]. rounds size task))) stress_sizes)"
    unfolding stress_raw_update_concurrency_def by (intro traverse_Ok) simp
  moreover have "map (\<lambda>c. level c 0) (?clocks size) = map (rounds size) [0..<core]" for size
    using g(2) assms by simp
  ultimately show ?thesis by (simp add: list_all2_map2 list_all2_same)
qed

text \<open>With the laws of the recoverable signatures every check in the loops succeeds: the recovered key is the
  one that signed.\<close>

lemma signed_recovers:
  assumes "recovery_laws R msg sk" "length msg = 32"
  shows "sign_message_recover_pk R sk msg = Ok (rsg_sign R msg sk)"
    and "assert_recovers R (public_of R sk) (rsg_sign R msg sk) msg = Ok ()"
  using assms
  by (auto simp: sign_message_recover_pk_def assert_recovers_def recover_public_key_def from_digest_slice_def
      recovery_laws_def Let_def split: prod.splits)

theorem stress_verify_update_passes:
  assumes "\<And>size. rounds size < 2 ^ 31" and "\<And>c. recovery_laws R (digest c) sk \<and> length (digest c) = 32"
  shows "\<exists>res. stress_verify_update b R digest (sk, public_of R sk) rounds = Ok res \<and>
    list_all2 (\<lambda>size s. level (fst s) = (\<lambda>_. 0)(0 := rounds size)) stress_sizes res"
proof -
  note sg = signed_recovers [OF conjunct1 [OF assms(2)] conjunct2 [OF assms(2)]]
  have "\<exists>s. timed_loop (rounds size)
      (\<lambda>s. and_then (assert_recovers R (public_of R sk) (rsg_sign R (digest (zero_clock size)) sk)
          (digest (zero_clock size))) (\<lambda>_. raw_round b (zero_clock size) s)) (zero_clock size, 0) = Ok s \<and>
      after_rounds (rounds size) s" for size
    using assms(1) [of size]
    by (intro timed_loop_invariant after_rounds_start)
      (simp only: sg and_then.simps, rule raw_round_step, simp_all)
  then obtain g where g: "\<And>size. timed_loop (rounds size)
      (\<lambda>s. and_then (assert_recovers R (public_of R sk) (rsg_sign R (digest (zero_clock size)) sk)
          (digest (zero_clock size))) (\<lambda>_. raw_round b (zero_clock size) s)) (zero_clock size, 0) = Ok (g size)"
      "\<And>size. after_rounds (rounds size) (g size)"
    by metis
  then have "stress_verify_update b R digest (sk, public_of R sk) rounds = Ok (map g stress_sizes)"
    unfolding stress_verify_update_def prod.case by (intro traverse_Ok) (simp add: sg)
  then show ?thesis using g(2) by (simp add: list_all2_map2 list_all2_same after_rounds_def)
qed

text \<open>In the last test each round checks the signature of the round before, over the clock that it left.\<close>

definition signed_after :: "('sk, 'pk, 'rsg, 'sg) recovery_api \<Rightarrow> (ordinary_clock \<Rightarrow> bytes) \<Rightarrow> 'sk \<Rightarrow> nat \<Rightarrow>
   (ordinary_clock \<times> u32) \<times> 'rsg option \<Rightarrow> bool" where
  "signed_after R digest sk k s \<longleftrightarrow> after_rounds k (fst s) \<and>
     snd s = (if k = 0 then None else Some (rsg_sign R (digest (fst (fst s))) sk))"

lemma sig_verify_step:
  assumes "signed_after R digest sk k s" "k < 2 ^ 31 - 1"
    and "\<And>c. recovery_laws R (digest c) sk \<and> length (digest c) = 32"
  shows "\<exists>s'. sig_verify_round b R digest (sk, public_of R sk) clock s = Ok s' \<and> signed_after R digest sk (Suc k) s'"
proof -
  note sg = signed_recovers [OF conjunct1 [OF assms(3)] conjunct2 [OF assms(3)]]
  obtain c count signatures where s: "s = ((c, count), signatures)" by (metis surj_pair)
  obtain c' count' where r: "raw_round b clock (c, count) = Ok (c', count')" "after_rounds (Suc k) (c', count')"
    using raw_round_step [OF _ assms(2), of "(c, count)" b clock] assms(1) by (auto simp: signed_after_def s)
  have "(case signatures of None \<Rightarrow> Ok () | Some g \<Rightarrow> assert_recovers R (public_of R sk) g (digest c)) = Ok ()"
    using assms(1) by (simp add: signed_after_def s sg split: if_splits)
  then have "sig_verify_round b R digest (sk, public_of R sk) clock s = Ok ((c', count'), Some (rsg_sign R (digest c') sk))"
    by (simp add: sig_verify_round_def s r(1) sg cong: option.case_cong)
  then show ?thesis using r(2) by (simp add: signed_after_def)
qed

theorem stress_sig_verify_update_passes:
  assumes "\<And>size. rounds size < 2 ^ 31" and "\<And>c. recovery_laws R (digest c) sk \<and> length (digest c) = 32"
  shows "\<exists>res. stress_sig_verify_update b R digest (sk, public_of R sk) rounds = Ok res \<and>
    list_all2 (\<lambda>size s. level (fst (fst s)) = (\<lambda>_. 0)(0 := rounds size)) stress_sizes res"
proof -
  have "\<exists>s. timed_loop (rounds size) (sig_verify_round b R digest (sk, public_of R sk) (zero_clock size))
      ((zero_clock size, 0), None) = Ok s \<and> signed_after R digest sk (rounds size) s" for size
    using assms(1) [of size] after_rounds_start [of size]
    by (intro timed_loop_invariant sig_verify_step assms(2)) (simp_all add: signed_after_def)
  then obtain g where g: "\<And>size. timed_loop (rounds size)
      (sig_verify_round b R digest (sk, public_of R sk) (zero_clock size)) ((zero_clock size, 0), None) = Ok (g size)"
      "\<And>size. signed_after R digest sk (rounds size) (g size)"
    by metis
  then have "stress_sig_verify_update b R digest (sk, public_of R sk) rounds = Ok (map g stress_sizes)"
    unfolding stress_sig_verify_update_def by (intro traverse_Ok) simp
  then show ?thesis using g(2) by (simp add: list_all2_map2 list_all2_same after_rounds_def signed_after_def)
qed

text \<open>What the struct of the digest test comes to: nine bytes of lengths and numbers around the text.\<close>

theorem struct_digest_passes:
  "struct_digest sha256 = Ok () \<longleftrightarrow>
     sha256 ([42, 0, 0, 0, 5, 0, 0, 0, 0, 0, 0, 0] @ string_bytes ''hello'') \<noteq> replicate 32 0"
proof -
  have "digest_hash foo_calls (42, string_bytes ''hello'') =
      [42, 0, 0, 0, 5, 0, 0, 0, 0, 0, 0, 0] @ string_bytes ''hello''"
    by code_simp
  then show ?thesis by (simp add: struct_digest_def del: append.simps)
qed

theorem generate_keypair_passes:
  "generate_keypair_test A secret_key sk keypair =
     Ok (hex_text A (secret_bytes (secp A) sk), hex_text A (serialize_public (secp A) (secp_public_key (secp A) sk)))"
  by (simp add: generate_keypair_test_def new_random_def to_hex_def)

text \<open>The replicas of the batch test are built from seeds the package accepts.\<close>

theorem verify_batched_passes:
  assumes "crypto_laws A" "batch_law A" "\<And>i. i < 4 \<Longrightarrow> is_ok (new_hardcoded A 4 i FlavorSchnorrkel)"
  shows "verify_batched A rnd = Ok ()"
proof -
  have "\<exists>c. new_hardcoded A 4 i FlavorSchnorrkel = Ok c" if "i < 4" for i
    using assms(3) [OF that] by (cases "new_hardcoded A 4 i FlavorSchnorrkel") auto
  then obtain g where g: "\<And>i. i < 4 \<Longrightarrow> new_hardcoded A 4 i FlavorSchnorrkel = Ok (g i)" by metis
  have replicas: "traverse (\<lambda>i. new_hardcoded A 4 i FlavorSchnorrkel) [0..<4] = Ok (map g [0..<4])"
    by (rule traverse_Ok) (simp add: g)
  obtain kp where kp: "provider (g 0) = ProviderSchnorrkel kp ''default''"
    using new_hardcoded_keys [OF g [of 0]] by (cases "provider (g 0)") auto
  have upt: "[0..<4] = [0, 1, 2, 3 :: nat]" by code_simp
  let ?batch = "map (\<lambda>i. (i, crypto_sign A (rnd i) (g i) ''hello'')) [0, 1, 2, 3]"
  have "\<exists>y. batch_item A (g 0) ''default'' p = Ok y \<and>
      (case y of (t, sg, pk) \<Rightarrow> schnorrkel_verify (schnorrkel A) pk t sg = Ok ())" if "p \<in> set ?batch" for p
    using that batch_item_own [OF g [of 0] g _ assms(1), of _ "rnd _" "''hello''"] by fastforce
  then obtain items where "traverse (batch_item A (g 0) ''default'') ?batch = Ok items"
      "\<forall>y\<in>set items. case y of (t, sg, pk) \<Rightarrow> schnorrkel_verify (schnorrkel A) pk t sg = Ok ()"
    using traverse_all [of ?batch "batch_item A (g 0) ''default''"
      "\<lambda>y. case y of (t, sg, pk) \<Rightarrow> schnorrkel_verify (schnorrkel A) pk t sg = Ok ()"] by blast
  moreover from this(2) have "schnorrkel_verify_batch (schnorrkel A) (map fst items) (map (fst \<circ> snd) items)
      (map (snd \<circ> snd) items) = Ok ()"
    using assms(2) by (simp add: batch_law_def)
  moreover have "map (\<lambda>(i, c). crypto_sign A (rnd i) c ''hello'') (enumerate 0 (map g [0..<4])) = map snd ?batch"
    by (simp add: upt numeral_2_eq_2 numeral_3_eq_3)
  moreover have "zip [0, 1, 2, 3] (map snd ?batch) = ?batch" "map g [0..<4] ! 0 = g 0" by simp_all
  ultimately show ?thesis
    unfolding verify_batched_def Let_def replicas and_then.simps crypto_verify_batch_def
    by (simp only: kp crypto_provider.case and_then.simps)
qed

theorem sign_recover_verify_passes:
  assumes "recovery_laws R (digest ''Hello, Ethereum!'') sk" "length (digest ''Hello, Ethereum!'') = 32"
    and "\<And>bs. api_hex_decode R (api_hex_encode R bs) = Ok bs"
  shows "sign_recover_verify R digest (sk, public_of R sk) = Ok ()"
proof -
  obtain rsg where rsg: "sign_message_recover_pk R sk (digest ''Hello, Ethereum!'') = Ok rsg"
      "recover_public_key R rsg (digest ''Hello, Ethereum!'') = Ok (Some (public_of R sk))"
      "verify_secp256k1_recovery_pk R (api_hex_encode R (recoverable_bytes R rsg))
         (api_hex_encode R (digest ''Hello, Ethereum!'')) = Ok ()"
    using sign_recover_check [OF assms] by blast
  obtain rid data where "rsg_to_compact R rsg = (rid, data)" by fastforce
  then show ?thesis
    using rsg(3) by (simp add: sign_recover_verify_def rsg(1,2) recoverable_bytes_def Let_def)
qed

end
