(* ===== verification/Signature_Tests.thy ===== *)
theory Signature_Tests
  imports Test_Support Eth_Signature Node_Config
begin

text \<open>
  The tests of \<open>crates/alloy-wrapper/src/signature.rs\<close>, \<open>util.rs\<close> and of the helpers in
  \<open>crates/tools/src/helper.rs\<close> as definitions over the model. Output is left out; the two tests that recover
  one fixed address are about the curve alone and are not stated. Shown: the others pass, in every build
  profile, on every instance of the packages with the documented laws.
\<close>

section \<open>The tests of \<open>helper.rs\<close>\<close>

definition test_validate_nodeid :: "(unit, string) outcome" where
  "test_validate_nodeid =
     (let id = ''9c8c905be05044ebeea814781ce9a0580c8fd26228e4605c7e6424c62161f70d'' in
      and_then (assert_that (validate_key id)) (\<lambda>_.
      let id = ''9c8c905be05044ebeea8'' in
        assert_that (\<not> validate_key id)))"

definition test_remove_0x_prefix :: "(unit, string) outcome" where
  "test_remove_0x_prefix =
     (let s1 = ''0x123''; s2 = ''123'';
          result1 = remove_0x_prefix s1; result2 = remove_0x_prefix s2
      in assert_that (result1 = result2))"

section \<open>The tests of \<open>signature.rs\<close>\<close>

definition one_signature :: "bool \<Rightarrow> eth_signature" where
  "one_signature p = \<lparr>es_r = 1, es_s = 1, odd_y_parity = p\<rparr>"

text \<open>The value on the left, and one that has to be computed first.\<close>

definition assert_value :: "'a \<Rightarrow> ('a, 'e) outcome \<Rightarrow> (unit, 'e) outcome" where
  "assert_value expected r = and_then r (\<lambda>x. assert_that (expected = x))"

definition test_payload_len_with_eip155_chain_id :: "profile \<Rightarrow> rlp \<Rightarrow> (unit, string) outcome" where
  "test_payload_len_with_eip155_chain_id b E =
     (let signature = one_signature False in
      and_then (assert_value 3 (payload_len_with_eip155_chain_id b E signature None)) (\<lambda>_.
      and_then (assert_value 3 (payload_len_with_eip155_chain_id b E signature (Some 1))) (\<lambda>_.
        assert_value 4 (payload_len_with_eip155_chain_id b E signature (Some 47)))))"

definition test_v :: "profile \<Rightarrow> (unit, string) outcome" where
  "test_v b =
     (let signature = one_signature False in
      and_then (assert_value 27 (v_value b signature None)) (\<lambda>_.
      and_then (assert_value 37 (v_value b signature (Some 1))) (\<lambda>_.
      let signature = one_signature True in
      and_then (assert_value 28 (v_value b signature None)) (\<lambda>_.
        assert_value 38 (v_value b signature (Some 1))))))"

text \<open>One half of the next test, which has it for no chain id and for 1.\<close>

definition encode_and_decode_chain :: "profile \<Rightarrow> rlp \<Rightarrow> u64 option \<Rightarrow> (unit, string) outcome" where
  "encode_and_decode_chain b E chain =
     (let signature = one_signature False in
      and_then (encode_with_eip155_chain_id b E signature chain) (\<lambda>encoded.
      and_then (assert_value (length encoded) (payload_len_with_eip155_chain_id b E signature chain)) (\<lambda>_.
      and_then (unwrap ''called Result::unwrap on an Err value'' (decode_with_eip155_chain_id E encoded))
        (\<lambda>((decoded, chain_id), rest).
      and_then (assert_that (signature = decoded)) (\<lambda>_.
        assert_that (chain = chain_id))))))"

definition test_encode_and_decode_with_eip155_chain_id :: "profile \<Rightarrow> rlp \<Rightarrow> (unit, string) outcome" where
  "test_encode_and_decode_with_eip155_chain_id b E =
     and_then (encode_and_decode_chain b E None) (\<lambda>_. encode_and_decode_chain b E (Some 1))"

definition zero_signature :: eth_signature where
  "zero_signature = \<lparr>es_r = 0, es_s = 0, odd_y_parity = False\<rparr>"

definition test_payload_len :: "rlp \<Rightarrow> (unit, string) outcome" where
  "test_payload_len E = (let signature = zero_signature in assert_that (3 = payload_len E signature))"

definition test_encode_and_decode :: "rlp \<Rightarrow> (unit, string) outcome" where
  "test_encode_and_decode E =
     (let signature = zero_signature; encoded = signature_encode E signature in
      and_then (assert_that (length encoded = payload_len E signature)) (\<lambda>_.
      and_then (unwrap ''called Result::unwrap on an Err value'' (signature_decode E encoded)) (\<lambda>(decoded, rest).
        assert_that (signature = decoded))))"

text \<open>\<open>Bytes::from_hex\<close> is \<open>bytes_from_hex\<close>.\<close>

definition test_to_hex_bytes :: "(string \<Rightarrow> bytes option) \<Rightarrow> (unit, string) outcome" where
  "test_to_hex_bytes bytes_from_hex =
     (let signature =
            \<lparr>es_r = 18515461264373351373200002665853028612451056578545711640558177340181847433846,
             es_s = 46948507304638947509940763649030358759909902576025900602547168820602576006531,
             odd_y_parity = False\<rparr> in
      and_then (unwrap_option ''called Result::unwrap on an Err value''
        (bytes_from_hex (''0x'' @
          ''28ef61340bd939bc2195fe537567866003e1a15d3c71ff63e1590620aa636276'' @
          ''67cbe9d8997f761aecb703304b3800ccf555c9f3dc64214b297fb1966a3b6d83'' @ ''1b'')))
        (\<lambda>expected. assert_that (to_hex_bytes signature = expected)))"

section \<open>The tests of \<open>util.rs\<close>\<close>

text \<open>The secret that \<open>generate_eth_account\<close> draws is \<open>sk\<close>; \<open>digest\<close> is \<open>sha256\<close> on text.\<close>

definition gen_account ::
  "('sk, 'pk, 'sg) ecdsa \<Rightarrow> ('sk \<Rightarrow> bytes) \<Rightarrow> ('pk \<Rightarrow> bytes) \<Rightarrow> 'sk \<Rightarrow> string \<times> string \<times> string" where
  "gen_account K to_secret_bytes serialize_compressed sk =
     (case generate_eth_account K to_secret_bytes serialize_compressed sk of
        (secret, public, address) \<Rightarrow> (hex_lower secret, public, address))"

definition recover_address_test ::
  "profile \<Rightarrow> ('sk, 'pk, 'sg) ecdsa \<Rightarrow> ('sk \<Rightarrow> bytes) \<Rightarrow> ('pk \<Rightarrow> bytes) \<Rightarrow> (string \<Rightarrow> bytes option) \<Rightarrow>
   (string \<Rightarrow> bytes) \<Rightarrow> 'sk \<Rightarrow> ((string \<times> bytes option), string) outcome" where
  "recover_address_test b K to_secret_bytes serialize_compressed hex_decode digest sk =
     (let rst = generate_eth_account K to_secret_bytes serialize_compressed sk;
          message = ''Hello, Ethereum!'';
          msg = digest message
      in and_then (unwrap ''called Result::unwrap on an Err value'' (eth_sign_message K (fst rst) msg)) (\<lambda>sig.
         let sig_hex = ''0x'' @ hex_lower (to_hex_bytes sig) in
         and_then (unwrap_option ''hex decode error'' (hex_decode sig_hex)) (\<lambda>sig_bytes.
         and_then (from_hex_str b hex_decode sig_hex) (\<lambda>recover_sig.
         let signer = recover_signer K recover_sig msg in Ok (snd (snd rst), signer)))))"

definition recover_alloy_address ::
  "('sk, 'pk, 'sg) ecdsa \<Rightarrow> ('sk \<Rightarrow> bytes) \<Rightarrow> ('pk \<Rightarrow> bytes) \<Rightarrow> ('signer, 'asg) alloy_api \<Rightarrow>
   ('asg \<Rightarrow> bytes) \<Rightarrow> 'sk \<Rightarrow> (unit, string) outcome" where
  "recover_alloy_address K to_secret_bytes serialize_compressed L as_bytes sk =
     (let rst = generate_eth_account K to_secret_bytes serialize_compressed sk;
          message = ''Hello, Ethereum!''
      in and_then (unwrap ''called Result::unwrap on an Err value'' (sign_message_with_chainid L (fst rst) message 1))
           (\<lambda>sig.
         let sig_hex = hex_lower (as_bytes (fst sig)) in
         and_then (unwrap ''called Result::unwrap on an Err value'' (recover_signer_alloy L sig_hex message))
           (\<lambda>address. assert_that (''0x'' @ hex_lower address = snd (snd rst)))))"

section \<open>What RLP documents of short values\<close>

text \<open>A value below 128 is one byte (0 is the byte \<open>0x80\<close>), one from 128 to 255 is two.\<close>

definition rlp_short :: "rlp \<Rightarrow> bool" where
  "rlp_short E \<longleftrightarrow>
     (\<forall>x. unat x < 128 \<longrightarrow> length (enc_u64 E x) = 1) \<and>
     (\<forall>x. 128 \<le> unat x \<and> unat x < 256 \<longrightarrow> length (enc_u64 E x) = 2) \<and>
     (\<forall>x. unat x < 128 \<longrightarrow> length (enc_u256 E x) = 1) \<and> (\<forall>x. length (enc_bool E x) = 1)"

text \<open>A coding that keeps all of these laws: a tag byte says how many bytes follow.\<close>

definition tagged :: "nat \<Rightarrow> 'w::len word \<Rightarrow> bytes" where
  "tagged n x =
     (if unat x < 128 then [of_nat (unat x)] else if unat x < 256 then [129, of_nat (unat x)]
      else 130 # le_bytes n (unat x))"

definition untagged :: "nat \<Rightarrow> bytes \<Rightarrow> ('w::len word \<times> bytes, string) outcome" where
  "untagged n bs =
     (case bs of
        [] \<Rightarrow> Err ''InputTooShort''
      | t # bs \<Rightarrow>
          if unat t < 128 then Ok (of_nat (unat t), bs)
          else if t = 129 then Ok (of_nat (unat (hd bs)), tl bs)
          else Ok (of_nat (le_val (take n bs)), drop n bs))"

definition tagged_rlp :: rlp where
  "tagged_rlp =
     \<lparr>enc_u64 = tagged 8, enc_u256 = tagged 32, enc_bool = (\<lambda>x. [if x then 1 else 0]),
      dec_u64 = untagged 8, dec_u256 = untagged 32, dec_bool = (\<lambda>bs. Ok (hd bs = 1, tl bs))\<rparr>"

lemma untagged_tagged:
  "256 ^ n = (2::nat) ^ LENGTH('w) \<Longrightarrow> untagged n (tagged n x @ rest) = Ok (x :: 'w::len word, rest)"
proof -
  assume n: "256 ^ n = (2::nat) ^ LENGTH('w)"
  define m where "m = unat x"
  have x: "of_nat m = x" "of_nat (le_val (le_bytes n m)) = x"
    using of_le_val_le_bytes [OF n, of x] by (simp_all add: m_def)
  have "unat (of_nat m :: u8) = m" if "m < 256" using that by (simp add: unat_of_nat)
  moreover from this have "ucast (of_nat m :: u8) = x" if "m < 256"
    using that x(1) by (metis of_nat_unat)
  ultimately show ?thesis
    unfolding untagged_def tagged_def m_def [symmetric] using x by auto
qed

lemma tagged_rlp_laws: "rlp_laws tagged_rlp" "rlp_short tagged_rlp"
proof -
  show "rlp_laws tagged_rlp"
    unfolding rlp_laws_def tagged_rlp_def by (simp add: untagged_tagged)
  show "rlp_short tagged_rlp"
    by (simp add: rlp_short_def tagged_rlp_def tagged_def)
qed

section \<open>Properties\<close>

theorem helper_tests_pass: "test_validate_nodeid = Ok () \<and> test_remove_0x_prefix = Ok ()"
  by code_simp

theorem test_v_passes: "test_v b = Ok ()"
  by (cases b) (simp_all add: test_v_def assert_value_def one_signature_def v_value_def add_op_def mul_op_def bool_u64_def)

theorem payload_tests_pass:
  assumes "rlp_short E"
  shows "test_payload_len_with_eip155_chain_id b E = Ok () \<and> test_payload_len E = Ok ()"
proof -
  have v: "v_value b (one_signature False) None = Ok 27" "v_value b (one_signature False) (Some 1) = Ok 37"
      "v_value b (one_signature False) (Some 47) = Ok 129"
    by (cases b; simp add: one_signature_def v_value_def add_op_def mul_op_def bool_u64_def)+
  show ?thesis
    using assms
    by (simp add: test_payload_len_with_eip155_chain_id_def test_payload_len_def assert_value_def v
        payload_len_with_eip155_chain_id_def payload_len_def rlp_short_def zero_signature_def)
      (simp add: one_signature_def)
qed

theorem coding_tests_pass:
  assumes "rlp_laws E"
  shows "test_encode_and_decode_with_eip155_chain_id b E = Ok () \<and> test_encode_and_decode E = Ok ()"
proof -
  have "encode_and_decode_chain b E chain = Ok ()" if c: "chain = None \<or> chain = Some 1" for chain
  proof -
    obtain v where v: "v_value b (one_signature False) chain = Ok v"
      using c by (cases b) (auto simp: one_signature_def v_value_def add_op_def mul_op_def bool_u64_def)
    have "extract_chain_id v = Ok (False, chain)"
      using extract_v_value [OF v] c by (auto simp: chain_fits_def one_signature_def)
    moreover have "dec_u256 E (enc_u256 E x) = Ok (x, [])" for x
      using assms unfolding rlp_laws_def by (metis append_Nil2)
    ultimately show ?thesis
      using assms
      by (simp add: encode_and_decode_chain_def encode_with_eip155_chain_id_def v assert_value_def
          payload_len_with_eip155_chain_id_def decode_with_eip155_chain_id_def rlp_laws_def)
        (simp add: one_signature_def)
  qed
  moreover have "test_encode_and_decode E = Ok ()"
    using signature_decode_encode [OF assms, of zero_signature "[]"] by (simp add: test_encode_and_decode_def Let_def)
  ultimately show ?thesis by (simp add: test_encode_and_decode_with_eip155_chain_id_def)
qed

text \<open>The two numbers of the signature, byte by byte.\<close>

lemma test_numbers:
  "be_bytes 18515461264373351373200002665853028612451056578545711640558177340181847433846 =
     [0x28, 0xef, 0x61, 0x34, 0x0b, 0xd9, 0x39, 0xbc, 0x21, 0x95, 0xfe, 0x53, 0x75, 0x67, 0x86, 0x60,
      0x03, 0xe1, 0xa1, 0x5d, 0x3c, 0x71, 0xff, 0x63, 0xe1, 0x59, 0x06, 0x20, 0xaa, 0x63, 0x62, 0x76]"
  "be_bytes 46948507304638947509940763649030358759909902576025900602547168820602576006531 =
     [0x67, 0xcb, 0xe9, 0xd8, 0x99, 0x7f, 0x76, 0x1a, 0xec, 0xb7, 0x03, 0x30, 0x4b, 0x38, 0x00, 0xcc,
      0xf5, 0x55, 0xc9, 0xf3, 0xdc, 0x64, 0x21, 0x4b, 0x29, 0x7f, 0xb1, 0x96, 0x6a, 0x3b, 0x6d, 0x83]"
proof -
  have "from_be_slice
     [0x28, 0xef, 0x61, 0x34, 0x0b, 0xd9, 0x39, 0xbc, 0x21, 0x95, 0xfe, 0x53, 0x75, 0x67, 0x86, 0x60,
      0x03, 0xe1, 0xa1, 0x5d, 0x3c, 0x71, 0xff, 0x63, 0xe1, 0x59, 0x06, 0x20, 0xaa, 0x63, 0x62, 0x76] =
     18515461264373351373200002665853028612451056578545711640558177340181847433846"
    by (simp add: from_be_slice_def)
  from arg_cong [OF this, of be_bytes] show "be_bytes 18515461264373351373200002665853028612451056578545711640558177340181847433846 =
     [0x28, 0xef, 0x61, 0x34, 0x0b, 0xd9, 0x39, 0xbc, 0x21, 0x95, 0xfe, 0x53, 0x75, 0x67, 0x86, 0x60,
      0x03, 0xe1, 0xa1, 0x5d, 0x3c, 0x71, 0xff, 0x63, 0xe1, 0x59, 0x06, 0x20, 0xaa, 0x63, 0x62, 0x76]"
    by (subst (asm) be_from_bytes) simp_all
  have "from_be_slice
     [0x67, 0xcb, 0xe9, 0xd8, 0x99, 0x7f, 0x76, 0x1a, 0xec, 0xb7, 0x03, 0x30, 0x4b, 0x38, 0x00, 0xcc,
      0xf5, 0x55, 0xc9, 0xf3, 0xdc, 0x64, 0x21, 0x4b, 0x29, 0x7f, 0xb1, 0x96, 0x6a, 0x3b, 0x6d, 0x83] =
     46948507304638947509940763649030358759909902576025900602547168820602576006531"
    by (simp add: from_be_slice_def)
  from arg_cong [OF this, of be_bytes] show "be_bytes 46948507304638947509940763649030358759909902576025900602547168820602576006531 =
     [0x67, 0xcb, 0xe9, 0xd8, 0x99, 0x7f, 0x76, 0x1a, 0xec, 0xb7, 0x03, 0x30, 0x4b, 0x38, 0x00, 0xcc,
      0xf5, 0x55, 0xc9, 0xf3, 0xdc, 0x64, 0x21, 0x4b, 0x29, 0x7f, 0xb1, 0x96, 0x6a, 0x3b, 0x6d, 0x83]"
    by (subst (asm) be_from_bytes) simp_all
qed

theorem to_hex_bytes_test_passes:
  assumes "\<And>bs. bytes_from_hex (''0x'' @ hex_lower bs) = Some bs"
  shows "test_to_hex_bytes bytes_from_hex = Ok ()"
proof -
  let ?sig = "\<lparr>es_r = 18515461264373351373200002665853028612451056578545711640558177340181847433846,
    es_s = 46948507304638947509940763649030358759909902576025900602547168820602576006531, odd_y_parity = False\<rparr>"
  have "hex_lower (to_hex_bytes ?sig) =
      ''28ef61340bd939bc2195fe537567866003e1a15d3c71ff63e1590620aa636276'' @
      ''67cbe9d8997f761aecb703304b3800ccf555c9f3dc64214b297fb1966a3b6d83'' @ ''1b''"
    by (simp add: to_hex_bytes_def signature_to_bytes_def test_numbers hex_lower_def hex_byte_def hex_digit_def) (intro conjI; code_simp)
  then show ?thesis
    using assms [of "to_hex_bytes ?sig"] by (simp only: test_to_hex_bytes_def Let_def) simp
qed

theorem recover_address_test_passes:
  assumes "ecdsa_signs K (digest ''Hello, Ethereum!'') sk" "secret_from_slice K (to_secret_bytes sk) = Ok sk"
    and hex: "\<And>bs. hex_decode (''0x'' @ hex_lower bs) = Some bs"
  shows "\<exists>a. recover_address_test b K to_secret_bytes serialize_compressed hex_decode digest sk =
    Ok (''0x'' @ hex_lower a, Some a)"
proof -
  obtain sig where sig: "eth_sign_message K (to_secret_bytes sk) (digest ''Hello, Ethereum!'') = Ok sig"
      "recover_signer K sig (digest ''Hello, Ethereum!'') = Some (public_key_to_address K (public_of_secret K sk))"
    using sign_recovers [OF assms(1,2)] by blast
  have h: "hex_decode (''0x'' @ hex_lower (to_hex_bytes sig)) = Some (signature_to_bytes sig)"
    by (simp only: hex to_hex_bytes_def)
  show ?thesis
    unfolding recover_address_test_def generate_eth_account_def Let_def fst_conv snd_conv sig(1) unwrap.simps
      and_then.simps h from_hex_to_bytes [where hex_decode = hex_decode, OF h] unwrap_option_Some sig(2)
    by blast
qed

theorem recover_alloy_address_passes:
  assumes "\<And>sg. alloy_signature_from_str L (hex_lower (as_bytes sg)) = Ok sg"
    and "\<And>signer msg sg. sign_message_sync L signer msg = Ok sg \<Longrightarrow>
      recover_address_from_msg L sg msg = Ok (signer_address L signer)"
    and "alloy_from_bytes L (to_secret_bytes sk) = Ok signer"
    and "signer_address L (with_chain_id L signer (Some 1)) = public_key_to_address K (public_of_secret K sk)"
    and "\<exists>sg. sign_message_sync L (with_chain_id L signer (Some 1)) (string_bytes ''Hello, Ethereum!'') = Ok sg"
  shows "recover_alloy_address K to_secret_bytes serialize_compressed L as_bytes sk = Ok ()"
proof -
  obtain sg where sg: "sign_message_sync L (with_chain_id L signer (Some 1)) (string_bytes ''Hello, Ethereum!'') = Ok sg"
    using assms(5) by blast
  show ?thesis
    using assms(1)
    by (simp add: recover_alloy_address_def generate_eth_account_def sign_message_with_chainid_def assms(3,4) sg
        recover_signer_alloy_def assms(2) [OF sg])
qed

end
