(* ===== verification/Program_Tests.thy ===== *)
theory Program_Tests
  imports Test_Support Msg_Signer Process_Runtime Compute_Vrf
begin

text \<open>
  The test of \<open>crates/signer/src/lib.rs\<close>, those of \<open>crates/tools/src/tokio_static.rs\<close>, and the
  two demo programs, \<open>operator/runer/src/bin/msg.rs\<close> and
  \<open>crates/alloy-wrapper/src/bin/interact_with_abi.rs\<close>. What they print is their result. Shown: the two
  messages of the signer's test differ in the order of keys only and are signed as different texts; the
  tests of the runtime pass whenever the runtime can be built.
\<close>

section \<open>JSON values\<close>

text \<open>\<open>serde_json::Value\<close> with the feature \<open>preserve_order\<close>, which the crate asks for: the fields of an
  object are a list. A number is given by its text.\<close>

datatype json =
    Null | Bool bool | Number string | String string | Array "json list" | Object "(string \<times> json) list"

section \<open>The test of the signer\<close>

definition test3_message :: "(string \<times> json) list \<Rightarrow> json wire_message" where
  "test3_message job =
     \<lparr>wm_id = ''555ebf10-f165-41f6-ae05-918a9232d862'',
      wm_method = Some ''dispatch_job'',
      wm_params = Some (Array [Object
        [(''user'', String ''b77f1799de0148c07bc6ef630fb75ac267f31d147cd28797ad145afe72302632''),
         (''seed'', String []), (''tag'', String []), (''position'', String []), (''signature'', String []),
         (''clock'', Object [(''1'', String ''1'')]),
         (''job_id'', String ''4a16467fc69713bd4ed0b45a4ddab8ed2b69ae14e48236973a75e941f20971fd''),
         (''job'', Object job)]]),
      wm_result = None,
      wm_address = ''0x1DdBd306eFFbb5FF29E41398A6a1198Ee6Fb51ce'',
      wm_hash = [],
      wm_signature =
        ''b5bb37c94af82989f6406de94c921224b00e6cd1ca8079b496507c23f306c56878d5894c8e5ff2fb'' @
        ''9296bad91a908a0e6d0ddd516f7286557eaecf36cfcf49401c''\<rparr>"

definition test3_params :: json where
  "test3_params =
     Object [(''temperature'', Number ''1.0''), (''top_p'', Number ''0.5''), (''max_tokens'', Number ''1024'')]"

text \<open>The job as the test builds it, and as the text of the test has it.\<close>

definition built_job :: "(string \<times> json) list" where
  "built_job = [(''prompt'', String ''What is AI?''), (''model'', String ''ss''), (''tag'', String ''tee''),
     (''params'', test3_params)]"

definition text_job :: "(string \<times> json) list" where
  "text_job = [(''tag'', String ''tee''), (''prompt'', String ''What is AI?''), (''model'', String ''ss''),
     (''params'', test3_params)]"

text \<open>\<open>parsed\<close> is what \<open>serde_json::from_str\<close> makes of the text.\<close>

definition test3 ::
  "(json wire_message, 'k, 's) signer_lib \<Rightarrow> (json wire_message, string) outcome \<Rightarrow> (bool \<times> bool, string) outcome"
  where
  "test3 L parsed =
     (let rep = test3_message built_job in
      and_then (verify_message L rep) (\<lambda>is_verify.
      and_then (unwrap ''called Result::unwrap on an Err value'' parsed) (\<lambda>receive_msg.
      and_then (verify_message L receive_msg) (\<lambda>de_is_verify. Ok (is_verify, de_is_verify)))))"

section \<open>The tests of the runtime\<close>

definition assert_returns ::
  "'a \<Rightarrow> (nat \<times> 'a, string) outcome option \<Rightarrow> (unit, string) outcome option" where
  "assert_returns expected r = map_option (\<lambda>res. and_then res (\<lambda>(t, v). assert_that (expected = v))) r"

text \<open>A block that does not await is done at once.\<close>

definition block_forever_on_works :: "('b, 'r) runtime_lib \<Rightarrow> (unit, string) outcome option" where
  "block_forever_on_works B =
     bind_running (block_forever_on B (Some (0, ()))) (\<lambda>_.
     bind_running (assert_returns (1 :: nat) (block_forever_on B (Some (0, 1)))) (\<lambda>_.
     let r = ''1'' in
     bind_running (assert_returns ''1'' (block_forever_on B (Some (0, r)))) (\<lambda>_.
     let r = ''2'' in
       assert_returns ''2'' (block_forever_on B (Some (0, r))))))"

text \<open>\<open>spawn\<close> makes of a future one of the handle of its task.\<close>

definition block_on_allows_spawning ::
  "('b, 'r) runtime_lib \<Rightarrow> (string fut \<Rightarrow> (string, string) outcome fut) \<Rightarrow> (unit, string) outcome option" where
  "block_on_allows_spawning B spawn =
     (let r = ''works'' in
      bind_running (block_forever_on B (spawn (Some (0, r)))) (\<lambda>(t, joined).
        Some (and_then (unwrap ''called Result::unwrap on an Err value'' joined) (\<lambda>test.
          assert_that (''works'' = test)))))"

definition block_on_works :: "('b, 'r) runtime_lib \<Rightarrow> (unit, string) outcome option" where
  "block_on_works B = assert_returns (Ok (1 :: nat)) (block_on B (Some (0, 1)) 0)"

section \<open>The demo of the messages\<close>

record demo_connect_request =
  dcr_operator :: string
  dcr_hash :: string
  dcr_signature :: string

record demo_connect_response =
  dcs_code :: u16
  dcs_message :: string

text \<open>\<open>serde_json::to_vec\<close> and \<open>from_slice\<close> at the two types.\<close>

definition test_msg ::
  "(demo_connect_request \<Rightarrow> (bytes, string) outcome) \<Rightarrow> (bytes \<Rightarrow> (demo_connect_request, string) outcome) \<Rightarrow>
   (demo_connect_response \<Rightarrow> (bytes, string) outcome) \<Rightarrow> (bytes \<Rightarrow> (demo_connect_response, string) outcome) \<Rightarrow>
   (demo_connect_request \<times> demo_connect_response, string) outcome" where
  "test_msg request_to_vec request_from_slice response_to_vec response_from_slice =
     (let request = \<lparr>dcr_operator = ''operator_address'', dcr_hash = ''some_hash'', dcr_signature = ''signature_data''\<rparr>;
          response = \<lparr>dcs_code = 200, dcs_message = ''success''\<rparr>
      in and_then (request_to_vec request) (\<lambda>serialized_request.
         and_then (response_to_vec response) (\<lambda>serialized_response.
         and_then (request_from_slice serialized_request) (\<lambda>deserialized_request.
         and_then (response_from_slice serialized_response) (\<lambda>deserialized_response.
           Ok (deserialized_request, deserialized_response))))))"

text \<open>\<open>main\<close> drops the result: an error ends the demo in silence.\<close>

definition msg_main :: "('a, string) outcome \<Rightarrow> (unit, string) outcome" where
  "msg_main result = (case result of Panic m \<Rightarrow> Panic m | _ \<Rightarrow> Ok ())"

section \<open>The demo of the range contract\<close>

definition query_address :: bytes where
  "query_address = [0xcb, 0xee, 0x70, 0xd4, 0x49, 0xac, 0x34, 0x21, 0x13, 0x8f, 0xb2, 0x1c, 0xcc, 0xd1, 0x56,
     0x45, 0x69, 0x58, 0xba, 0xa4]"

definition interact_main ::
  "(string \<Rightarrow> ('u, string) outcome) \<Rightarrow> (string \<Rightarrow> (bytes, string) outcome) \<Rightarrow> ('u \<Rightarrow> bytes \<Rightarrow> range_contract) \<Rightarrow>
   (u256 \<times> bytes list \<times> (u256 \<times> u256), string) outcome" where
  "interact_main parse_url parse_address contract_at =
     and_then (parse_url ''https://ethereum-holesky-rpc.publicnode.com'') (\<lambda>endpoint.
     and_then (parse_address ''0x0a24a30E5a8Ca9B790c7f57F0826159569e8dc4B'') (\<lambda>a.
     let contract = contract_at endpoint a in
     and_then (call_num_operators contract) (\<lambda>number.
     and_then (call_operators_in_range contract 1) (\<lambda>operators.
     and_then (call_operator_ranges contract query_address) (\<lambda>range.
       Ok (number, operators, range))))))"

section \<open>Properties\<close>

text \<open>The two messages of the test have the same fields in a different order. A writer that keeps the order
  and can be read back gives them different bytes, so the one signature of the test is checked against two
  texts, and each check is about its own.\<close>

theorem test3_checks_two_texts:
  assumes injective: "\<And>m m' v. json_to_vec L m = Ok v \<Longrightarrow> json_to_vec L m' = Ok v \<Longrightarrow> m = m'"
    and built: "json_to_vec L ((test3_message built_job)\<lparr>wm_signature := []\<rparr>) = Ok v"
      "recover_address_from_msg L sig v = Some a"
    and text_read: "json_to_vec L ((test3_message text_job)\<lparr>wm_signature := []\<rparr>) = Ok v'"
      "recover_address_from_msg L sig v' = Some a'"
    and sig: "signature_from_str L (wm_signature (test3_message built_job)) = Some sig"
  shows "set built_job = set text_job \<and> v \<noteq> v' \<and>
    test3 L (Ok (test3_message text_job)) =
      Ok (to_lowercase a = to_lowercase (wm_address (test3_message built_job)),
          to_lowercase a' = to_lowercase (wm_address (test3_message built_job)))"
proof -
  have same: "wm_signature (test3_message text_job) = wm_signature (test3_message built_job)"
      "wm_address (test3_message text_job) = wm_address (test3_message built_job)"
    by (simp_all add: test3_message_def)
  have "built_job \<noteq> text_job" by (simp add: built_job_def text_job_def)
  then have "(test3_message built_job)\<lparr>wm_signature := []\<rparr> \<noteq> (test3_message text_job)\<lparr>wm_signature := []\<rparr>"
    by (simp add: test3_message_def)
  then have "v \<noteq> v'" using injective [OF built(1)] text_read(1) by blast
  moreover have "verify_message L (test3_message built_job) =
      Ok (to_lowercase a = to_lowercase (wm_address (test3_message built_job)))"
    using built by (simp only: verify_message_def sig unwrap_option_Some and_then.simps Let_def unwrap.simps)
  moreover have "verify_message L (test3_message text_job) =
      Ok (to_lowercase a' = to_lowercase (wm_address (test3_message built_job)))"
    using text_read by (simp only: verify_message_def same sig unwrap_option_Some and_then.simps Let_def unwrap.simps)
  moreover have "set built_job = set text_job" by (auto simp: built_job_def text_job_def)
  ultimately show ?thesis by (simp only: test3_def Let_def and_then.simps unwrap.simps simp_thms)
qed

theorem runtime_tests_pass:
  assumes "TOKIO B = Ok r" "spawn (Some (0, ''works'')) = Some (t, Ok ''works'')"
  shows "block_forever_on_works B = Some (Ok ())" "block_on_allows_spawning B spawn = Some (Ok ())"
    "block_on_works B = Some (Ok ())"
  using assms
  by (simp_all add: block_forever_on_works_def block_on_allows_spawning_def block_on_works_def assert_returns_def
      block_forever_on_def block_on_def block_on_given_def with_timeout_def bind_running_def)

text \<open>The messages of the demo come back as they were written.\<close>

theorem msg_demo_roundtrip:
  assumes "\<And>x. \<exists>v. request_to_vec x = Ok v \<and> request_from_slice v = Ok x"
    and "\<And>x. \<exists>v. response_to_vec x = Ok v \<and> response_from_slice v = Ok x"
  shows "\<exists>p. test_msg request_to_vec request_from_slice response_to_vec response_from_slice = Ok p \<and>
    dcr_operator (fst p) = ''operator_address'' \<and> dcs_code (snd p) = 200"
proof -
  let ?p = "\<lparr>dcr_operator = ''operator_address'', dcr_hash = ''some_hash'', dcr_signature = ''signature_data''\<rparr>"
  let ?q = "\<lparr>dcs_code = 200, dcs_message = ''success''\<rparr> :: demo_connect_response"
  obtain v w where "request_to_vec ?p = Ok v" "request_from_slice v = Ok ?p"
      "response_to_vec ?q = Ok w" "response_from_slice w = Ok ?q"
    using assms(1) [of ?p] assms(2) [of ?q] by blast
  then show ?thesis by (simp add: test_msg_def)
qed

text \<open>The second demo asks the contract what the functions of the library ask it.\<close>

theorem interact_asks_as_library:
  "interact_main parse_url parse_address contract_at =
     and_then (new_vrf_range_backend parse_url parse_address ''https://ethereum-holesky-rpc.publicnode.com''
         ''0x0a24a30E5a8Ca9B790c7f57F0826159569e8dc4B'') (\<lambda>(endpoint, a).
     and_then (get_num_operators (contract_at endpoint a)) (\<lambda>number.
     and_then (get_operator_range_by_seed (contract_at endpoint a) 1) (\<lambda>operators.
     and_then (call_operator_ranges (contract_at endpoint a) query_address) (\<lambda>range.
       Ok (number, operators, range)))))"
  by (simp add: interact_main_def new_vrf_range_backend_def get_num_operators_def get_operator_range_by_seed_def
      and_then_assoc Let_def)

end
