(* ===== verification/Dispatcher_Mock.thy ===== *)
theory Dispatcher_Mock
  imports Test_Support Ws_Endpoints Job_Handler
begin

text \<open>
  The dispatcher that \<open>operator/runer/src/api/test.rs\<close> puts at the other end of the connection: it
  answers \<open>connect\<close> and \<open>job_result\<close>, panics on every other method, and asks for ten jobs. Shown: its
  answers are what the operator's calls need to succeed, and a connection over which only these two
  methods come is served to its end without a panic.
\<close>

section \<open>Answers\<close>

text \<open>\<open>to_value\<close> and \<open>from_value\<close> of \<open>serde_json\<close> are parameters.\<close>

definition mock_handle_jobs ::
  "(ws_response \<Rightarrow> ('v, string) outcome) \<Rightarrow> 'v \<Rightarrow> ('v, string) outcome" where
  "mock_handle_jobs to_value msg =
     unwrap ''called Result::unwrap on an Err value'' (to_value \<lparr>wr_code = 200, wr_message = ''success2''\<rparr>)"

definition mock_reply ::
  "(ws_response \<Rightarrow> ('v, string) outcome) \<Rightarrow> string \<Rightarrow> 'v \<Rightarrow> ('v, string) outcome" where
  "mock_reply to_value meth p =
     unwrap ''called Result::unwrap on an Err value''
       (if meth = ''connect'' then mock_handle_jobs to_value p
        else if meth = ''job_result'' then mock_handle_jobs to_value p
        else Panic ''todo'')"

text \<open>
  The loop of \<open>handle_connection\<close> over what the stream yields. \<open>sends i\<close> is the sink's result for the
  \<open>i\<close>-th answer. The loop is still running (\<open>None\<close>) when the stream has nothing more; it returns when
  receiving or answering fails.
\<close>

lemma recv_inner_shorter:
  "recv_inner L J pong st items = (st', Some r, rest) \<Longrightarrow> length rest < length items"
proof (induction items arbitrary: st)
  case (Cons it items)
  then show ?case
    by (cases "receive_item L J pong st it")
      (auto split: outcome.splits option.splits dest!: Cons.IH)
qed simp

function mock_connection ::
  "('v wire_message, 'k, 's) signer_lib \<Rightarrow> 'v ws_json \<Rightarrow> (ws_response \<Rightarrow> ('v, string) outcome) \<Rightarrow>
   (unit, ws_error) outcome \<Rightarrow> (nat \<Rightarrow> (unit, ws_error) outcome) \<Rightarrow> nat \<Rightarrow> ('v, 'k) ws_state \<Rightarrow>
   stream_item list \<Rightarrow> ('v, 'k) ws_state \<times> (unit, string) outcome option" where
  "mock_connection L J to_value pong sends i st items =
     (case recv_inner L J pong st items of
        (st1, None, rest) \<Rightarrow> (st1, None)
      | (st1, Some (Err e), rest) \<Rightarrow> (st1, Some (Ok ()))
      | (st1, Some (Panic m), rest) \<Rightarrow> (st1, Some (Panic m))
      | (st1, Some (Ok (Signal s)), rest) \<Rightarrow> mock_connection L J to_value pong sends i st1 rest
      | (st1, Some (Ok (Request rid meth p)), rest) \<Rightarrow>
          (case mock_reply to_value meth p of
             Err e \<Rightarrow> (st1, Some (Panic e))
           | Panic m \<Rightarrow> (st1, Some (Panic m))
           | Ok rep \<Rightarrow>
               (case respond L J st1 rid rep (sends i) of
                  (st2, Ok u) \<Rightarrow> mock_connection L J to_value pong sends (i + 1) st2 rest
                | (st2, Err e) \<Rightarrow> (st2, Some (Ok ()))
                | (st2, Panic m) \<Rightarrow> (st2, Some (Panic m)))))"
  by pat_completeness auto
termination
  by (relation "measure (\<lambda>(L, J, to_value, pong, sends, i, st, items). length items)")
    (auto dest!: recv_inner_shorter [OF sym])

declare mock_connection.simps [simp del]

section \<open>Set-up\<close>

text \<open>The listener, the key and the connection; \<open>key_from_slice\<close> and \<open>from_hex\<close> are the packages'. A key
  that cannot be read is taken as zeros (\<open>unwrap_or_default\<close>).\<close>

definition mock_accept ::
  "('l, 't, 'w) tcp_lib \<Rightarrow> u64 \<Rightarrow> (bytes \<Rightarrow> ('k, string) outcome) \<Rightarrow> (string \<Rightarrow> bytes option) \<Rightarrow>
   (('v, 'k, 'w) ws_pair, string) outcome" where
  "mock_accept T counter key_from_slice from_hex =
     and_then (unwrap ''called Result::unwrap on an Err value'' (bind_listener T DEFAULT_CONFIG ''127.0.0.1:8081''))
       (\<lambda>s.
     and_then (unwrap ''called Result::unwrap on an Err value'' (local_addr T s)) (\<lambda>addr.
     let key_bytes = (case from_hex ''77f4b2fbf3f32687f03d84d323bd5cb443f53b0fc338b51c24e319a520c87217'' of
                        Some bs \<Rightarrow> bs | None \<Rightarrow> replicate 32 0) in
     and_then (unwrap ''signer err'' (key_from_slice key_bytes)) (\<lambda>secret_key.
       unwrap ''called Result::unwrap on an Err value'' (accept T counter s secret_key))))"

section \<open>The ten jobs\<close>

definition mock_job :: "nat \<Rightarrow> dispatch_job_param" where
  "mock_job i =
     \<lparr>dj_user = ''AI'', dj_seed = ''abc'', dj_tag = ''malicious'', dj_position = ''before'',
      dj_signature = ''signature'', dj_clock = [(''1'', ''2'')], dj_job_id = ''100'',
      dj_job = \<lparr>job_model = ''2'', job_prompt = ''what'' @ [char_of (39 :: nat)] @ ''s AI?'' @ nat_to_string i,
        job_tag = ''opml'',
        job_parameters = \<lparr>jp_temperature = Fin 1 0, jp_top_p = Fin 5 0, jp_max_tokens = 100\<rparr>\<rparr>\<rparr>"

text \<open>\<open>call i\<close> is the operator's answer to the \<open>i\<close>-th request, sent with a limit of five seconds.\<close>

definition mock_test ::
  "(dispatch_job_param list \<Rightarrow> ('v, string) outcome) \<Rightarrow> (nat \<Rightarrow> string \<Rightarrow> 'v \<Rightarrow> nat \<Rightarrow> ('v, ws_error) outcome) \<Rightarrow>
   ('v list, string) outcome" where
  "mock_test params_to_value call =
     traverse (\<lambda>i.
       and_then (unwrap ''called Result::unwrap on an Err value'' (params_to_value [mock_job i])) (\<lambda>v.
         unwrap ''called Result::unwrap on an Err value'' (call i ''dispatch_job'' v 5)))
       [1..<11]"

section \<open>Properties\<close>

text \<open>The operator takes the answers of the mock as success, for both calls it makes.\<close>

theorem mock_satisfies_operator:
  assumes "\<And>r. \<exists>v. to_value r = Ok v \<and> from_value v = Ok r"
    and "\<And>meth v secs. meth = ''connect'' \<or> meth = ''job_result'' \<Longrightarrow>
      map_err (\<lambda>_. ''WsError'') (call meth v secs) = mock_reply to_value meth v"
  shows "connect_dispatcher call from_value params node = Ok () \<and>
    job_result call from_value v = Ok ()"
proof -
  obtain rep where rep: "to_value \<lparr>wr_code = 200, wr_message = ''success2''\<rparr> = Ok rep"
      "from_value rep = Ok \<lparr>wr_code = 200, wr_message = ''success2''\<rparr>"
    using assms(1) by blast
  have "map_err (\<lambda>_. ''WsError'') (call meth v secs) = Ok rep" if "meth = ''connect'' \<or> meth = ''job_result''"
    for meth v secs
    using assms(2) [OF that, of v secs] that by (auto simp: mock_reply_def mock_handle_jobs_def rep)
  then have "call meth v secs = Ok rep" if "meth = ''connect'' \<or> meth = ''job_result''" for meth v secs
    using that by (simp add: outcome_simps)
  then show ?thesis
    by (simp add: connect_dispatcher_def job_result_def dispatcher_call_def rep(2))
qed

text \<open>Requests that come one after the other are answered one after the other, and the loop ends with the
  stream. A frame that carries a request with another method ends the task with a panic.\<close>

definition carries ::
  "('v wire_message, 'k, 's) signer_lib \<Rightarrow> 'v ws_json \<Rightarrow> stream_item \<Rightarrow> string \<Rightarrow> string \<Rightarrow> 'v \<Rightarrow> bool" where
  "carries L J it rid meth p \<longleftrightarrow>
     (\<forall>pong st. ws_open st \<longrightarrow> receive_item L J pong st it = (st, Ok (Some (Request rid meth p))))"

lemma carriesI:
  "try_from_bytes J (string_bytes s) = Ok recvd \<Longrightarrow> wm_method recvd = Some meth \<Longrightarrow>
   receive_request L recvd meth = Ok (Some (Request rid meth p)) \<Longrightarrow> carries L J (Item (TextFrame s)) rid meth p"
  by (simp add: carries_def receive_item_def exec_def receive_frame_def receive_text_def)

lemma mock_round:
  assumes "ws_open st" "carries L J it rid meth p"
  shows "recv_inner L J pong st (it # items) = (st, Some (Ok (Request rid meth p)), items)"
  using assms by (simp add: carries_def)

theorem mock_serves_connection:
  assumes "to_value \<lparr>wr_code = 200, wr_message = ''success2''\<rparr> = Ok rep"
    and "list_all2 (\<lambda>it (rid, p). \<exists>meth. (meth = ''connect'' \<or> meth = ''job_result'') \<and> carries L J it rid meth p)
      items reqs"
    and "\<And>rid. \<exists>msg. wire_response L J rid rep (ws_signer st) = Ok msg" "\<And>i. sends i = Ok ()" "ws_open st"
  shows "\<exists>st' msgs. mock_connection L J to_value pong sends i st (items @ [EndOfStream]) = (st', Some (Ok ())) \<and>
    map Ok msgs = map (\<lambda>(rid, p). wire_response L J rid rep (ws_signer st)) reqs \<and>
    ws_sent st' = ws_sent st @ msgs"
  using assms(2,3,5)
proof (induction items reqs arbitrary: i st rule: list_all2_induct)
  case Nil
  have "receive_item L J pong st EndOfStream = (ws_close st, Err ReceiverClosed)"
    using Nil.prems(2) by (simp add: receive_item_def exec_def receive_frame_def)
  then show ?case
    by (subst mock_connection.simps) (simp add: ws_close_def)
next
  case (Cons it items req reqs)
  obtain rid p where req: "req = (rid, p)" by fastforce
  obtain meth where meth: "meth = ''connect'' \<or> meth = ''job_result''" "carries L J it rid meth p"
    using Cons.hyps(1) req by auto
  obtain msg where msg: "wire_response L J rid rep (ws_signer st) = Ok msg" using Cons.prems(1) by blast
  define st2 where "st2 = st\<lparr>ws_sent := ws_sent st @ [msg]\<rparr>"
  have "respond L J st rid rep (sends i) = (st2, Ok ())"
    using Cons.prems(2) by (simp add: respond_def exec_def signer_def msg assms(4) st2_def)
  moreover have "mock_reply to_value meth p = Ok rep"
    using meth(1) assms(1) by (auto simp: mock_reply_def mock_handle_jobs_def)
  ultimately have step: "mock_connection L J to_value pong sends i st (it # items @ [EndOfStream]) =
      mock_connection L J to_value pong sends (i + 1) st2 (items @ [EndOfStream])"
    by (subst mock_connection.simps) (simp add: mock_round [OF Cons.prems(2) meth(2)] del: recv_inner.simps)
  have "ws_signer st2 = ws_signer st" "ws_open st2" using Cons.prems(2) by (simp_all add: st2_def)
  then obtain st' msgs where
      "mock_connection L J to_value pong sends (i + 1) st2 (items @ [EndOfStream]) = (st', Some (Ok ()))"
      "map Ok msgs = map (\<lambda>(rid, p). wire_response L J rid rep (ws_signer st)) reqs"
      "ws_sent st' = ws_sent st2 @ msgs"
    using Cons.IH [of st2 "i + 1"] Cons.prems(1) by auto
  then show ?case
    using step msg req by (intro exI [of _ st'] exI [of _ "msg # msgs"]) (simp add: st2_def)
qed

theorem mock_panics_on_others:
  assumes "ws_open st" "carries L J it rid meth p" "meth \<noteq> ''connect''" "meth \<noteq> ''job_result''"
  shows "mock_connection L J to_value pong sends i st (it # items) = (st, Some (Panic ''todo''))"
  using assms by (subst mock_connection.simps) (simp add: mock_round [OF assms(1,2)] mock_reply_def del: recv_inner.simps)

text \<open>The test gets through when the operator answers every request; the ten jobs differ in their prompts
  and share one id.\<close>

theorem mock_test_passes:
  assumes "\<And>ps. \<exists>v. params_to_value ps = Ok v" "\<And>i v. \<exists>r. call i ''dispatch_job'' v 5 = Ok r"
  shows "\<exists>rs. mock_test params_to_value call = Ok rs \<and> length rs = 10"
proof -
  obtain g where g: "\<And>ps. params_to_value ps = Ok (g ps)" using assms(1) by metis
  obtain h where h: "\<And>i v. call i ''dispatch_job'' v 5 = Ok (h i v)" using assms(2) by metis
  have "mock_test params_to_value call = Ok (map (\<lambda>i. h i (g [mock_job i])) [1..<11])"
    unfolding mock_test_def by (rule traverse_Ok) (simp add: g h)
  then show ?thesis by simp
qed

text \<open>A mock that has accepted a connection serves it over a fresh, open core, as \<open>mock_serves_connection\<close> asks.\<close>

lemma mock_accept_fresh:
  "mock_accept T counter key_from_slice from_hex = Ok wp \<Longrightarrow>
   \<exists>key. wp_core wp = ws_split key counter \<and> ws_open (wp_core wp)"
  by (auto simp: mock_accept_def accept_def split_stream_def ws_split_def outcome_simps Let_def)

lemma mock_jobs_share_id: "dj_job_id (mock_job i) = dj_job_id (mock_job j)"
  by (simp add: mock_job_def)

end
