(* ===== verification/Spec2Isabelle.thy ===== *)
theory Spec2Isabelle
  imports Ordinary_Clock Ws_Endpoints Connection Eth_Signature Crypto_Core Recovery End_To_End Session_Network
    Operator_Job Process_Runtime Shared_Tools Vrf_Tests Crypto_Tests Signature_Tests Program_Tests Dispatcher_Mock
begin

text \<open>
  A model of the operator of a decentralised inference network, written in Rust, with the theorems
  that make it correct. An operator keeps a signed websocket to a dispatcher. Requests of the
  dispatcher go into a queue in Redis; a task takes them out one by one, decides by a verifiable
  random function whether this operator is selected for the job, asks a TEE or an OPML worker
  through an HTTP hub, stores the result in PostgreSQL, sends it back, and acknowledges the
  message.

  \<^bold>\<open>How the parts depend on each other.\<close>
  \<^item> the configuration is loaded and checked (\<open>Node_Config\<close>), the operator is built from it, the
    hub and the connection are started (\<open>Connection\<close>);
  \<^item> the connection (\<open>Websocket\<close>, set up in \<open>Ws_Endpoints\<close>) signs and checks messages
    (\<open>Msg_Signer\<close>), its receiving task fills the queue (\<open>Connection\<close>, \<open>Msg_Queue\<close>);
    \<open>Rpc_Link\<close> puts the two ends of one connection together;
  \<^item> the dispatcher task (\<open>Job_Handler\<close>) reads the queue, computes the VRF (\<open>Compute_Vrf\<close> over
    \<open>Vrf_Selection\<close> over \<open>Ecvrf\<close>, with the floating-point arithmetic of \<open>Machine_Float\<close>), asks
    workers through the hub (\<open>Verify_Hub\<close>) and stores results (\<open>Storage\<close>, \<open>Entities\<close>);
    \<open>Operator_Job\<close> joins the job with the VRF and the hub;
  \<^item> \<open>Dispatch_System\<close> runs the receiving task and the dispatchers of all sessions together,
    \<open>Reconnection\<close> says what holds when sessions are lost and opened again, \<open>Persistence\<close> follows
    their effects into the database, \<open>Linked_Session\<close> joins a session with the two ends of its
    websocket, from the request of the dispatcher to the run of its job, and \<open>Session_Network\<close> does
    so over all the sessions the operator ever opens;
  \<^item> \<open>Process_Runtime\<close> has the runtime the process is started in;
  \<^item> beside this path stand the libraries the repository provides: vector clocks
    (\<open>Ordinary_Clock\<close> over \<open>Btree_Map\<close>), replica signatures (\<open>Crypto_Core\<close>), recoverable
    signatures over text (\<open>Recovery\<close>), Ethereum signatures (\<open>Eth_Signature\<close>), the lock \<open>RwShare\<close>
    and the print of \<open>Payload\<close> (\<open>Shared_Tools\<close>).
  \<open>Prelude\<close> has what all share: outcomes with panics as values, machine words with the
  arithmetic of the two build profiles, the functions on strings of the Rust library, little-endian
  bytes. \<open>Errors\<close> has the error types that cross components.

  \<^bold>\<open>Theories and sources\<close> (paths under \<open>src/\<close>).
  \<^item> \<open>Btree_Map\<close>, \<open>Ordinary_Clock\<close>: \<open>crates/common/src/ordinary_clock.rs\<close>. A clock is a
    sorted association list; \<open>merge\<close>, \<open>update\<close>, \<open>partial_cmp\<close>, \<open>dep_cmp\<close>, \<open>reduce\<close> and the digest.
    Shown: \<open>partial_cmp\<close> decides the pointwise order, \<open>merge\<close> is the least upper bound, \<open>update\<close>
    advances, \<open>reduce\<close> is strictly monotone.
  \<^item> \<open>Node_Config\<close>: \<open>crates/tools/src/helper.rs\<close>, \<open>operator/node_api\<close>,
    \<open>operator/runer/src/cli/operator.rs\<close>. Records of the configuration, address and key checks,
    validation, loading, exit codes.
  \<^item> \<open>Ecvrf\<close>: \<open>crates/vrf/src/ecvrf.rs\<close>, \<open>traits.rs\<close>. Keys, proofs, \<open>prove\<close> and \<open>verify\<close>. Shown:
    completeness, the exact behaviour of hashing to the curve, the round trip of proofs, the range
    of the clamped scalar.
  \<^item> \<open>Machine_Float\<close>: the \<open>f64\<close> and \<open>f32\<close> operations of the program with IEEE rounding to
    nearest, and the saturating casts.
  \<^item> \<open>Vrf_Selection\<close>: \<open>crates/vrf/src/sample.rs\<close>, \<open>operator/runer/src/api/vrf_key.rs\<close>. Shown: which
    outputs select an operator, that a reply can be verified by anybody, that thresholds grow
    with the probability.
  \<^item> \<open>Compute_Vrf\<close>: \<open>crates/alloy-wrapper/src/contracts/vrf_range.rs\<close> and \<open>compute_vrf\<close> of
    \<open>operator/runer/src/api/msg_handler.rs\<close>. Shown: the window of an ordered range is ordered, so
    the subtraction of its bounds cannot overflow.
  \<^item> \<open>Msg_Signer\<close>: \<open>crates/signer/src/msg_signer.rs\<close>. Shown: a signature checks exactly against
    the address of the key that made it.
  \<^item> \<open>Registry\<close>, \<open>Websocket\<close>: \<open>crates/websocket/src/lib.rs\<close>. A connection is a record of its core,
    the callbacks and the one-shot channels; requests are split where the code awaits, and a step
    relation interleaves them with receiving and closing. Shown: distinct requests have distinct
    channels in every reachable state, a response reaches the request with its id only, an error
    answers every waiting request.
  \<^item> \<open>Rpc_Link\<close>: the same file, seen from both sides. An endpoint is a core with the tasks around
    it: requests registered and not yet sent, requests the application holds, and the logs of what
    was issued and answered; the steps of both endpoints interleave over two ordered lists of
    frames. Shown: a caller gets the answer the other application gave to this very request, which
    is handled at most once, and a call can always be brought to its end.
  \<^item> \<open>Ws_Endpoints\<close>: the same file: \<open>bind\<close>, \<open>accept\<close>, \<open>connect\<close>, \<open>request_timeout\<close> as one call,
    \<open>recv\<close>, the echo server. Shown: a request that has returned is no longer registered; two ends
    that have met are ready for a call.
  \<^item> \<open>Msg_Queue\<close>: \<open>operator/runer/src/queue/msg_queue.rs\<close>. Shown: on a server with the documented
    behaviour the stream is a first-in first-out queue.
  \<^item> \<open>Verify_Hub\<close>: \<open>operator/verify_hub\<close>. The shared server with its channel maps; a question
    handler is split into send, registration and wait. Shown: in every interleaving an answer
    that a handler returns carries the id of its question, and a callback that comes while its
    question waits is delivered.
  \<^item> \<open>Job_Handler\<close>: \<open>operator/runer/src/api/msg.rs\<close>, \<open>msg_handler.rs\<close>. Worker jobs, \<open>do_job\<close>, the
    loop of the dispatcher. Shown: what a successful job stores and sends, what one round of the loop
    does for every outcome of its job, that waiting for a worker ends.
  \<^item> \<open>Storage\<close>: \<open>operator/runer/src/storage.rs\<close>, \<open>operator/db_sql\<close>. Tables with their columns and
    constraints, migrations, the inserters. Shown: a job has at most one stored result.
  \<^item> \<open>Entities\<close>: \<open>operator/db_sql/src/pg/entities\<close>. The fields of the two models against the columns
    of the migrations. Shown: the job table is well typed and reads back as models.
  \<^item> \<open>Operator_Job\<close>: \<open>do_job\<close> with \<open>compute_vrf\<close> and the hub as its partners. Shown: the VRF output
    and the window decide who works; the output of a worker's job answers the question of this job.
  \<^item> \<open>Connection\<close>: \<open>operator/runer/src/node_factory.rs\<close>, \<open>operator.rs\<close>, and
    \<open>connect_dispatcher\<close>, the receiving task and the reconnection loop of \<open>msg_handler.rs\<close>. Shown:
    the delays between attempts.
  \<^item> \<open>Dispatch_System\<close>: the tasks of \<open>handle_connection\<close> together. Shown: with one session every
    accepted job is run once and in order, every accepted job can be run, the sequential loop is a run
    of the system; after a reconnection two dispatchers share the queue.
  \<^item> \<open>Reconnection\<close>: the same system over any number of sessions. Shown: an accepted job is run or
    still queued, it is run at most once per session, and any dispatcher that waits can run what is
    left.
  \<^item> \<open>Persistence\<close>: the insertions of all sessions in their order. Shown: no reply goes out without a
    row for its job.
  \<^item> \<open>End_To_End\<close>: the results of \<open>Persistence\<close> over the connections of \<open>Rpc_Link\<close>. Shown: a reply
    that counts as sent was handed to the application of the dispatcher and answered there.
  \<^item> \<open>Linked_Session\<close>: the tasks of \<open>Dispatch_System\<close> and the endpoints of \<open>Rpc_Link\<close> as one system.
    The receiving task is split at \<open>recv\<close>, the queue and \<open>respond\<close>; everything else interleaves. Shown:
    every run of the whole is a run of the sessions and one of the connection; a queued message
    stands for one request of the dispatcher, is queued once and run at most once; a request can be
    brought to its run and its reply.
  \<^item> \<open>Session_Network\<close>: any number of sessions, each with its connection, over one queue; those that
    are lost keep their partner and their dispatcher. Shown: every run of the whole is a run of the
    sessions, each connection keeps the invariant of \<open>Linked_Session\<close>, and a queued message stands
    for one request over one of the connections and was run or is still queued. The counter a
    connection starts with is arbitrary, which includes what the earlier ones left.
  \<^item> \<open>Process_Runtime\<close>: \<open>crates/tools/src/tokio_static.rs\<close>, \<open>operator/runer/src/main.rs\<close>, the
    texts of the API errors, the signing key and the date format of the hub.
  \<^item> \<open>Eth_Signature\<close>: \<open>crates/alloy-wrapper/src/signature.rs\<close>, \<open>util.rs\<close>. Shown: signing, printing,
    reading and recovering gives the address of the key; the encoding with a chain id is inverted by
    its decoding.
  \<^item> \<open>Crypto_Core\<close>, \<open>Recovery\<close>: \<open>crates/common/src/crypto\<close>. Shown: replicas verify each other,
    batches are checked up to the shorter list, recovery gives the key that signed.
  \<^item> \<open>Shared_Tools\<close>: \<open>crates/tools/src/rw_share.rs\<close>, \<open>helper.rs\<close>,
    \<open>crates/types/src/raw_wrapper.rs\<close>. Shown: for how long \<open>RwShare\<close> waits, and that prints tell
    payloads apart.
  \<^item> \<open>Test_Support\<close>, \<open>Vrf_Tests\<close>, \<open>Crypto_Tests\<close>, \<open>Signature_Tests\<close>, \<open>Program_Tests\<close>: the unit tests of the
    repository and its two demo programs as definitions over the model. Shown: the tests pass on every
    instance of the packages with the documented laws; the VRF vectors for the stages of a proof
    imply those for the whole; the clocks of the stress tests after any number of rounds.
  \<^item> \<open>Dispatcher_Mock\<close>: \<open>operator/runer/src/api/test.rs\<close>, the dispatcher the operator is tested against.
    Shown: its answers make the operator's calls succeed, it serves them in order and panics on any other
    method.
  This theory adds one sequential pass through the receiving task, the queue and the dispatcher.

  \<^bold>\<open>Interfaces.\<close> The locale \<open>registry\<close> is the table of waiting parties; it is interpreted by the
  callback map of the websocket and by the channel maps of the hub. The locale \<open>message_queue\<close> is the
  trait \<open>MessageQueue\<close>; \<open>redis_stream\<close>, a server with the laws of its documentation, gives it
  as a sublocale, and a server that keeps a list interprets \<open>redis_stream\<close>. \<open>join_preorder\<close> holds
  the laws of merging, interpreted by the clocks.

  \<^bold>\<open>Parameters.\<close> What is not source of this repository is an argument of the definitions that use it:
  the elliptic curves and hash functions, JSON, hexadecimal decoding, the random numbers, the Redis
  and database servers, the HTTP clients, the TCP stream, the contract on the chain, the lock of
  \<open>parking_lot\<close>. What a theorem needs of them is a named predicate (\<open>curve_laws\<close>, \<open>hex_laws\<close>,
  \<open>redis_laws\<close>, \<open>crypto_laws\<close>, \<open>lock_laws\<close> and others), each with a concrete instance on which
  the theorem is applied. A result is an \<open>outcome\<close>: \<open>Ok\<close>, \<open>Err\<close> or \<open>Panic\<close>; a computation that may
  not return is an option of an outcome, \<open>None\<close> when it does not.

  \<^bold>\<open>Bounds.\<close> The wait for a worker asks at most 600 times, the number of the source, and its
  model is total. Hashing to the curve has a counter of 8 bits: 256 candidates decide between a
  result and the overflow, which is a panic or an endless loop. Reconnection is modelled for a
  given list of attempts, of any length; the delay exponent stops at 8 as in the source. The loop of
  the dispatcher is modelled for any number of rounds, and the step relations have no bound.
  \<open>usize\<close> has 64 bits.

  The agreement of the two ends of a connection, and that no request is queued twice, need that the
  process has drawn at most \<open>2 ^ 64\<close> request ids, the range of the counter in the source. A linked
  session is followed until the operator opens the next one.

  \<^bold>\<open>Not modelled.\<close> Pure input and output (logging, HTTP routing and its middleware, reading the
  clock and the load of the machine), code that packages derive from attributes beyond what their
  documentation says (serialisation, the database reader), formatting for debugging except that of
  \<open>Payload\<close>, traits without bodies, response types that no code constructs. Of the tests,
  those of single points of the real curve, those that need a database, and those that do not compile
  or that no module includes.
  Times matter only where they are counted (delays, time-outs, lock attempts); cancellation of a
  future that has been polled is modelled where the source relies on it (time-outs of requests and
  questions).
\<close>

section \<open>From a request to its result\<close>

text \<open>A request is served: when the dispatcher sends \<open>dispatch_job\<close> and the queue, empty before,
  accepts it, the receiving task confirms it, and the next round of the dispatcher task decodes the
  same parameters, runs the job with its effects and leaves the queue empty. Decoding inverts the
  encoding of this one entry; the server answers the read and the acknowledgement.\<close>

theorem request_is_served:
  assumes "redis_laws R id_key entries last_id" "stream_ok id_key entries last_id st QUEUE_TOPIC"
    and "stream_messages entries st QUEUE_TOPIC = []"
    and "to_json (rid, params) = Ok d" "decode_entry d = Ok (rid, params)" "decode_job params = Ok job"
    and "add_queue_req R (Ok ms) to_json st rid params = (st1, Ok ())"
    and "consume R st1 QUEUE_TOPIC = Ok l"
    and "acknowledge R st1 QUEUE_TOPIC (nat_to_string ms @ ''-0'') = (st2, Ok ())"
    and "do_job env job = Some (effects, Ok ())"
  shows "receive_request_task R (Ok ms) to_json st rid ''dispatch_job'' params = Ok (st1, success_response) \<and>
    dispatch_round R env decode_entry decode_job st1 = Some (st2, effects, Continues) \<and>
    stream_messages entries st2 QUEUE_TOPIC = []"
proof -
  let ?m = "\<lparr>rm_id = nat_to_string ms @ ''-0'', rm_data = d\<rparr>"
  have rs: "redis_stream R id_key entries last_id" using assms(1) by (rule redis_stream.intro)
  have "produce R st QUEUE_TOPIC ?m = (st1, Ok ())"
    using assms(4,7) by (auto simp: add_queue_req_def redis_message_new_def split: prod.splits outcome.splits)
  then have st1: "stream_ok id_key entries last_id st1 QUEUE_TOPIC" "stream_messages entries st1 QUEUE_TOPIC = [?m]"
    using redis_stream.stream_produce [OF rs assms(2)] assms(3) by fastforce+
  have l: "l = [?m]" using redis_stream.stream_consume_first [OF rs st1 assms(8)] .
  have "stream_messages entries st2 QUEUE_TOPIC = []"
    using redis_stream.stream_acknowledge_first [OF rs st1] assms(9) by simp
  then show ?thesis
    using assms(5-10) l by (simp add: receive_request_task_def dispatch_round_def)
qed

definition empty_queue :: log_state where
  "empty_queue = (\<lambda>t. ([], (0, 0)))"

theorem request_is_served_witness:
  "\<exists>st1 st2 r clock.
    receive_request_task log_server (Ok 1) (\<lambda>p. Ok ''x'') empty_queue ''7'' ''dispatch_job'' () =
      Ok (st1, success_response) \<and>
    dispatch_round log_server sample_env sample_decode sample_jobs st1 =
      Some (st2, [SinkJob ''j1'' ''alice'' (jr_output r) ''suspicion'' clock, SendResult [r]], Continues) \<and>
    stream_messages (\<lambda>st t. fst (st t)) st2 QUEUE_TOPIC = []"
proof -
  have id1: "nat_to_string 1 @ ''-0'' = ''1-0''" by code_simp
  have key: "log_key ''1-0'' = (1, 0)" using log_key_millis [of 1] id1 by simp
  have add: "add_queue_req log_server (Ok 1) (\<lambda>p. Ok ''x'') empty_queue ''7'' () =
      (empty_queue(QUEUE_TOPIC := ([(''1-0'', [(''data'', ''x'')])], (1, 0))), Ok ())"
    by (simp add: add_queue_req_def redis_message_new_def produce_def log_server_def empty_queue_def
        id1 [unfolded One_nat_def] key)
  obtain r clock where job: "do_job sample_env [sample_job] =
      Some ([SinkJob ''j1'' ''alice'' (jr_output r) ''suspicion'' clock, SendResult [r]], Ok ())"
    using sample_job_effects by blast
  have read: "\<exists>l. consume log_server st t = Ok l" for st t
    by (simp add: consume_def log_server_def outcome_simps split: list.splits)
  have ack: "\<exists>st'. acknowledge log_server st t i = (st', Ok ())" for st t i
    using log_acknowledges by (metis prod.collapse)
  have "stream_ok log_key (\<lambda>st t. fst (st t)) (\<lambda>st t. snd (st t)) empty_queue QUEUE_TOPIC"
    "stream_messages (\<lambda>st t. fst (st t)) empty_queue QUEUE_TOPIC = []"
    by (simp_all add: stream_ok_def stream_messages_def empty_queue_def List.map_filter_simps)
  note served = request_is_served [OF log.laws this, where to_json = "\<lambda>p. Ok ''x''" and d = "''x''"
      and decode_entry = sample_decode and decode_job = sample_jobs, OF _ _ _ add _ _ job]
  show ?thesis using served read ack by (metis (no_types, lifting))
qed
end
